(* ===== verification/Prelude.thy ===== *)
theory Prelude
  imports Main "HOL-Library.Word"
begin

unbundle bit_operations_syntax

text \<open>
  Shared vocabulary of the development: Rust's machine integers, the outcome of a call that
  may return \<^verbatim>\<open>Ok\<close>, return \<^verbatim>\<open>Err\<close> or panic, checked arithmetic, slicing, and the generic facts
  about lists and words that the component theories use.

  The boot profile of the workspace sets \<^verbatim>\<open>overflow-checks = true\<close> (Cargo.toml), so an
  unchecked \<^verbatim>\<open>+\<close> that overflows panics; an index or a range outside a slice panics too.  Both are
  the outcome \<open>Panic\<close> here, so that "this code never panics" is a theorem and not a convention.
  \<^verbatim>\<open>usize\<close> is modelled by natural numbers with the 64-bit bound of the supported targets
  written out wherever the source checks or could exceed it.
\<close>

section \<open>Machine integers\<close>

type_synonym u8 = "8 word"
type_synonym u16 = "16 word"
type_synonym u32 = "32 word"
type_synonym u64 = "64 word"
type_synonym usize = nat

named_theorems outcome_simps \<open>rewrite rules for outcomes of fallible calls\<close>
named_theorems checked_simps \<open>characterisations of checked arithmetic\<close>

section \<open>Outcomes\<close>

datatype ('e, 'a) outcome = Panic | Err 'e | Ok 'a

primrec and_then :: "('e, 'a) outcome \<Rightarrow> ('a \<Rightarrow> ('e, 'b) outcome) \<Rightarrow> ('e, 'b) outcome" where
  "and_then Panic f = Panic"
| "and_then (Err e) f = Err e"
| "and_then (Ok x) f = f x"

primrec map_err :: "('e \<Rightarrow> 'f) \<Rightarrow> ('e, 'a) outcome \<Rightarrow> ('f, 'a) outcome" where
  "map_err f Panic = Panic"
| "map_err f (Err e) = Err (f e)"
| "map_err f (Ok x) = Ok x"

definition ok_or :: "'a option \<Rightarrow> 'e \<Rightarrow> ('e, 'a) outcome" where
  "ok_or v e = (case v of None \<Rightarrow> Err e | Some x \<Rightarrow> Ok x)"

definition or_panic :: "'a option \<Rightarrow> ('e, 'a) outcome" where
  "or_panic v = (case v of None \<Rightarrow> Panic | Some x \<Rightarrow> Ok x)"

definition ensure :: "bool \<Rightarrow> 'e \<Rightarrow> ('e, unit) outcome" where
  "ensure c e = (if c then Ok () else Err e)"

lemma and_then_Ok_iff [outcome_simps]:
  "and_then r f = Ok y \<longleftrightarrow> (\<exists>x. r = Ok x \<and> f x = Ok y)"
  by (cases r) auto

lemma and_then_Err_iff:
  "and_then r f = Err e \<longleftrightarrow> r = Err e \<or> (\<exists>x. r = Ok x \<and> f x = Err e)"
  by (cases r) auto

lemma and_then_Panic_iff [outcome_simps]:
  "and_then r f = Panic \<longleftrightarrow> r = Panic \<or> (\<exists>x. r = Ok x \<and> f x = Panic)"
  by (cases r) auto

lemma and_then_assoc: "and_then (and_then r f) g = and_then r (\<lambda>x. and_then (f x) g)"
  by (cases r) auto

lemma and_then_Ok_right [simp]: "and_then r Ok = r"
  by (cases r) auto

lemma and_then_if:
  "and_then (if c then a else b) f = (if c then and_then a f else and_then b f)"
  by simp

lemma map_err_Ok_iff [outcome_simps]: "map_err f r = Ok x \<longleftrightarrow> r = Ok x"
  by (cases r) auto

lemma map_err_Err_iff: "map_err f r = Err e \<longleftrightarrow> (\<exists>d. r = Err d \<and> e = f d)"
  by (cases r) auto

lemma map_err_Panic_iff [outcome_simps]: "map_err f r = Panic \<longleftrightarrow> r = Panic"
  by (cases r) auto

lemma ok_or_Ok_iff [outcome_simps]: "ok_or v e = Ok x \<longleftrightarrow> v = Some x"
  by (cases v) (auto simp: ok_or_def)

lemma ok_or_not_Panic [outcome_simps]: "ok_or v e \<noteq> Panic"
  by (cases v) (auto simp: ok_or_def)

lemma ok_or_simps [simp]: "ok_or None e = Err e" "ok_or (Some x) e = Ok x"
  by (simp_all add: ok_or_def)

lemma or_panic_Ok_iff [outcome_simps]: "or_panic v = Ok x \<longleftrightarrow> v = Some x"
  by (cases v) (auto simp: or_panic_def)

lemma or_panic_Panic_iff [outcome_simps]: "or_panic v = Panic \<longleftrightarrow> v = None"
  by (cases v) (auto simp: or_panic_def)

lemma or_panic_simps [simp]: "or_panic None = Panic" "or_panic (Some x) = Ok x"
  by (simp_all add: or_panic_def)

lemma ensure_Ok_iff [outcome_simps]: "ensure c e = Ok u \<longleftrightarrow> c"
  by (auto simp: ensure_def)

lemma ensure_not_Panic [outcome_simps]: "ensure c e \<noteq> Panic"
  by (simp add: ensure_def)

lemma ensure_simps [simp]: "ensure True e = Ok ()" "ensure False e = Err e"
  by (simp_all add: ensure_def)

section \<open>Checked arithmetic\<close>

definition checked_add :: "'a::len word \<Rightarrow> 'a word \<Rightarrow> 'a word option" where
  "checked_add a b = (if unat a + unat b < 2 ^ LENGTH('a) then Some (a + b) else None)"

definition checked_mul :: "'a::len word \<Rightarrow> 'a word \<Rightarrow> 'a word option" where
  "checked_mul a b = (if unat a * unat b < 2 ^ LENGTH('a) then Some (a * b) else None)"

definition checked_sub :: "'a::len word \<Rightarrow> 'a word \<Rightarrow> 'a word option" where
  "checked_sub a b = (if b \<le> a then Some (a - b) else None)"

text \<open>The unchecked operators of a build with overflow checks.\<close>

definition add_or_panic :: "'a::len word \<Rightarrow> 'a word \<Rightarrow> ('e, 'a word) outcome" where
  "add_or_panic a b = or_panic (checked_add a b)"

definition sub_or_panic :: "'a::len word \<Rightarrow> 'a word \<Rightarrow> ('e, 'a word) outcome" where
  "sub_or_panic a b = or_panic (checked_sub a b)"

abbreviation usize_limit :: nat where
  "usize_limit \<equiv> 2 ^ 64"

definition usize_checked_add :: "usize \<Rightarrow> usize \<Rightarrow> usize option" where
  "usize_checked_add a b = (if a + b < usize_limit then Some (a + b) else None)"

definition usize_checked_mul :: "usize \<Rightarrow> usize \<Rightarrow> usize option" where
  "usize_checked_mul a b = (if a * b < usize_limit then Some (a * b) else None)"

definition usize_add :: "usize \<Rightarrow> usize \<Rightarrow> ('e, usize) outcome" where
  "usize_add a b = or_panic (usize_checked_add a b)"

text \<open>\<^verbatim>\<open>usize::try_from\<close> of a 64-bit value, and \<^verbatim>\<open>u64::try_from\<close> and \<^verbatim>\<open>u32::try_from\<close> of a \<^verbatim>\<open>usize\<close>.\<close>

definition usize_try_from_u64 :: "u64 \<Rightarrow> usize option" where
  "usize_try_from_u64 w = (if unat w < usize_limit then Some (unat w) else None)"

definition u64_try_from_usize :: "usize \<Rightarrow> u64 option" where
  "u64_try_from_usize n = (if n < 2 ^ 64 then Some (of_nat n) else None)"

definition u32_try_from_usize :: "usize \<Rightarrow> u32 option" where
  "u32_try_from_usize n = (if n < 2 ^ 32 then Some (of_nat n) else None)"

lemma checked_add_Some_iff [checked_simps]:
  fixes a b :: "'a::len word"
  shows "checked_add a b = Some c \<longleftrightarrow> unat a + unat b < 2 ^ LENGTH('a) \<and> c = a + b"
  by (auto simp: checked_add_def)

lemma checked_add_None_iff [checked_simps]:
  fixes a b :: "'a::len word"
  shows "checked_add a b = None \<longleftrightarrow> 2 ^ LENGTH('a) \<le> unat a + unat b"
  by (auto simp: checked_add_def)

lemma checked_mul_Some_iff [checked_simps]:
  fixes a b :: "'a::len word"
  shows "checked_mul a b = Some c \<longleftrightarrow> unat a * unat b < 2 ^ LENGTH('a) \<and> c = a * b"
  by (auto simp: checked_mul_def)

lemma checked_sub_Some_iff [checked_simps]:
  "checked_sub a b = Some c \<longleftrightarrow> b \<le> a \<and> c = a - b"
  by (auto simp: checked_sub_def)

lemma usize_checked_add_Some_iff [checked_simps]:
  "usize_checked_add a b = Some c \<longleftrightarrow> a + b < usize_limit \<and> c = a + b"
  by (auto simp: usize_checked_add_def)

lemma usize_checked_mul_Some_iff [checked_simps]:
  "usize_checked_mul a b = Some c \<longleftrightarrow> a * b < usize_limit \<and> c = a * b"
  by (auto simp: usize_checked_mul_def)

lemma usize_try_from_u64_total [simp]: "usize_try_from_u64 w = Some (unat w)"
  using unsigned_less [of w, where 'a = nat] by (simp add: usize_try_from_u64_def)

lemma unat_checked_add:
  "checked_add a b = Some c \<Longrightarrow> unat c = unat a + unat b"
  by (simp add: checked_add_Some_iff unat_word_ariths)

lemma unat_checked_mul:
  "checked_mul a b = Some c \<Longrightarrow> unat c = unat a * unat b"
  by (simp add: checked_mul_Some_iff unat_word_ariths)

lemma unat_add_no_overflow:
  fixes a b :: "'a::len word"
  shows "unat a + unat b < 2 ^ LENGTH('a) \<Longrightarrow> unat (a + b) = unat a + unat b"
  by (simp add: unat_word_ariths)

lemma unat_diff_no_underflow: "b \<le> a \<Longrightarrow> unat (a - b) = unat a - unat b"
  by (rule unat_sub)

lemma add_or_panic_Ok_iff [outcome_simps]:
  fixes a b :: "'a::len word"
  shows "add_or_panic a b = Ok c \<longleftrightarrow> unat a + unat b < 2 ^ LENGTH('a) \<and> c = a + b"
  by (simp add: add_or_panic_def or_panic_Ok_iff checked_add_Some_iff)

lemma add_or_panic_Panic_iff [outcome_simps]:
  fixes a b :: "'a::len word"
  shows "add_or_panic a b = Panic \<longleftrightarrow> 2 ^ LENGTH('a) \<le> unat a + unat b"
  by (simp add: add_or_panic_def or_panic_Panic_iff checked_add_None_iff)

lemma add_or_panic_not_Err [simp]: "add_or_panic a b \<noteq> Err e"
  by (simp add: add_or_panic_def or_panic_def split: option.split)

lemma unat_add_or_panic: "add_or_panic a b = Ok c \<Longrightarrow> unat c = unat a + unat b"
  by (simp add: add_or_panic_Ok_iff unat_add_no_overflow)

lemma sub_or_panic_eq: "sub_or_panic a b = (if b \<le> a then Ok (a - b) else Panic)"
  by (simp add: sub_or_panic_def checked_sub_def)

lemma usize_add_eq: "usize_add a b = (if a + b < usize_limit then Ok (a + b) else Panic)"
  by (simp add: usize_add_def usize_checked_add_def)

subsection \<open>Masks and alignment\<close>

lemma and_not_mask_eq:
  fixes w :: "'a::len word"
  shows "w AND NOT (mask n) = push_bit n (drop_bit n w)"
  by (rule bit_word_eqI) (auto simp: bit_simps)

lemma unat_and_not_mask:
  fixes w :: "'a::len word"
  shows "unat (w AND NOT (mask n)) = unat w div 2 ^ n * 2 ^ n"
proof -
  have le: "unat w div 2 ^ n * 2 ^ n \<le> unat w"
    by (rule div_times_less_eq_dividend)
  have "unat (push_bit n (drop_bit n w)) = take_bit LENGTH('a) (unat w div 2 ^ n * 2 ^ n)"
    by (simp only: unsigned_push_bit_eq unat_drop_bit_eq) (simp add: push_bit_eq_mult drop_bit_eq_div)
  also have "\<dots> = unat w div 2 ^ n * 2 ^ n"
    using le_less_trans [OF le unsigned_less [of w]] by (simp only: take_bit_nat_eq_self_iff)
  finally show ?thesis by (simp add: and_not_mask_eq)
qed

lemma word_eq_unat_iff: "w = of_nat n \<longleftrightarrow> unat w = n" if "n < 2 ^ LENGTH('a)" for w :: "'a::len word"
  using that by (auto simp: unat_of_nat)

lemma and_not_1_eq_0_iff: "w AND - 2 = 0 \<longleftrightarrow> w = 0 \<or> w = 1" for w :: "'a::len word"
proof -
  have "unat (w AND NOT (mask 1)) = unat w div 2 * 2"
    by (simp only: unat_and_not_mask power_one_right)
  then have "w AND - 2 = 0 \<longleftrightarrow> unat w div 2 * 2 = 0"
    by (simp flip: unat_eq_zero)
  also have "\<dots> \<longleftrightarrow> unat w = 0 \<or> unat w = 1" by auto
  also have "\<dots> \<longleftrightarrow> w = 0 \<or> w = 1"
    by (metis unat_0 unat_1 word_unat_eq_iff)
  finally show ?thesis .
qed

lemma unat_ucast_up:
  "LENGTH('a) \<le> LENGTH('b) \<Longrightarrow> unat (ucast w :: 'b::len word) = unat w" for w :: "'a::len word"
  by (simp add: unsigned_ucast_eq take_bit_nat_eq_self_iff
      less_le_trans [OF unsigned_less] power_increasing)

lemma word_mod_eq_0_iff: "w mod m = 0 \<longleftrightarrow> unat m dvd unat w" for w m :: "'a::len word"
  by (metis dvd_eq_mod_eq_0 unat_eq_zero unat_mod)

definition is_power_of_two :: "'a::len word \<Rightarrow> bool" where
  "is_power_of_two w \<longleftrightarrow> list_ex (\<lambda>k. w = push_bit k 1) [0..<LENGTH('a)]"

lemma is_power_of_two_iff:
  fixes w :: "'a::len word"
  shows "is_power_of_two w \<longleftrightarrow> (\<exists>k < LENGTH('a). unat w = 2 ^ k)"
proof -
  have "w = push_bit k 1 \<longleftrightarrow> unat w = 2 ^ k" if "k < LENGTH('a)" for k
  proof -
    have "unat (push_bit k 1 :: 'a word) = 2 ^ k"
      using that
      by (simp only: unsigned_push_bit_eq) (simp add: push_bit_eq_mult take_bit_nat_eq_self_iff)
    then show ?thesis by (metis word_unat_eq_iff)
  qed
  then show ?thesis by (auto simp: is_power_of_two_def list_ex_iff)
qed

section \<open>Slices\<close>

definition slice_get :: "'a list \<Rightarrow> usize \<Rightarrow> usize \<Rightarrow> 'a list option" where
  "slice_get xs i j = (if i \<le> j \<and> j \<le> length xs then Some (take (j - i) (drop i xs)) else None)"

definition slice_at :: "'a list \<Rightarrow> usize \<Rightarrow> usize \<Rightarrow> ('e, 'a list) outcome" where
  "slice_at xs i j = or_panic (slice_get xs i j)"

definition index_at :: "'a list \<Rightarrow> usize \<Rightarrow> ('e, 'a) outcome" where
  "index_at xs i = (if i < length xs then Ok (xs ! i) else Panic)"

lemma slice_get_Some_iff:
  "slice_get xs i j = Some ys \<longleftrightarrow> i \<le> j \<and> j \<le> length xs \<and> ys = take (j - i) (drop i xs)"
  by (auto simp: slice_get_def)

lemma slice_get_length: "slice_get xs i j = Some ys \<Longrightarrow> length ys = j - i"
  by (auto simp: slice_get_Some_iff)

lemma slice_get_append: "length ys = n \<Longrightarrow> slice_get (xs @ ys @ zs) (length xs) (length xs + n) = Some ys"
  by (simp add: slice_get_def)

lemma slice_get_nth:
  "slice_get xs i j = Some ys \<Longrightarrow> k < j - i \<Longrightarrow> ys ! k = xs ! (i + k)"
  by (auto simp: slice_get_Some_iff)

lemma index_at_simp [simp]: "i < length xs \<Longrightarrow> index_at xs i = Ok (xs ! i)"
  by (simp add: index_at_def)

lemma index_at_Panic_iff [outcome_simps]: "index_at xs i = Panic \<longleftrightarrow> length xs \<le> i"
  by (auto simp: index_at_def)

lemma slice_at_simp:
  "i \<le> j \<Longrightarrow> j \<le> length xs \<Longrightarrow> slice_at xs i j = Ok (take (j - i) (drop i xs))"
  by (simp add: slice_at_def slice_get_def)

lemma slice_at_Ok_iff:
  "slice_at xs i j = Ok ys \<longleftrightarrow> i \<le> j \<and> j \<le> length xs \<and> ys = take (j - i) (drop i xs)"
  by (simp add: slice_at_def or_panic_Ok_iff slice_get_Some_iff)

section \<open>Byte strings\<close>

definition byte_of_char :: "char \<Rightarrow> u8" where
  "byte_of_char c = of_nat (of_char c)"

definition bytes_of :: "string \<Rightarrow> u8 list" where
  "bytes_of s = map byte_of_char s"

lemma unat_byte_of_char: "unat (byte_of_char c) = of_char c"
proof -
  have "(of_char c :: nat) < 256"
    by (metis of_char_mod_256 mod_less_divisor zero_less_numeral)
  then show ?thesis by (simp add: byte_of_char_def unat_of_nat)
qed

lemma byte_of_char_inject [simp]: "byte_of_char c = byte_of_char d \<longleftrightarrow> c = d"
  by (metis unat_byte_of_char of_char_eq_iff)

lemma bytes_of_inject [simp]: "bytes_of s = bytes_of t \<longleftrightarrow> s = t"
  unfolding bytes_of_def by (rule inj_map_eq_map) (auto intro: injI)

lemma length_bytes_of [simp]: "length (bytes_of s) = length s"
  by (simp add: bytes_of_def)

lemma bytes_of_append: "bytes_of (s @ t) = bytes_of s @ bytes_of t"
  by (simp add: bytes_of_def)

section \<open>Memory\<close>

text \<open>Memory is a function from addresses to bytes.  The slice that \<^verbatim>\<open>slice::from_raw_parts\<close> makes of the memory at an address.\<close>

definition memory_slice :: "(nat \<Rightarrow> u8) \<Rightarrow> nat \<Rightarrow> usize \<Rightarrow> u8 list" where
  "memory_slice mem address len = map (\<lambda>i. mem (address + i)) [0..<len]"

lemma length_memory_slice [simp]: "length (memory_slice mem address len) = len"
  by (simp add: memory_slice_def)

lemma memory_slice_eq_iff:
  "memory_slice mem address len = data \<longleftrightarrow>
    length data = len \<and> (\<forall>i < len. mem (address + i) = data ! i)"
  by (auto simp: memory_slice_def list_eq_iff_nth_eq)

section \<open>Lists\<close>

lemma list_all_nth_iff: "list_all P xs \<longleftrightarrow> (\<forall>i < length xs. P (xs ! i))"
  by (simp add: list_all_length)

lemma all_eq_replicate: "(\<forall>x \<in> set xs. x = a) \<longleftrightarrow> xs = replicate (length xs) a"
  by (metis in_set_replicate replicate_length_same)

end
