(* ===== verification/Byte_Codec.thy ===== *)
theory Byte_Codec
  imports Prelude
begin

text \<open>
  Little-endian byte encodings and the cursors of \<^verbatim>\<open>crates/boot-contract/src/lib.rs\<close>: the
  \<^verbatim>\<open>Reader\<close> and \<^verbatim>\<open>Writer\<close> that walk the fixed handoff layout.  The interface of a fixed-width field
  is the locale \<open>field_codec\<close>; it is interpreted for every field reader of the contract, and
  its array extension gives the codec of a fixed-length array from the codec of its elements.
\<close>

section \<open>Little-endian integers\<close>

primrec le_value :: "u8 list \<Rightarrow> nat" where
  "le_value [] = 0"
| "le_value (b # bs) = unat b + 256 * le_value bs"

primrec le_digits :: "nat \<Rightarrow> nat \<Rightarrow> u8 list" where
  "le_digits 0 k = []"
| "le_digits (Suc n) k = of_nat (k mod 256) # le_digits n (k div 256)"

definition from_le_bytes :: "u8 list \<Rightarrow> 'a::len word" where
  "from_le_bytes bs = of_nat (le_value bs)"

definition to_le_bytes :: "'a::len word \<Rightarrow> u8 list" where
  "to_le_bytes w = le_digits (LENGTH('a) div 8) (unat w)"

lemma length_le_digits [simp]: "length (le_digits n k) = n"
  by (induction n arbitrary: k) auto

lemma le_value_bound: "le_value bs < 256 ^ length bs"
proof (induction bs)
  case Nil
  then show ?case by simp
next
  case (Cons b bs)
  have "unat b < 256"
    using unsigned_less [of b, where 'a = nat] by simp
  with Cons show ?case by simp
qed

lemma le_value_le_digits: "le_value (le_digits n k) = k mod 256 ^ n"
  by (induction n arbitrary: k) (simp_all add: unat_of_nat mod_mult2_eq)

lemma le_digits_le_value: "le_digits (length bs) (le_value bs) = bs"
proof (induction bs)
  case Nil
  then show ?case by simp
next
  case (Cons b bs)
  have b: "unat b < 256"
    using unsigned_less [of b, where 'a = nat] by simp
  have "(unat b + 256 * le_value bs) mod 256 = unat b"
    "(unat b + 256 * le_value bs) div 256 = le_value bs"
    using b by simp_all
  with Cons show ?case by simp
qed

lemma length_to_le_bytes [simp]: "length (to_le_bytes (w :: 'a::len word)) = LENGTH('a) div 8"
  by (simp add: to_le_bytes_def)

lemma byte_capacity:
  assumes "8 dvd n"
  shows "(256::nat) ^ (n div 8) = 2 ^ n"
proof -
  from assms obtain k where "n = 8 * k" by (elim dvdE)
  then show ?thesis by (simp add: power_mult)
qed

lemma from_le_bytes_to_le_bytes:
  fixes w :: "'a::len word"
  assumes "8 dvd LENGTH('a)"
  shows "from_le_bytes (to_le_bytes w) = w"
  using unsigned_less [of w, where 'a = nat]
  by (simp add: from_le_bytes_def to_le_bytes_def le_value_le_digits byte_capacity [OF assms])

lemma to_le_bytes_from_le_bytes:
  assumes "8 dvd LENGTH('a)" and "length bs = LENGTH('a::len) div 8"
  shows "to_le_bytes (from_le_bytes bs :: 'a word) = bs"
proof -
  have "le_value bs < 2 ^ LENGTH('a)"
    using le_value_bound [of bs] by (simp add: assms(2) byte_capacity [OF assms(1)])
  then have "unat (from_le_bytes bs :: 'a word) = le_value bs"
    by (simp add: from_le_bytes_def unat_of_nat)
  then show ?thesis
    by (simp add: to_le_bytes_def assms(2) [symmetric] le_digits_le_value)
qed

section \<open>The reader cursor\<close>

record reader =
  rd_bytes :: "u8 list"
  rd_position :: usize

definition reader_new :: "u8 list \<Rightarrow> reader" where
  "reader_new bs = \<lparr>rd_bytes = bs, rd_position = 0\<rparr>"

definition advance :: "nat \<Rightarrow> reader \<Rightarrow> reader" where
  "advance n r = r\<lparr>rd_position := rd_position r + n\<rparr>"

definition remaining :: "reader \<Rightarrow> u8 list" where
  "remaining r = drop (rd_position r) (rd_bytes r)"

definition reader_array_8 :: "reader \<Rightarrow> ('e, u8 list \<times> reader) outcome" where
  "reader_array_8 r =
     and_then (slice_at (rd_bytes r) (rd_position r) (rd_position r + 8)) (\<lambda>value.
     Ok (value, r\<lparr>rd_position := rd_position r + 8\<rparr>))"

definition reader_u16 :: "reader \<Rightarrow> ('e, u16 \<times> reader) outcome" where
  "reader_u16 r =
     and_then (slice_at (rd_bytes r) (rd_position r) (rd_position r + 2)) (\<lambda>value.
     Ok (from_le_bytes value, r\<lparr>rd_position := rd_position r + 2\<rparr>))"

definition reader_u32 :: "reader \<Rightarrow> ('e, u32 \<times> reader) outcome" where
  "reader_u32 r =
     and_then (slice_at (rd_bytes r) (rd_position r) (rd_position r + 4)) (\<lambda>value.
     Ok (from_le_bytes value, r\<lparr>rd_position := rd_position r + 4\<rparr>))"

definition reader_u64 :: "reader \<Rightarrow> ('e, u64 \<times> reader) outcome" where
  "reader_u64 r =
     and_then (slice_at (rd_bytes r) (rd_position r) (rd_position r + 8)) (\<lambda>value.
     Ok (from_le_bytes value, r\<lparr>rd_position := rd_position r + 8\<rparr>))"

text \<open>
  A loop that fills an array slot by slot from the reader, as
  \<^verbatim>\<open>for region in &mut memory_regions\<close> does.
\<close>

primrec read_array :: "nat \<Rightarrow> (reader \<Rightarrow> ('e, 'a \<times> reader) outcome) \<Rightarrow> reader
    \<Rightarrow> ('e, 'a list \<times> reader) outcome" where
  "read_array 0 f r = Ok ([], r)"
| "read_array (Suc n) f r =
     and_then (f r) (\<lambda>(x, r). and_then (read_array n f r) (\<lambda>(xs, r). Ok (x # xs, r)))"

lemma remaining_reader_new [simp]: "remaining (reader_new bs) = bs"
  by (simp add: remaining_def reader_new_def)

lemma remaining_advance [simp]: "remaining (advance n r) = drop n (remaining r)"
  by (simp add: remaining_def advance_def add.commute)

lemma advance_advance [simp]: "advance m (advance n r) = advance (n + m) r"
  by (simp add: advance_def add.assoc)

lemma advance_0 [simp]: "advance 0 r = r"
  by (simp add: advance_def)

lemma rd_position_advance [simp]: "rd_position (advance n r) = rd_position r + n"
  by (simp add: advance_def)

lemma slice_at_remaining:
  assumes "0 < n"
  shows "slice_at (rd_bytes r) (rd_position r) (rd_position r + n) =
    (if n \<le> length (remaining r) then Ok (take n (remaining r)) else Panic)"
  using assms by (auto simp: slice_at_def slice_get_def remaining_def)

lemma take_eq_append_iff:
  assumes "length a = i"
  shows "take (i + j) xs = a @ b \<longleftrightarrow> take i xs = a \<and> take j (drop i xs) = b"
proof
  assume *: "take (i + j) xs = a @ b"
  show "take i xs = a \<and> take j (drop i xs) = b"
  proof
    have "take i (take (i + j) xs) = take i (a @ b)" by (simp only: *)
    with assms show "take i xs = a" by (simp add: min_def)
    have "drop i (take (i + j) xs) = drop i (a @ b)" by (simp only: *)
    with assms show "take j (drop i xs) = b" by (simp add: drop_take)
  qed
next
  assume "take i xs = a \<and> take j (drop i xs) = b"
  then show "take (i + j) xs = a @ b" by (simp add: take_add)
qed

text \<open>Adjacent fields of a layout, joined into one run of bytes.\<close>

lemma take_join:
  "take i xs @ take j (drop i xs) = take (i + j) xs"
  "take i xs @ take j (drop i xs) @ zs = take (i + j) xs @ zs"
  by (simp_all add: take_add)

section \<open>Fixed-width fields\<close>

text \<open>
  The contract of a field: well-formed values have \<open>width\<close> bytes, reading succeeds exactly when
  that many bytes remain, and what it returns is the value whose encoding those bytes are.
\<close>

locale field_codec =
  fixes width :: nat
    and enc :: "'a \<Rightarrow> u8 list"
    and wf_value :: "'a \<Rightarrow> bool"
    and read :: "reader \<Rightarrow> ('e, 'a \<times> reader) outcome"
  assumes enc_width: "wf_value v \<Longrightarrow> length (enc v) = width"
    and enc_inject: "wf_value v \<Longrightarrow> wf_value w \<Longrightarrow> enc v = enc w \<Longrightarrow> v = w"
    and read_short: "length (remaining r) < width \<Longrightarrow> read r = Panic"
    and read_total: "width \<le> length (remaining r) \<Longrightarrow>
      \<exists>v. read r = Ok (v, advance width r) \<and> wf_value v \<and> enc v = take width (remaining r)"
begin

lemma read_Ok_iff:
  "read r = Ok (v, r') \<longleftrightarrow>
    wf_value v \<and> take width (remaining r) = enc v \<and> r' = advance width r"
proof (cases "width \<le> length (remaining r)")
  case True
  then obtain u where "read r = Ok (u, advance width r)" "wf_value u"
    "enc u = take width (remaining r)"
    using read_total by blast
  then show ?thesis by (auto dest: enc_inject)
next
  case False
  then have "read r = Panic" by (simp add: read_short)
  moreover have "\<not> (wf_value v \<and> take width (remaining r) = enc v)"
    using False enc_width [of v] by (metis length_take min.absorb_iff2 nat_le_linear)
  ultimately show ?thesis by auto
qed

lemma read_not_Err: "read r \<noteq> Err e"
  by (cases "width \<le> length (remaining r)") (use read_total read_short in fastforce)+

lemma read_Panic_iff: "read r = Panic \<longleftrightarrow> length (remaining r) < width"
  using read_total [of r] read_short [of r] by fastforce

lemma read_enc: "wf_value v \<Longrightarrow> remaining r = enc v @ rest \<Longrightarrow> read r = Ok (v, advance width r)"
  by (simp add: read_Ok_iff enc_width)

end

locale array_codec = field_codec +
  fixes count :: nat
begin

lemma read_array_short:
  "length (remaining r) < n * width \<Longrightarrow> read_array n read r = Panic"
proof (induction n arbitrary: r)
  case 0
  then show ?case by simp
next
  case (Suc n)
  show ?case
  proof (cases "width \<le> length (remaining r)")
    case True
    then obtain v where v: "read r = Ok (v, advance width r)"
      using read_total by blast
    from Suc.prems have "length (remaining (advance width r)) < n * width"
      using True by simp
    then have "read_array n read (advance width r) = Panic" by (rule Suc.IH)
    with v show ?thesis by simp
  qed (simp add: read_short)
qed

lemma read_array_total:
  "n * width \<le> length (remaining r) \<Longrightarrow>
    \<exists>vs. read_array n read r = Ok (vs, advance (n * width) r) \<and> length vs = n \<and>
      list_all wf_value vs \<and> concat (map enc vs) = take (n * width) (remaining r)"
proof (induction n arbitrary: r)
  case 0
  then show ?case by simp
next
  case (Suc n)
  then have "width \<le> length (remaining r)" by simp
  then obtain v where v: "read r = Ok (v, advance width r)" "wf_value v"
    "enc v = take width (remaining r)"
    using read_total by blast
  from Suc.prems have "n * width \<le> length (remaining (advance width r))" by simp
  then obtain vs where vs: "read_array n read (advance width r) = Ok (vs, advance (n * width) (advance width r))"
    "length vs = n" "list_all wf_value vs"
    "concat (map enc vs) = take (n * width) (drop width (remaining r))"
    using Suc.IH by fastforce
  then show ?case
    by (intro exI [of _ "v # vs"]) (simp add: v take_add)
qed

lemma concat_enc_width: "list_all wf_value vs \<Longrightarrow> length (concat (map enc vs)) = length vs * width"
  by (induction vs) (simp_all add: enc_width)

lemma concat_enc_inject:
  "list_all wf_value vs \<Longrightarrow> list_all wf_value ws \<Longrightarrow> length vs = length ws \<Longrightarrow>
    concat (map enc vs) = concat (map enc ws) \<Longrightarrow> vs = ws"
proof (induction vs ws rule: list_induct2')
  case (4 v vs w ws)
  then have "enc v = enc w \<and> concat (map enc vs) = concat (map enc ws)"
    by (simp add: enc_width append_eq_append_conv)
  with 4 show ?case by (auto dest: enc_inject)
qed auto

end

sublocale array_codec \<subseteq> arr: field_codec "count * width" "\<lambda>vs. concat (map enc vs)"
  "\<lambda>vs. length vs = count \<and> list_all wf_value vs" "read_array count read"
proof unfold_locales
  show "length (concat (map enc v)) = count * width" if "length v = count \<and> list_all wf_value v" for v
    using that by (simp add: concat_enc_width)
  show "v = w" if "length v = count \<and> list_all wf_value v" "length w = count \<and> list_all wf_value w"
    "concat (map enc v) = concat (map enc w)" for v w
    using that by (auto intro: concat_enc_inject)
  show "read_array count read r = Panic" if "length (remaining r) < count * width" for r
    using that by (rule read_array_short)
  show "\<exists>v. read_array count read r = Ok (v, advance (count * width) r) \<and>
      (length v = count \<and> list_all wf_value v) \<and> concat (map enc v) = take (count * width) (remaining r)"
    if "count * width \<le> length (remaining r)" for r
    using read_array_total [OF that] by blast
qed

subsection \<open>The field readers of the contract\<close>

lemma reader_array_8_eq:
  "reader_array_8 r =
    (if 8 \<le> length (remaining r) then Ok (take 8 (remaining r), advance 8 r) else Panic)"
  by (simp add: reader_array_8_def slice_at_remaining advance_def)

lemma reader_u16_eq:
  "reader_u16 r = (if 2 \<le> length (remaining r)
    then Ok (from_le_bytes (take 2 (remaining r)), advance 2 r) else Panic)"
  by (simp add: reader_u16_def slice_at_remaining advance_def del: add_2_eq_Suc')

lemma reader_u32_eq:
  "reader_u32 r = (if 4 \<le> length (remaining r)
    then Ok (from_le_bytes (take 4 (remaining r)), advance 4 r) else Panic)"
  by (simp add: reader_u32_def slice_at_remaining advance_def)

lemma reader_u64_eq:
  "reader_u64 r = (if 8 \<le> length (remaining r)
    then Ok (from_le_bytes (take 8 (remaining r)), advance 8 r) else Panic)"
  by (simp add: reader_u64_def slice_at_remaining advance_def)

lemma to_le_bytes_inject:
  "8 dvd LENGTH('a) \<Longrightarrow> to_le_bytes v = to_le_bytes w \<Longrightarrow> v = w" for v w :: "'a::len word"
  by (metis from_le_bytes_to_le_bytes)

lemma to_le_bytes_eq_iff [simp]:
  "to_le_bytes (a :: u16) = to_le_bytes b \<longleftrightarrow> a = b"
  "to_le_bytes (c :: u32) = to_le_bytes d \<longleftrightarrow> c = d"
  "to_le_bytes (e :: u64) = to_le_bytes f \<longleftrightarrow> e = f"
  by (auto dest: to_le_bytes_inject [rotated])

interpretation codec_array_8: field_codec 8 "\<lambda>v. v" "\<lambda>v. length v = 8" reader_array_8
  by unfold_locales
    (auto simp: reader_array_8_eq)

interpretation codec_u16: field_codec 2 "to_le_bytes :: u16 \<Rightarrow> u8 list" "\<lambda>_. True" reader_u16
  by unfold_locales
    (auto simp: reader_u16_eq to_le_bytes_from_le_bytes intro: to_le_bytes_inject)

interpretation codec_u32: field_codec 4 "to_le_bytes :: u32 \<Rightarrow> u8 list" "\<lambda>_. True" reader_u32
  by unfold_locales
    (auto simp: reader_u32_eq to_le_bytes_from_le_bytes intro: to_le_bytes_inject)

interpretation codec_u64: field_codec 8 "to_le_bytes :: u64 \<Rightarrow> u8 list" "\<lambda>_. True" reader_u64
  by unfold_locales
    (auto simp: reader_u64_eq to_le_bytes_from_le_bytes intro: to_le_bytes_inject)

lemmas reader_eqs = reader_array_8_eq reader_u16_eq reader_u32_eq reader_u64_eq

lemmas reader_Ok_iffs =
  codec_array_8.read_Ok_iff codec_u16.read_Ok_iff codec_u32.read_Ok_iff codec_u64.read_Ok_iff

lemmas reader_Panic_iffs =
  codec_array_8.read_Panic_iff codec_u16.read_Panic_iff codec_u32.read_Panic_iff
  codec_u64.read_Panic_iff

section \<open>The writer cursor\<close>

record writer =
  wr_bytes :: "u8 list"
  wr_position :: usize

definition writer_new :: "u8 list \<Rightarrow> writer" where
  "writer_new bs = \<lparr>wr_bytes = bs, wr_position = 0\<rparr>"

definition writer_bytes :: "writer \<Rightarrow> u8 list \<Rightarrow> ('e, writer) outcome" where
  "writer_bytes w value =
     (let stop = wr_position w + length value in
      if stop \<le> length (wr_bytes w)
      then Ok (w\<lparr>wr_bytes := take (wr_position w) (wr_bytes w) @ value @ drop stop (wr_bytes w),
                 wr_position := stop\<rparr>)
      else Panic)"

definition writer_u16 :: "writer \<Rightarrow> u16 \<Rightarrow> ('e, writer) outcome" where
  "writer_u16 w value = writer_bytes w (to_le_bytes value)"

definition writer_u32 :: "writer \<Rightarrow> u32 \<Rightarrow> ('e, writer) outcome" where
  "writer_u32 w value = writer_bytes w (to_le_bytes value)"

definition writer_u64 :: "writer \<Rightarrow> u64 \<Rightarrow> ('e, writer) outcome" where
  "writer_u64 w value = writer_bytes w (to_le_bytes value)"

lemmas writer_word_defs = writer_u16_def writer_u32_def writer_u64_def

text \<open>Two writes in a row are one write of the concatenation, panics included.\<close>

lemma writer_bytes_append:
  "and_then (writer_bytes w a) (\<lambda>w. writer_bytes w b) = writer_bytes w (a @ b)"
proof (cases "wr_position w + length a \<le> length (wr_bytes w)")
  case True
  then show ?thesis by (simp add: writer_bytes_def Let_def ac_simps)
next
  case False
  then show ?thesis by (simp add: writer_bytes_def Let_def)
qed

lemma writer_bytes_append':
  "and_then (writer_bytes w a) (\<lambda>w. and_then (writer_bytes w b) f) = and_then (writer_bytes w (a @ b)) f"
  by (simp flip: and_then_assoc add: writer_bytes_append)

lemma writer_bytes_full:
  "length value = length bs \<Longrightarrow>
    writer_bytes (writer_new bs) value = Ok \<lparr>wr_bytes = value, wr_position = length value\<rparr>"
  by (simp add: writer_bytes_def writer_new_def)

end
