(* ===== verification/Boot_Contract.thy ===== *)
theory Boot_Contract
  imports Byte_Codec
begin

text \<open>
  \<^verbatim>\<open>crates/boot-contract/src/lib.rs\<close>: the versioned loader-to-kernel handoff.  The structs are
  records, the transparent newtypes one-constructor datatypes, every \<^verbatim>\<open>return Err\<close> a branch, and
  the two directions of the wire format the functions \<open>contract_encode\<close> and \<open>contract_parse\<close>.
  The declarative reading of "a valid contract" is \<open>valid_contract\<close>, and the byte layout that
  both directions implement is \<open>wire_boot_info\<close>.
\<close>

named_theorems abi_consts \<open>the numeric constants of the boot contract\<close>

section \<open>Constants\<close>

definition BOOT_MAGIC :: "u8 list" where
  [abi_consts]: "BOOT_MAGIC = bytes_of ''POLYBOOT''"
definition ABI_MAJOR :: u16 where [abi_consts]: "ABI_MAJOR = 1"
definition ABI_MINOR :: u16 where [abi_consts]: "ABI_MINOR = 0"
definition CONTRACT_PAGE_SIZE :: u64 where [abi_consts]: "CONTRACT_PAGE_SIZE = 4096"
definition PAGE_SIZE_BYTES :: usize where [abi_consts]: "PAGE_SIZE_BYTES = 4096"
definition MAX_MEMORY_REGIONS :: usize where [abi_consts]: "MAX_MEMORY_REGIONS = 128"
definition BOOT_HEADER_SIZE :: usize where [abi_consts]: "BOOT_HEADER_SIZE = 32"
definition BOOT_INFO_SIZE :: usize where [abi_consts]: "BOOT_INFO_SIZE = 4176"
definition ABI_MAJOR_OFFSET :: usize where [abi_consts]: "ABI_MAJOR_OFFSET = 8"
definition TOTAL_SIZE_OFFSET :: usize where [abi_consts]: "TOTAL_SIZE_OFFSET = 16"
definition KNOWN_HEADER_FLAGS :: u32 where [abi_consts]: "KNOWN_HEADER_FLAGS = 0"
definition BOOT_HEADER_SIZE_U32 :: u32 where [abi_consts]: "BOOT_HEADER_SIZE_U32 = 32"
definition BOOT_INFO_SIZE_U32 :: u32 where [abi_consts]: "BOOT_INFO_SIZE_U32 = 4176"
definition MEMORY_REGION_SIZE_U32 :: u32 where [abi_consts]: "MEMORY_REGION_SIZE_U32 = 32"
definition MAX_MEMORY_REGIONS_U32 :: u32 where [abi_consts]: "MAX_MEMORY_REGIONS_U32 = 128"
definition PLATFORM_FLAG_RSDP_PRESENT :: u64 where [abi_consts]: "PLATFORM_FLAG_RSDP_PRESENT = 1"
definition KNOWN_PLATFORM_FLAGS :: u64 where
  [abi_consts]: "KNOWN_PLATFORM_FLAGS = PLATFORM_FLAG_RSDP_PRESENT"
definition SCENARIO_FLAG_TEST_ONLY :: u32 where [abi_consts]: "SCENARIO_FLAG_TEST_ONLY = 1"
definition KNOWN_SCENARIO_FLAGS :: u32 where
  [abi_consts]: "KNOWN_SCENARIO_FLAGS = SCENARIO_FLAG_TEST_ONLY"
definition MIN_RSDP_LENGTH :: u32 where [abi_consts]: "MIN_RSDP_LENGTH = 20"
definition MAX_RSDP_LENGTH :: u32 where [abi_consts]: "MAX_RSDP_LENGTH = 4096"

section \<open>Data\<close>

record boot_header =
  hdr_magic :: "u8 list"
  abi_major :: u16
  abi_minor :: u16
  header_size :: u32
  total_size :: u32
  memory_region_size :: u32
  memory_region_count :: u32
  hdr_flags :: u32

definition boot_header_current :: boot_header where
  "boot_header_current =
     \<lparr>hdr_magic = BOOT_MAGIC, abi_major = ABI_MAJOR, abi_minor = ABI_MINOR,
      header_size = BOOT_HEADER_SIZE_U32, total_size = BOOT_INFO_SIZE_U32,
      memory_region_size = MEMORY_REGION_SIZE_U32, memory_region_count = 0, hdr_flags = 0\<rparr>"

datatype firmware_kind = FirmwareKind (firmware_bits: u32)
datatype architecture = Architecture (architecture_bits: u32)
datatype scenario_kind = ScenarioKind (scenario_bits: u32)
datatype memory_kind = MemoryKind (memory_bits: u32)

definition UEFI :: firmware_kind where "UEFI = FirmwareKind 1"
definition X86_64 :: architecture where "X86_64 = Architecture 1"

record platform_info =
  plat_firmware :: firmware_kind
  plat_architecture :: architecture
  plat_flags :: u64
  rsdp_address :: u64
  rsdp_length :: u32
  boot_cpu_id :: u32

definition x86_64_uefi :: "u32 \<Rightarrow> platform_info" where
  "x86_64_uefi cpu =
     \<lparr>plat_firmware = UEFI, plat_architecture = X86_64, plat_flags = 0, rsdp_address = 0,
      rsdp_length = 0, boot_cpu_id = cpu\<rparr>"

definition with_rsdp :: "platform_info \<Rightarrow> u64 \<Rightarrow> u32 \<Rightarrow> platform_info" where
  "with_rsdp p address len =
     p\<lparr>plat_flags := plat_flags p OR PLATFORM_FLAG_RSDP_PRESENT, rsdp_address := address,
       rsdp_length := len\<rparr>"

definition SCENARIO_NORMAL :: scenario_kind where "SCENARIO_NORMAL = ScenarioKind 0"
definition INCOMPATIBLE_VERSION :: scenario_kind where "INCOMPATIBLE_VERSION = ScenarioKind 1"
definition MALFORMED_METADATA :: scenario_kind where "MALFORMED_METADATA = ScenarioKind 2"
definition DELIBERATE_PANIC :: scenario_kind where "DELIBERATE_PANIC = ScenarioKind 3"

record scenario_info =
  scn_kind :: scenario_kind
  scn_flags :: u32
  scn_argument :: u64

definition scenario_normal :: scenario_info where
  "scenario_normal = \<lparr>scn_kind = SCENARIO_NORMAL, scn_flags = 0, scn_argument = 0\<rparr>"

definition scenario_test :: "scenario_kind \<Rightarrow> u64 \<Rightarrow> scenario_info" where
  "scenario_test kind argument =
     \<lparr>scn_kind = kind, scn_flags = SCENARIO_FLAG_TEST_ONLY, scn_argument = argument\<rparr>"

definition KIND_EMPTY :: memory_kind where "KIND_EMPTY = MemoryKind 0"
definition KIND_RESERVED :: memory_kind where "KIND_RESERVED = MemoryKind 1"
definition KIND_USABLE :: memory_kind where "KIND_USABLE = MemoryKind 2"
definition KIND_RECLAIMABLE :: memory_kind where "KIND_RECLAIMABLE = MemoryKind 3"
definition KIND_KERNEL_IMAGE :: memory_kind where "KIND_KERNEL_IMAGE = MemoryKind 4"
definition KIND_BOOT_CONTRACT :: memory_kind where "KIND_BOOT_CONTRACT = MemoryKind 5"
definition KIND_FIRMWARE_RUNTIME :: memory_kind where "KIND_FIRMWARE_RUNTIME = MemoryKind 6"
definition KIND_ACPI_RECLAIMABLE :: memory_kind where "KIND_ACPI_RECLAIMABLE = MemoryKind 7"
definition KIND_ACPI_NVS :: memory_kind where "KIND_ACPI_NVS = MemoryKind 8"
definition KIND_MMIO :: memory_kind where "KIND_MMIO = MemoryKind 9"

definition is_known :: "memory_kind \<Rightarrow> bool" where
  "is_known k \<longleftrightarrow> 1 \<le> memory_bits k \<and> memory_bits k \<le> 9"

record memory_region =
  rg_start :: u64
  rg_length :: u64
  rg_kind :: memory_kind
  rg_source_kind :: u32
  rg_attributes :: u64

definition REGION_EMPTY :: memory_region where
  "REGION_EMPTY =
     \<lparr>rg_start = 0, rg_length = 0, rg_kind = KIND_EMPTY, rg_source_kind = 0, rg_attributes = 0\<rparr>"

definition memory_region_new :: "u64 \<Rightarrow> u64 \<Rightarrow> memory_kind \<Rightarrow> u32 \<Rightarrow> u64 \<Rightarrow> memory_region" where
  "memory_region_new start len kind source_kind attributes =
     \<lparr>rg_start = start, rg_length = len, rg_kind = kind, rg_source_kind = source_kind,
      rg_attributes = attributes\<rparr>"

record boot_info =
  header :: boot_header
  platform :: platform_info
  scenario :: scenario_info
  memory_regions :: "memory_region list"

definition boot_info_new :: "platform_info \<Rightarrow> scenario_info \<Rightarrow> boot_info" where
  "boot_info_new p s =
     \<lparr>header = boot_header_current, platform = p, scenario = s,
      memory_regions = replicate MAX_MEMORY_REGIONS REGION_EMPTY\<rparr>"

record prevalidated_header =
  pre_abi_major :: u16
  pre_abi_minor :: u16
  pre_total_size :: u32
  pre_memory_region_count :: u32

datatype validation_error =
    Truncated usize usize
  | LengthMismatch usize usize
  | BadMagic
  | UnsupportedVersion u16 u16
  | HeaderSize u32 u32
  | TotalSize u32 u32
  | MemoryRegionSize u32 u32
  | TooManyMemoryRegions u32 u32
  | UnknownHeaderFlags u32
  | RegionIndexOutOfBounds usize
  | UnsupportedFirmware u32
  | UnsupportedArchitecture u32
  | UnknownPlatformFlags u64
  | InconsistentRsdpPresence
  | InvalidRsdpRange u64 u32
  | UnknownScenario u32
  | UnknownScenarioFlags u32
  | ScenarioNotMarkedTestOnly u32
  | NormalScenarioHasTestState
  | ActiveMemoryRegionIsEmpty u32
  | EmptyMemoryRegion u32
  | UnalignedMemoryRegion u32 u64 u64
  | MemoryRegionOverflow u32
  | UnknownMemoryKind u32 u32
  | UnsortedMemoryRegions u32 u32
  | OverlappingMemoryRegions u32 u32
  | NonZeroUnusedMemoryRegion u32

datatype encode_error =
    Invalid validation_error
  | BufferTooSmall usize usize

text \<open>
  Array lengths are part of the Rust types (\<^verbatim>\<open>[u8; 8]\<close>, \<^verbatim>\<open>[MemoryRegion; 128]\<close>); the lists of the
  model carry them as this predicate.
\<close>

definition boot_info_typed :: "boot_info \<Rightarrow> bool" where
  "boot_info_typed info \<longleftrightarrow>
     length (hdr_magic (header info)) = 8 \<and> length (memory_regions info) = MAX_MEMORY_REGIONS"

section \<open>Validation\<close>

definition validate_header :: "boot_header \<Rightarrow> (validation_error, unit) outcome" where
  "validate_header h =
     (if hdr_magic h \<noteq> BOOT_MAGIC then Err BadMagic
      else if (abi_major h, abi_minor h) \<noteq> (ABI_MAJOR, ABI_MINOR)
        then Err (UnsupportedVersion (abi_major h) (abi_minor h))
      else if header_size h \<noteq> BOOT_HEADER_SIZE_U32
        then Err (HeaderSize (header_size h) BOOT_HEADER_SIZE_U32)
      else if total_size h \<noteq> BOOT_INFO_SIZE_U32
        then Err (TotalSize (total_size h) BOOT_INFO_SIZE_U32)
      else if memory_region_size h \<noteq> MEMORY_REGION_SIZE_U32
        then Err (MemoryRegionSize (memory_region_size h) MEMORY_REGION_SIZE_U32)
      else if memory_region_count h > MAX_MEMORY_REGIONS_U32
        then Err (TooManyMemoryRegions (memory_region_count h) MAX_MEMORY_REGIONS_U32)
      else if hdr_flags h AND NOT KNOWN_HEADER_FLAGS \<noteq> 0
        then Err (UnknownHeaderFlags (hdr_flags h))
      else Ok ())"

definition validate_platform :: "platform_info \<Rightarrow> (validation_error, unit) outcome" where
  "validate_platform p =
     (if plat_firmware p \<noteq> UEFI then Err (UnsupportedFirmware (firmware_bits (plat_firmware p)))
      else if plat_architecture p \<noteq> X86_64
        then Err (UnsupportedArchitecture (architecture_bits (plat_architecture p)))
      else if plat_flags p AND NOT KNOWN_PLATFORM_FLAGS \<noteq> 0
        then Err (UnknownPlatformFlags (plat_flags p))
      else
        let rsdp_present = plat_flags p AND PLATFORM_FLAG_RSDP_PRESENT \<noteq> 0 in
        if \<not> rsdp_present then
          (if rsdp_address p \<noteq> 0 \<or> rsdp_length p \<noteq> 0 then Err InconsistentRsdpPresence else Ok ())
        else
          let valid_length = MIN_RSDP_LENGTH \<le> rsdp_length p \<and> rsdp_length p \<le> MAX_RSDP_LENGTH;
              valid_address = rsdp_address p \<noteq> 0 \<and> rsdp_address p mod 16 = 0;
              has_end = checked_add (rsdp_address p) (ucast (rsdp_length p)) \<noteq> None
          in if \<not> valid_length \<or> \<not> valid_address \<or> \<not> has_end
             then Err (InvalidRsdpRange (rsdp_address p) (rsdp_length p))
             else Ok ())"

definition validate_scenario :: "scenario_info \<Rightarrow> (validation_error, unit) outcome" where
  "validate_scenario s =
     (if \<not> scenario_bits (scn_kind s) \<le> 3 then Err (UnknownScenario (scenario_bits (scn_kind s)))
      else if scn_flags s AND NOT KNOWN_SCENARIO_FLAGS \<noteq> 0
        then Err (UnknownScenarioFlags (scn_flags s))
      else if scn_kind s = SCENARIO_NORMAL then
        (if scn_flags s \<noteq> 0 \<or> scn_argument s \<noteq> 0 then Err NormalScenarioHasTestState else Ok ())
      else if scn_flags s AND SCENARIO_FLAG_TEST_ONLY = 0
        then Err (ScenarioNotMarkedTestOnly (scenario_bits (scn_kind s)))
      else Ok ())"

text \<open>The body of the first loop of \<^verbatim>\<open>validate_regions\<close>, with \<^verbatim>\<open>previous\<close> as an argument.\<close>

definition check_region ::
    "u32 \<Rightarrow> (u32 \<times> u64 \<times> u64) option \<Rightarrow> memory_region \<Rightarrow> (validation_error, u64) outcome" where
  "check_region index previous region =
     (if rg_kind region = KIND_EMPTY then Err (ActiveMemoryRegionIsEmpty index)
      else if \<not> is_known (rg_kind region)
        then Err (UnknownMemoryKind index (memory_bits (rg_kind region)))
      else if rg_length region = 0 then Err (EmptyMemoryRegion index)
      else if rg_start region mod CONTRACT_PAGE_SIZE \<noteq> 0 \<or> rg_length region mod CONTRACT_PAGE_SIZE \<noteq> 0
        then Err (UnalignedMemoryRegion index (rg_start region) (rg_length region))
      else
        and_then (ok_or (checked_add (rg_start region) (rg_length region)) (MemoryRegionOverflow index))
          (\<lambda>stop.
        case previous of
          None \<Rightarrow> Ok stop
        | Some (previous_index, previous_start, previous_end) \<Rightarrow>
            if rg_start region < previous_start
              then Err (UnsortedMemoryRegions previous_index index)
            else if rg_start region < previous_end
              then Err (OverlappingMemoryRegions previous_index index)
            else Ok stop))"

fun check_regions ::
    "u32 \<Rightarrow> (u32 \<times> u64 \<times> u64) option \<Rightarrow> memory_region list \<Rightarrow> (validation_error, unit) outcome" where
  "check_regions index previous [] = Ok ()"
| "check_regions index previous (region # rest) =
     and_then (check_region index previous region) (\<lambda>stop.
     check_regions (index + 1) (Some (index, rg_start region, stop)) rest)"

fun check_unused :: "u32 \<Rightarrow> u32 \<Rightarrow> memory_region list \<Rightarrow> (validation_error, unit) outcome" where
  "check_unused count offset [] = Ok ()"
| "check_unused count offset (region # rest) =
     (if region \<noteq> REGION_EMPTY
      then and_then (add_or_panic count offset) (\<lambda>index. Err (NonZeroUnusedMemoryRegion index))
      else check_unused count (offset + 1) rest)"

definition validate_regions :: "boot_info \<Rightarrow> (validation_error, unit) outcome" where
  "validate_regions info =
     (let count = unat (memory_region_count (header info)) in
      and_then (slice_at (memory_regions info) 0 count) (\<lambda>active.
      and_then (check_regions 0 None active) (\<lambda>_.
      and_then (slice_at (memory_regions info) count (length (memory_regions info))) (\<lambda>unused.
      check_unused (memory_region_count (header info)) 0 unused))))"

definition validate_ref :: "boot_info \<Rightarrow> (validation_error, unit) outcome" where
  "validate_ref info =
     and_then (validate_header (header info)) (\<lambda>_.
     and_then (validate_platform (platform info)) (\<lambda>_.
     and_then (validate_scenario (scenario info)) (\<lambda>_.
     and_then (validate_regions info) (\<lambda>_. Ok ()))))"

text \<open>
  \<^verbatim>\<open>BootInfo::validate\<close> wraps its argument in the proof type \<^verbatim>\<open>ValidatedBootInfo\<close>, whose only
  constructor this is; the wrapper has no data of its own.
\<close>

datatype validated_boot_info = ValidatedBootInfo (validated_as_ref: boot_info)

definition boot_info_validate :: "boot_info \<Rightarrow> (validation_error, validated_boot_info) outcome" where
  "boot_info_validate info = and_then (validate_ref info) (\<lambda>_. Ok (ValidatedBootInfo info))"

definition validated_memory_regions :: "validated_boot_info \<Rightarrow> ('e, memory_region list) outcome" where
  "validated_memory_regions v =
     slice_at (memory_regions (validated_as_ref v)) 0
       (unat (memory_region_count (header (validated_as_ref v))))"

definition set_memory_region ::
    "boot_info \<Rightarrow> usize \<Rightarrow> memory_region \<Rightarrow> (validation_error, boot_info) outcome" where
  "set_memory_region info index region =
     (if index \<ge> MAX_MEMORY_REGIONS then Err (RegionIndexOutOfBounds index)
      else
        let info = info\<lparr>memory_regions := (memory_regions info)[index := region]\<rparr>;
            count = index + 1
        in if count > unat (memory_region_count (header info))
           then and_then (ok_or (u32_try_from_usize count) (RegionIndexOutOfBounds index)) (\<lambda>c.
                Ok (info\<lparr>header := (header info)\<lparr>memory_region_count := c\<rparr>\<rparr>))
           else Ok info)"

section \<open>Decoding\<close>

definition read_boot_header :: "reader \<Rightarrow> ('e, boot_header \<times> reader) outcome" where
  "read_boot_header r =
     and_then (reader_array_8 r) (\<lambda>(magic, r).
     and_then (reader_u16 r) (\<lambda>(major, r).
     and_then (reader_u16 r) (\<lambda>(minor, r).
     and_then (reader_u32 r) (\<lambda>(hsize, r).
     and_then (reader_u32 r) (\<lambda>(tsize, r).
     and_then (reader_u32 r) (\<lambda>(rsize, r).
     and_then (reader_u32 r) (\<lambda>(count, r).
     and_then (reader_u32 r) (\<lambda>(flags, r).
     Ok (\<lparr>hdr_magic = magic, abi_major = major, abi_minor = minor, header_size = hsize,
          total_size = tsize, memory_region_size = rsize, memory_region_count = count,
          hdr_flags = flags\<rparr>, r)))))))))"

definition read_platform_info :: "reader \<Rightarrow> ('e, platform_info \<times> reader) outcome" where
  "read_platform_info r =
     and_then (reader_u32 r) (\<lambda>(fw, r).
     and_then (reader_u32 r) (\<lambda>(arch, r).
     and_then (reader_u64 r) (\<lambda>(flags, r).
     and_then (reader_u64 r) (\<lambda>(address, r).
     and_then (reader_u32 r) (\<lambda>(len, r).
     and_then (reader_u32 r) (\<lambda>(cpu, r).
     Ok (\<lparr>plat_firmware = FirmwareKind fw, plat_architecture = Architecture arch,
          plat_flags = flags, rsdp_address = address, rsdp_length = len, boot_cpu_id = cpu\<rparr>, r)))))))"

definition read_scenario_info :: "reader \<Rightarrow> ('e, scenario_info \<times> reader) outcome" where
  "read_scenario_info r =
     and_then (reader_u32 r) (\<lambda>(kind, r).
     and_then (reader_u32 r) (\<lambda>(flags, r).
     and_then (reader_u64 r) (\<lambda>(argument, r).
     Ok (\<lparr>scn_kind = ScenarioKind kind, scn_flags = flags, scn_argument = argument\<rparr>, r))))"

definition read_memory_region :: "reader \<Rightarrow> ('e, memory_region \<times> reader) outcome" where
  "read_memory_region r =
     and_then (reader_u64 r) (\<lambda>(start, r).
     and_then (reader_u64 r) (\<lambda>(len, r).
     and_then (reader_u32 r) (\<lambda>(kind, r).
     and_then (reader_u32 r) (\<lambda>(source_kind, r).
     and_then (reader_u64 r) (\<lambda>(attributes, r).
     Ok (\<lparr>rg_start = start, rg_length = len, rg_kind = MemoryKind kind,
          rg_source_kind = source_kind, rg_attributes = attributes\<rparr>, r))))))"

definition prevalidate :: "u8 list \<Rightarrow> (validation_error, prevalidated_header) outcome" where
  "prevalidate bytes =
     (if length bytes < BOOT_HEADER_SIZE then Err (Truncated (length bytes) BOOT_HEADER_SIZE)
      else
        and_then (read_boot_header (reader_new bytes)) (\<lambda>(h, _).
        if hdr_magic h \<noteq> BOOT_MAGIC then Err BadMagic
        else if (abi_major h, abi_minor h) \<noteq> (ABI_MAJOR, ABI_MINOR)
          then Err (UnsupportedVersion (abi_major h) (abi_minor h))
        else if header_size h \<noteq> BOOT_HEADER_SIZE_U32
          then Err (HeaderSize (header_size h) BOOT_HEADER_SIZE_U32)
        else if total_size h \<noteq> BOOT_INFO_SIZE_U32
          then Err (TotalSize (total_size h) BOOT_INFO_SIZE_U32)
        else if memory_region_size h \<noteq> MEMORY_REGION_SIZE_U32
          then Err (MemoryRegionSize (memory_region_size h) MEMORY_REGION_SIZE_U32)
        else if memory_region_count h > MAX_MEMORY_REGIONS_U32
          then Err (TooManyMemoryRegions (memory_region_count h) MAX_MEMORY_REGIONS_U32)
        else if hdr_flags h AND NOT KNOWN_HEADER_FLAGS \<noteq> 0
          then Err (UnknownHeaderFlags (hdr_flags h))
        else
          let declared = unat (total_size h) in
          if length bytes < declared then Err (Truncated (length bytes) declared)
          else if length bytes \<noteq> declared then Err (LengthMismatch (length bytes) declared)
          else Ok \<lparr>pre_abi_major = abi_major h, pre_abi_minor = abi_minor h,
                   pre_total_size = total_size h,
                   pre_memory_region_count = memory_region_count h\<rparr>))"

definition contract_parse :: "u8 list \<Rightarrow> (validation_error, validated_boot_info) outcome" where
  "contract_parse bytes =
     and_then (prevalidate bytes) (\<lambda>_.
     and_then (read_boot_header (reader_new bytes)) (\<lambda>(h, r).
     and_then (read_platform_info r) (\<lambda>(p, r).
     and_then (read_scenario_info r) (\<lambda>(s, r).
     and_then (read_array MAX_MEMORY_REGIONS read_memory_region r) (\<lambda>(rs, r).
     if rd_position r \<noteq> BOOT_INFO_SIZE then Panic
     else boot_info_validate \<lparr>header = h, platform = p, scenario = s, memory_regions = rs\<rparr>)))))"

section \<open>Encoding\<close>

definition write_memory_region :: "writer \<Rightarrow> memory_region \<Rightarrow> ('e, writer) outcome" where
  "write_memory_region w region =
     and_then (writer_u64 w (rg_start region)) (\<lambda>w.
     and_then (writer_u64 w (rg_length region)) (\<lambda>w.
     and_then (writer_u32 w (memory_bits (rg_kind region))) (\<lambda>w.
     and_then (writer_u32 w (rg_source_kind region)) (\<lambda>w.
     writer_u64 w (rg_attributes region)))))"

fun write_memory_regions :: "writer \<Rightarrow> memory_region list \<Rightarrow> ('e, writer) outcome" where
  "write_memory_regions w [] = Ok w"
| "write_memory_regions w (region # rest) =
     and_then (write_memory_region w region) (\<lambda>w. write_memory_regions w rest)"

definition contract_encode :: "boot_info \<Rightarrow> u8 list \<Rightarrow> (encode_error, usize \<times> u8 list) outcome" where
  "contract_encode info output =
     and_then (map_err Invalid (validate_ref info)) (\<lambda>_.
     if length output < BOOT_INFO_SIZE then Err (BufferTooSmall (length output) BOOT_INFO_SIZE)
     else
       let w = writer_new (take BOOT_INFO_SIZE output) in
       and_then (writer_bytes w (hdr_magic (header info))) (\<lambda>w.
       and_then (writer_u16 w (abi_major (header info))) (\<lambda>w.
       and_then (writer_u16 w (abi_minor (header info))) (\<lambda>w.
       and_then (writer_u32 w (header_size (header info))) (\<lambda>w.
       and_then (writer_u32 w (total_size (header info))) (\<lambda>w.
       and_then (writer_u32 w (memory_region_size (header info))) (\<lambda>w.
       and_then (writer_u32 w (memory_region_count (header info))) (\<lambda>w.
       and_then (writer_u32 w (hdr_flags (header info))) (\<lambda>w.
       and_then (writer_u32 w (firmware_bits (plat_firmware (platform info)))) (\<lambda>w.
       and_then (writer_u32 w (architecture_bits (plat_architecture (platform info)))) (\<lambda>w.
       and_then (writer_u64 w (plat_flags (platform info))) (\<lambda>w.
       and_then (writer_u64 w (rsdp_address (platform info))) (\<lambda>w.
       and_then (writer_u32 w (rsdp_length (platform info))) (\<lambda>w.
       and_then (writer_u32 w (boot_cpu_id (platform info))) (\<lambda>w.
       and_then (writer_u32 w (scenario_bits (scn_kind (scenario info)))) (\<lambda>w.
       and_then (writer_u32 w (scn_flags (scenario info))) (\<lambda>w.
       and_then (writer_u64 w (scn_argument (scenario info))) (\<lambda>w.
       and_then (write_memory_regions w (memory_regions info)) (\<lambda>w.
       if wr_position w \<noteq> BOOT_INFO_SIZE then Panic
       else Ok (BOOT_INFO_SIZE, wr_bytes w @ drop BOOT_INFO_SIZE output))))))))))))))))))))"

section \<open>The wire format\<close>

definition wire_memory_region :: "memory_region \<Rightarrow> u8 list" where
  "wire_memory_region r =
     to_le_bytes (rg_start r) @ to_le_bytes (rg_length r) @ to_le_bytes (memory_bits (rg_kind r)) @
     to_le_bytes (rg_source_kind r) @ to_le_bytes (rg_attributes r)"

definition wire_boot_header :: "boot_header \<Rightarrow> u8 list" where
  "wire_boot_header h =
     hdr_magic h @ to_le_bytes (abi_major h) @ to_le_bytes (abi_minor h) @
     to_le_bytes (header_size h) @ to_le_bytes (total_size h) @ to_le_bytes (memory_region_size h) @
     to_le_bytes (memory_region_count h) @ to_le_bytes (hdr_flags h)"

definition wire_platform_info :: "platform_info \<Rightarrow> u8 list" where
  "wire_platform_info p =
     to_le_bytes (firmware_bits (plat_firmware p)) @
     to_le_bytes (architecture_bits (plat_architecture p)) @ to_le_bytes (plat_flags p) @
     to_le_bytes (rsdp_address p) @ to_le_bytes (rsdp_length p) @ to_le_bytes (boot_cpu_id p)"

definition wire_scenario_info :: "scenario_info \<Rightarrow> u8 list" where
  "wire_scenario_info s =
     to_le_bytes (scenario_bits (scn_kind s)) @ to_le_bytes (scn_flags s) @
     to_le_bytes (scn_argument s)"

definition wire_boot_info :: "boot_info \<Rightarrow> u8 list" where
  "wire_boot_info info =
     wire_boot_header (header info) @ wire_platform_info (platform info) @
     wire_scenario_info (scenario info) @ concat (map wire_memory_region (memory_regions info))"

lemmas wire_defs =
  wire_memory_region_def wire_boot_header_def wire_platform_info_def wire_scenario_info_def

interpretation codec_region: field_codec 32 wire_memory_region "\<lambda>_. True" read_memory_region
proof unfold_locales
  show "length (wire_memory_region v) = 32" for v
    by (simp add: wire_memory_region_def)
  show "v = w" if "wire_memory_region v = wire_memory_region w" for v w
    using that by (simp add: wire_memory_region_def memory_kind.expand)
  show "read_memory_region r = Panic" if "length (remaining r) < 32" for r
    using that by (simp add: read_memory_region_def reader_eqs and_then_if)
  show "\<exists>v. read_memory_region r = Ok (v, advance 32 r) \<and> True \<and>
      wire_memory_region v = take 32 (remaining r)" if "32 \<le> length (remaining r)" for r
    using that
    by (simp add: read_memory_region_def reader_eqs wire_memory_region_def
        to_le_bytes_from_le_bytes take_join) arith
qed

interpretation codec_header:
  field_codec 32 wire_boot_header "\<lambda>h. length (hdr_magic h) = 8" read_boot_header
proof unfold_locales
  show "length (wire_boot_header v) = 32" if "length (hdr_magic v) = 8" for v
    using that by (simp add: wire_boot_header_def)
  show "v = w" if "length (hdr_magic v) = 8" "length (hdr_magic w) = 8"
    "wire_boot_header v = wire_boot_header w" for v w
    using that by (simp add: wire_boot_header_def)
  show "read_boot_header r = Panic" if "length (remaining r) < 32" for r
    using that by (simp add: read_boot_header_def reader_eqs and_then_if)
  show "\<exists>v. read_boot_header r = Ok (v, advance 32 r) \<and> length (hdr_magic v) = 8 \<and>
      wire_boot_header v = take 32 (remaining r)" if "32 \<le> length (remaining r)" for r
    using that
    by (simp add: read_boot_header_def reader_eqs wire_boot_header_def
        to_le_bytes_from_le_bytes take_join) arith
qed

interpretation codec_platform: field_codec 32 wire_platform_info "\<lambda>_. True" read_platform_info
proof unfold_locales
  show "length (wire_platform_info v) = 32" for v
    by (simp add: wire_platform_info_def)
  show "v = w" if "wire_platform_info v = wire_platform_info w" for v w
    using that by (simp add: wire_platform_info_def firmware_kind.expand architecture.expand)
  show "read_platform_info r = Panic" if "length (remaining r) < 32" for r
    using that by (simp add: read_platform_info_def reader_eqs and_then_if)
  show "\<exists>v. read_platform_info r = Ok (v, advance 32 r) \<and> True \<and>
      wire_platform_info v = take 32 (remaining r)" if "32 \<le> length (remaining r)" for r
    using that
    by (simp add: read_platform_info_def reader_eqs wire_platform_info_def
        to_le_bytes_from_le_bytes take_join) arith
qed

interpretation codec_scenario: field_codec 16 wire_scenario_info "\<lambda>_. True" read_scenario_info
proof unfold_locales
  show "length (wire_scenario_info v) = 16" for v
    by (simp add: wire_scenario_info_def)
  show "v = w" if "wire_scenario_info v = wire_scenario_info w" for v w
    using that by (simp add: wire_scenario_info_def scenario_kind.expand)
  show "read_scenario_info r = Panic" if "length (remaining r) < 16" for r
    using that by (simp add: read_scenario_info_def reader_eqs and_then_if)
  show "\<exists>v. read_scenario_info r = Ok (v, advance 16 r) \<and> True \<and>
      wire_scenario_info v = take 16 (remaining r)" if "16 \<le> length (remaining r)" for r
    using that
    by (simp add: read_scenario_info_def reader_eqs wire_scenario_info_def
        to_le_bytes_from_le_bytes take_join) arith
qed

interpretation codec_regions:
  array_codec 32 wire_memory_region "\<lambda>_. True" read_memory_region MAX_MEMORY_REGIONS ..

section \<open>What the validator accepts\<close>

definition header_ok :: "boot_header \<Rightarrow> bool" where
  "header_ok h \<longleftrightarrow>
     hdr_magic h = BOOT_MAGIC \<and> abi_major h = 1 \<and> abi_minor h = 0 \<and> header_size h = 32 \<and>
     total_size h = 4176 \<and> memory_region_size h = 32 \<and> unat (memory_region_count h) \<le> 128 \<and>
     hdr_flags h = 0"

definition platform_ok :: "platform_info \<Rightarrow> bool" where
  "platform_ok p \<longleftrightarrow>
     plat_firmware p = UEFI \<and> plat_architecture p = X86_64 \<and>
     (plat_flags p = 0 \<and> rsdp_address p = 0 \<and> rsdp_length p = 0 \<or>
      plat_flags p = 1 \<and> 20 \<le> unat (rsdp_length p) \<and> unat (rsdp_length p) \<le> 4096 \<and>
      rsdp_address p \<noteq> 0 \<and> 16 dvd unat (rsdp_address p) \<and>
      unat (rsdp_address p) + unat (rsdp_length p) < 2 ^ 64)"

definition scenario_ok :: "scenario_info \<Rightarrow> bool" where
  "scenario_ok s \<longleftrightarrow>
     s = scenario_normal \<or>
     scn_kind s \<in> {INCOMPATIBLE_VERSION, MALFORMED_METADATA, DELIBERATE_PANIC} \<and> scn_flags s = 1"

definition region_end :: "memory_region \<Rightarrow> nat" where
  "region_end r = unat (rg_start r) + unat (rg_length r)"

definition region_ok :: "memory_region \<Rightarrow> bool" where
  "region_ok r \<longleftrightarrow>
     is_known (rg_kind r) \<and> 0 < unat (rg_length r) \<and> 4096 dvd unat (rg_start r) \<and>
     4096 dvd unat (rg_length r) \<and> region_end r < 2 ^ 64"

definition region_before :: "memory_region \<Rightarrow> memory_region \<Rightarrow> bool" where
  "region_before a b \<longleftrightarrow> region_end a \<le> unat (rg_start b)"

definition active_regions :: "boot_info \<Rightarrow> memory_region list" where
  "active_regions info = take (unat (memory_region_count (header info))) (memory_regions info)"

definition regions_ok :: "boot_info \<Rightarrow> bool" where
  "regions_ok info \<longleftrightarrow>
     list_all region_ok (active_regions info) \<and> sorted_wrt region_before (active_regions info) \<and>
     list_all (\<lambda>r. r = REGION_EMPTY)
       (drop (unat (memory_region_count (header info))) (memory_regions info))"

definition valid_contract :: "boot_info \<Rightarrow> bool" where
  "valid_contract info \<longleftrightarrow>
     boot_info_typed info \<and> header_ok (header info) \<and> platform_ok (platform info) \<and>
     scenario_ok (scenario info) \<and> regions_ok info"

lemma validate_header_Ok_iff: "validate_header h = Ok u \<longleftrightarrow> header_ok h"
  by (auto simp: validate_header_def header_ok_def abi_consts word_less_nat_alt)

lemma validate_header_not_Panic: "validate_header h \<noteq> Panic"
  by (simp add: validate_header_def)

lemma validate_platform_Ok_iff: "validate_platform p = Ok u \<longleftrightarrow> platform_ok p"
  by (auto simp: validate_platform_def platform_ok_def abi_consts and_not_1_eq_0_iff Let_def
      word_le_nat_alt word_mod_eq_0_iff checked_add_Some_iff unat_ucast_up)

lemma validate_platform_not_Panic: "validate_platform p \<noteq> Panic"
  by (simp add: validate_platform_def Let_def)

lemma scenario_bits_le_3_iff:
  "scenario_bits k \<le> 3 \<longleftrightarrow>
    k \<in> {SCENARIO_NORMAL, INCOMPATIBLE_VERSION, MALFORMED_METADATA, DELIBERATE_PANIC}"
proof (cases k)
  case (ScenarioKind w)
  have "w \<le> 3 \<longleftrightarrow> unat w \<in> {0, 1, 2, 3}"
    by (auto simp: word_le_nat_alt)
  also have "\<dots> \<longleftrightarrow> w \<in> {0, 1, 2, 3}"
    using word_eq_unat_iff [of 0 w] word_eq_unat_iff [of 1 w] word_eq_unat_iff [of 2 w]
      word_eq_unat_iff [of 3 w] by simp
  finally show ?thesis
    by (simp add: ScenarioKind SCENARIO_NORMAL_def INCOMPATIBLE_VERSION_def
        MALFORMED_METADATA_def DELIBERATE_PANIC_def)
qed

lemmas scenario_kind_defs =
  SCENARIO_NORMAL_def INCOMPATIBLE_VERSION_def MALFORMED_METADATA_def DELIBERATE_PANIC_def

lemma validate_scenario_Ok_iff: "validate_scenario s = Ok u \<longleftrightarrow> scenario_ok s"
proof (cases s)
  case (fields k f a)
  have f: "f AND - 2 = 0 \<longleftrightarrow> f = 0 \<or> f = 1" by (rule and_not_1_eq_0_iff)
  show ?thesis
    unfolding validate_scenario_def scenario_ok_def fields scenario_bits_le_3_iff
    by (cases "f = 0"; cases "f = 1"; cases "k = SCENARIO_NORMAL")
      (auto simp: f abi_consts scenario_normal_def scenario_kind_defs)
qed

lemma validate_scenario_not_Panic: "validate_scenario s \<noteq> Panic"
  by (simp add: validate_scenario_def)

lemma check_region_Ok_iff:
  assumes "\<And>i a b. previous = Some (i, a, b) \<Longrightarrow> a \<le> b"
  shows "check_region index previous r = Ok stop \<longleftrightarrow>
    region_ok r \<and> unat stop = region_end r \<and>
    (\<forall>i a b. previous = Some (i, a, b) \<longrightarrow> unat b \<le> unat (rg_start r))"
proof -
  have empty: "rg_kind r = KIND_EMPTY \<Longrightarrow> \<not> is_known (rg_kind r)"
    by (simp add: KIND_EMPTY_def is_known_def)
  have len: "rg_length r = 0 \<longleftrightarrow> \<not> 0 < unat (rg_length r)"
    by (simp add: unat_eq_zero)
  have stop: "checked_add (rg_start r) (rg_length r) = Some stop \<longleftrightarrow>
      region_end r < 2 ^ 64 \<and> unat stop = region_end r"
    by (auto simp: checked_add_Some_iff region_end_def unat_add_no_overflow word_unat_eq_iff)
  show ?thesis
  proof (cases previous)
    case None
    then show ?thesis
      using empty len stop
      by (auto simp: check_region_def region_ok_def outcome_simps abi_consts word_mod_eq_0_iff)
  next
    case (Some p)
    obtain i a b where p: "p = (i, a, b)" by (cases p)
    have "a \<le> b" using assms Some p by blast
    then show ?thesis
      using empty len stop Some p
      by (auto simp: check_region_def region_ok_def outcome_simps abi_consts word_mod_eq_0_iff
          word_le_nat_alt word_less_nat_alt)
  qed
qed

lemma check_region_not_Panic: "check_region index previous r \<noteq> Panic"
  by (auto simp: check_region_def outcome_simps split: option.splits)

lemma check_regions_not_Panic: "check_regions index previous rs \<noteq> Panic"
  by (induction index previous rs rule: check_regions.induct)
    (auto simp: outcome_simps check_region_not_Panic)

lemma check_regions_Ok_iff:
  assumes "\<And>i a b. previous = Some (i, a, b) \<Longrightarrow> a \<le> b"
  shows "check_regions index previous rs = Ok u \<longleftrightarrow>
    list_all region_ok rs \<and> sorted_wrt region_before rs \<and>
    (\<forall>i a b. previous = Some (i, a, b) \<longrightarrow> (\<forall>r \<in> set rs. unat b \<le> unat (rg_start r)))"
  using assms
proof (induction rs arbitrary: index previous)
  case Nil
  then show ?case by simp
next
  case (Cons r rs)
  define stop :: u64 where "stop = of_nat (region_end r)"
  have stop: "unat stop = region_end r" if "region_ok r"
    using that by (simp add: stop_def unat_of_nat region_ok_def)
  have uniq: "check_region index previous r = Ok s \<Longrightarrow> s = stop" for s
    using check_region_Ok_iff [where previous = previous and index = index and r = r and stop = s]
      Cons.prems by (metis stop_def of_nat_unat ucast_id)
  have IH: "check_regions (index + 1) (Some (index, rg_start r, stop)) rs = Ok u \<longleftrightarrow>
      list_all region_ok rs \<and> sorted_wrt region_before rs \<and>
      (\<forall>q \<in> set rs. region_end r \<le> unat (rg_start q))" if "region_ok r"
    using Cons.IH [of "Some (index, rg_start r, stop)" "index + 1"] stop [OF that]
    by (simp add: word_le_nat_alt region_end_def)
  have "check_regions index previous (r # rs) = Ok u \<longleftrightarrow>
      check_region index previous r = Ok stop \<and>
      check_regions (index + 1) (Some (index, rg_start r, stop)) rs = Ok u"
    using uniq by (auto simp: outcome_simps)
  also have "\<dots> \<longleftrightarrow> region_ok r \<and>
      (\<forall>i a b. previous = Some (i, a, b) \<longrightarrow> unat b \<le> unat (rg_start r)) \<and>
      list_all region_ok rs \<and> sorted_wrt region_before rs \<and>
      (\<forall>q \<in> set rs. region_end r \<le> unat (rg_start q))"
    using check_region_Ok_iff [where previous = previous and index = index and r = r and stop = stop]
      Cons.prems stop IH by auto
  also have "\<dots> \<longleftrightarrow> list_all region_ok (r # rs) \<and> sorted_wrt region_before (r # rs) \<and>
      (\<forall>i a b. previous = Some (i, a, b) \<longrightarrow> (\<forall>q \<in> set (r # rs). unat b \<le> unat (rg_start q)))"
    by (fastforce simp: region_before_def region_end_def)
  finally show ?case .
qed

lemma check_unused_not_Err_iff:
  "check_unused count offset rs = Ok u \<longleftrightarrow> list_all (\<lambda>r. r = REGION_EMPTY) rs"
  by (induction count offset rs rule: check_unused.induct) (auto simp: outcome_simps)

lemma check_unused_not_Panic:
  "unat count + unat offset + length rs < 2 ^ 32 \<Longrightarrow> check_unused count offset rs \<noteq> Panic"
proof (induction count offset rs rule: check_unused.induct)
  case (1 count offset)
  then show ?case by simp
next
  case (2 count offset region rest)
  have "unat (offset + 1) = unat offset + 1"
    using "2.prems" by (subst unat_add_no_overflow) auto
  with 2 show ?case
    by (auto simp: outcome_simps add_or_panic_def checked_add_None_iff)
qed

lemma validate_regions_Ok_iff:
  assumes "boot_info_typed info" and "header_ok (header info)"
  shows "validate_regions info = Ok u \<longleftrightarrow> regions_ok info"
  using assms check_regions_Ok_iff [of None 0 "active_regions info" "()"]
  by (auto simp: validate_regions_def regions_ok_def active_regions_def boot_info_typed_def
      header_ok_def abi_consts slice_at_simp outcome_simps check_unused_not_Err_iff Let_def)

lemma validate_regions_not_Panic:
  assumes "boot_info_typed info" and "header_ok (header info)"
  shows "validate_regions info \<noteq> Panic"
  using assms
  by (auto simp: validate_regions_def boot_info_typed_def header_ok_def abi_consts slice_at_simp
      outcome_simps check_regions_not_Panic check_unused_not_Panic Let_def)

lemma validate_ref_Ok_iff:
  assumes "boot_info_typed info"
  shows "validate_ref info = Ok u \<longleftrightarrow> valid_contract info"
  using assms validate_regions_Ok_iff [OF assms]
  by (auto simp: validate_ref_def valid_contract_def outcome_simps validate_header_Ok_iff
      validate_platform_Ok_iff validate_scenario_Ok_iff)

lemma validate_ref_not_Panic:
  assumes "boot_info_typed info"
  shows "validate_ref info \<noteq> Panic"
  using assms validate_regions_not_Panic [OF assms]
  by (auto simp: validate_ref_def outcome_simps validate_header_Ok_iff
      validate_header_not_Panic validate_platform_not_Panic validate_scenario_not_Panic)

section \<open>Decoding and encoding against the wire format\<close>

lemma wire_boot_info_length: "boot_info_typed info \<Longrightarrow> length (wire_boot_info info) = BOOT_INFO_SIZE"
  using codec_regions.concat_enc_width [of "memory_regions info"]
  by (simp add: wire_boot_info_def boot_info_typed_def codec_header.enc_width
      codec_platform.enc_width codec_scenario.enc_width abi_consts list_all_iff)

lemma wire_boot_info_inject:
  assumes "boot_info_typed a" and "boot_info_typed b" and "wire_boot_info a = wire_boot_info b"
  shows "a = b"
proof -
  have "wire_boot_header (header a) = wire_boot_header (header b) \<and>
      wire_platform_info (platform a) = wire_platform_info (platform b) \<and>
      wire_scenario_info (scenario a) = wire_scenario_info (scenario b) \<and>
      concat (map wire_memory_region (memory_regions a)) =
        concat (map wire_memory_region (memory_regions b))"
    using assms
    by (simp add: wire_boot_info_def boot_info_typed_def codec_header.enc_width
        codec_platform.enc_width codec_scenario.enc_width append_eq_append_conv)
  then show ?thesis
    using assms codec_header.enc_inject [of "header a" "header b"]
      codec_platform.enc_inject [of "platform a" "platform b"]
      codec_scenario.enc_inject [of "scenario a" "scenario b"]
      codec_regions.concat_enc_inject [of "memory_regions a" "memory_regions b"]
    by (simp add: boot_info_typed_def list_all_iff)
qed

lemma prevalidate_eq:
  assumes "32 \<le> length bytes" and "wire_boot_header h = take 32 bytes" and "length (hdr_magic h) = 8"
  shows "prevalidate bytes =
    and_then (validate_header h) (\<lambda>_.
    if length bytes < 4176 then Err (Truncated (length bytes) 4176)
    else if length bytes \<noteq> 4176 then Err (LengthMismatch (length bytes) 4176)
    else Ok \<lparr>pre_abi_major = abi_major h, pre_abi_minor = abi_minor h,
             pre_total_size = total_size h, pre_memory_region_count = memory_region_count h\<rparr>)"
proof -
  have "(read_boot_header (reader_new bytes) :: (validation_error, _) outcome) =
      Ok (h, advance 32 (reader_new bytes))"
    using assms by (simp add: codec_header.read_Ok_iff)
  then show ?thesis
    using assms(1) by (simp add: prevalidate_def validate_header_def BOOT_HEADER_SIZE_def
        BOOT_INFO_SIZE_U32_def Let_def)
qed

lemma header_decode_exists:
  assumes "32 \<le> length bytes"
  obtains h where "wire_boot_header h = take 32 bytes" and "length (hdr_magic h) = 8"
  using codec_header.read_total [of "reader_new bytes"] assms by auto

lemma prevalidate_Ok_iff:
  "(\<exists>p. prevalidate bytes = Ok p) \<longleftrightarrow>
    length bytes = BOOT_INFO_SIZE \<and>
    (\<exists>h. length (hdr_magic h) = 8 \<and> wire_boot_header h = take 32 bytes \<and> header_ok h)"
proof (cases "32 \<le> length bytes")
  case True
  then obtain h where h: "wire_boot_header h = take 32 bytes" "length (hdr_magic h) = 8"
    by (rule header_decode_exists)
  have uniq: "g = h" if "length (hdr_magic g) = 8" "wire_boot_header g = take 32 bytes" for g
    using that h by (auto intro: codec_header.enc_inject)
  have "(\<exists>p. prevalidate bytes = Ok p) \<longleftrightarrow> header_ok h \<and> length bytes = BOOT_INFO_SIZE"
    by (simp add: prevalidate_eq [OF True h] outcome_simps validate_header_Ok_iff BOOT_INFO_SIZE_def)
  with h uniq show ?thesis by blast
next
  case False
  then show ?thesis by (simp add: prevalidate_def BOOT_HEADER_SIZE_def BOOT_INFO_SIZE_def)
qed

lemma prevalidate_not_Panic: "prevalidate bytes \<noteq> Panic"
proof (cases "32 \<le> length bytes")
  case True
  then obtain h where h: "wire_boot_header h = take 32 bytes" "length (hdr_magic h) = 8"
    by (rule header_decode_exists)
  show ?thesis
    by (simp add: prevalidate_eq [OF True h] outcome_simps validate_header_not_Panic)
qed (simp add: prevalidate_def BOOT_HEADER_SIZE_def)

lemma contract_parse_decodes:
  assumes "length bytes = BOOT_INFO_SIZE"
  obtains info where "boot_info_typed info" and "wire_boot_info info = bytes"
    and "contract_parse bytes = and_then (prevalidate bytes) (\<lambda>_. boot_info_validate info)"
proof -
  let ?r = "reader_new bytes"
  have len: "length bytes = 4176" using assms by (simp add: BOOT_INFO_SIZE_def)
  obtain h where h: "read_boot_header ?r = (Ok (h, advance 32 ?r) :: (validation_error, _) outcome)"
    "length (hdr_magic h) = 8" "wire_boot_header h = take 32 bytes"
    using codec_header.read_total [of ?r] len by auto
  obtain p where p: "read_platform_info (advance 32 ?r) =
      (Ok (p, advance 64 ?r) :: (validation_error, _) outcome)"
    "wire_platform_info p = take 32 (drop 32 bytes)"
    using codec_platform.read_total [of "advance 32 ?r"] len by auto
  obtain s where s: "read_scenario_info (advance 64 ?r) =
      (Ok (s, advance 80 ?r) :: (validation_error, _) outcome)"
    "wire_scenario_info s = take 16 (drop 64 bytes)"
    using codec_scenario.read_total [of "advance 64 ?r"] len by auto
  obtain rs where rs: "read_array MAX_MEMORY_REGIONS read_memory_region (advance 80 ?r) =
      (Ok (rs, advance 4176 ?r) :: (validation_error, _) outcome)"
    "length rs = MAX_MEMORY_REGIONS"
    "concat (map wire_memory_region rs) = take 4096 (drop 80 bytes)"
    using codec_regions.arr.read_total [of "advance 80 ?r"] len by (auto simp: abi_consts)
  let ?info = "\<lparr>header = h, platform = p, scenario = s, memory_regions = rs\<rparr>"
  show thesis
  proof (rule that [of ?info])
    show "boot_info_typed ?info" using h rs by (simp add: boot_info_typed_def)
    show "wire_boot_info ?info = bytes"
      using h p s rs len by (simp add: wire_boot_info_def take_join)
    show "contract_parse bytes = and_then (prevalidate bytes) (\<lambda>_. boot_info_validate ?info)"
      by (simp add: contract_parse_def h p s rs BOOT_INFO_SIZE_def) (simp add: reader_new_def)
  qed
qed

lemma boot_info_validate_Ok_iff:
  "boot_info_typed info \<Longrightarrow>
    boot_info_validate info = Ok v \<longleftrightarrow> valid_contract info \<and> v = ValidatedBootInfo info"
  by (auto simp: boot_info_validate_def outcome_simps validate_ref_Ok_iff)

lemma boot_info_validate_not_Panic: "boot_info_typed info \<Longrightarrow> boot_info_validate info \<noteq> Panic"
  by (simp add: boot_info_validate_def outcome_simps validate_ref_not_Panic)

lemma prevalidate_wire:
  assumes "valid_contract info"
  shows "\<exists>p. prevalidate (wire_boot_info info) = Ok p"
proof -
  from assms have t: "boot_info_typed info" and h: "header_ok (header info)"
    by (simp_all add: valid_contract_def)
  have "take 32 (wire_boot_info info) = wire_boot_header (header info)"
    using t by (simp add: wire_boot_info_def boot_info_typed_def codec_header.enc_width)
  then show ?thesis
    unfolding prevalidate_Ok_iff
    using t h wire_boot_info_length [OF t] by (auto simp: boot_info_typed_def)
qed

lemma contract_parse_Ok_iff:
  "contract_parse bytes = Ok v \<longleftrightarrow>
    valid_contract (validated_as_ref v) \<and> bytes = wire_boot_info (validated_as_ref v)"
proof (cases "length bytes = BOOT_INFO_SIZE")
  case True
  then obtain info where info: "boot_info_typed info" "wire_boot_info info = bytes"
    "contract_parse bytes = and_then (prevalidate bytes) (\<lambda>_. boot_info_validate info)"
    by (rule contract_parse_decodes)
  have uniq: "i = info" if "valid_contract i" "bytes = wire_boot_info i" for i
  proof (rule wire_boot_info_inject [OF _ info(1)])
    show "boot_info_typed i" using that(1) by (simp add: valid_contract_def)
    show "wire_boot_info i = wire_boot_info info"
      by (rule trans [OF that(2) [symmetric] info(2) [symmetric]])
  qed
  have "contract_parse bytes = Ok v \<longleftrightarrow>
      (\<exists>p. prevalidate bytes = Ok p) \<and> valid_contract info \<and> v = ValidatedBootInfo info"
    by (simp add: info(3) outcome_simps boot_info_validate_Ok_iff [OF info(1)])
  also have "\<dots> \<longleftrightarrow> valid_contract info \<and> v = ValidatedBootInfo info"
    using prevalidate_wire [of info] unfolding info(2) by blast
  also have "\<dots> \<longleftrightarrow> valid_contract (validated_as_ref v) \<and> bytes = wire_boot_info (validated_as_ref v)"
    using uniq info(2) by (metis validated_boot_info.exhaust_sel validated_boot_info.sel)
  finally show ?thesis .
next
  case False
  have "\<not> (\<exists>p. prevalidate bytes = Ok p)"
    using False by (simp add: prevalidate_Ok_iff)
  then have "contract_parse bytes \<noteq> Ok v"
    by (simp add: contract_parse_def and_then_Ok_iff)
  then show ?thesis
    using False wire_boot_info_length by (auto simp: valid_contract_def)
qed

lemma contract_parse_not_Panic: "contract_parse bytes \<noteq> Panic"
proof (cases "length bytes = BOOT_INFO_SIZE")
  case True
  then obtain info where "boot_info_typed info"
    "contract_parse bytes = and_then (prevalidate bytes) (\<lambda>_. boot_info_validate info)"
    by (rule contract_parse_decodes)
  then show ?thesis
    by (simp add: outcome_simps prevalidate_not_Panic boot_info_validate_not_Panic)
next
  case False
  then have "\<not> (\<exists>p. prevalidate bytes = Ok p)" by (simp add: prevalidate_Ok_iff)
  then obtain e where "prevalidate bytes = Err e"
    using prevalidate_not_Panic [of bytes] by (cases "prevalidate bytes") auto
  then show ?thesis by (simp add: contract_parse_def)
qed

lemma write_memory_region_eq: "write_memory_region w r = writer_bytes w (wire_memory_region r)"
  by (simp add: write_memory_region_def writer_word_defs writer_bytes_append' writer_bytes_append
      wire_memory_region_def)

lemma writer_bytes_Nil: "wr_position w \<le> length (wr_bytes w) \<Longrightarrow> writer_bytes w [] = Ok w"
  by (simp add: writer_bytes_def)

lemma writer_bytes_fits: "writer_bytes w v = Ok w' \<Longrightarrow> wr_position w' \<le> length (wr_bytes w')"
  by (auto simp: writer_bytes_def Let_def split: if_splits)

lemma write_memory_regions_eq:
  "and_then (writer_bytes w v) (\<lambda>w. write_memory_regions w rs) =
    writer_bytes w (v @ concat (map wire_memory_region rs))"
proof (induction rs arbitrary: v)
  case Nil
  show ?case by simp
next
  case (Cons r rs)
  then show ?case
    by (simp add: write_memory_region_eq writer_bytes_append' append_assoc [symmetric] del: append_assoc)
qed

lemma contract_encode_eq:
  assumes "boot_info_typed info"
  shows "contract_encode info output =
    and_then (map_err Invalid (validate_ref info)) (\<lambda>_.
    if length output < BOOT_INFO_SIZE then Err (BufferTooSmall (length output) BOOT_INFO_SIZE)
    else Ok (BOOT_INFO_SIZE, wire_boot_info info @ drop BOOT_INFO_SIZE output))"
proof -
  have full: "writer_bytes (writer_new (take BOOT_INFO_SIZE output)) (wire_boot_info info) =
      (Ok \<lparr>wr_bytes = wire_boot_info info, wr_position = BOOT_INFO_SIZE\<rparr> :: (encode_error, _) outcome)"
    if "\<not> length output < BOOT_INFO_SIZE"
    using that wire_boot_info_length [OF assms] by (simp add: writer_bytes_full)
  have seq: "and_then (writer_bytes w v) (\<lambda>w. and_then (write_memory_regions w rs) f) =
      and_then (writer_bytes w (v @ concat (map wire_memory_region rs))) f" for w v rs f
    by (simp flip: and_then_assoc add: write_memory_regions_eq)
  show ?thesis
    using full
    by (simp add: contract_encode_def Let_def writer_word_defs writer_bytes_append' seq
        wire_boot_info_def wire_defs)
qed

lemma active_regions_length:
  "boot_info_typed info \<Longrightarrow> header_ok (header info) \<Longrightarrow>
    length (active_regions info) = unat (memory_region_count (header info))"
  by (simp add: active_regions_def boot_info_typed_def header_ok_def abi_consts)

lemma validated_memory_regions_eq:
  "valid_contract (validated_as_ref v) \<Longrightarrow>
    validated_memory_regions v = Ok (active_regions (validated_as_ref v))"
  by (simp add: validated_memory_regions_def active_regions_def valid_contract_def
      boot_info_typed_def header_ok_def abi_consts slice_at_simp)

definition region_bytes :: "memory_region \<Rightarrow> nat set" where
  "region_bytes r = {unat (rg_start r) ..< region_end r}"

lemma region_before_disjoint: "region_before a b \<Longrightarrow> region_bytes a \<inter> region_bytes b = {}"
  by (auto simp: region_before_def region_bytes_def)

lemma sorted_regions_disjoint:
  assumes "sorted_wrt region_before rs" and "i < length rs" and "j < length rs" and "i \<noteq> j"
  shows "region_bytes (rs ! i) \<inter> region_bytes (rs ! j) = {}"
proof (cases "i < j")
  case True
  then show ?thesis
    by (rule region_before_disjoint [OF sorted_wrt_nth_less [OF assms(1) _ assms(3)]])
next
  case False
  with assms have "j < i" by simp
  then have "region_bytes (rs ! j) \<inter> region_bytes (rs ! i) = {}"
    by (rule region_before_disjoint [OF sorted_wrt_nth_less [OF assms(1) _ assms(2)]])
  then show ?thesis by blast
qed

text \<open>The regions that \<open>set_memory_region\<close> leaves active when it appends one.\<close>

lemma set_memory_region_append:
  assumes "boot_info_typed info" and "header_ok (header info)"
    and "unat (memory_region_count (header info)) = n" and "n < MAX_MEMORY_REGIONS"
  shows "set_memory_region info n r =
    Ok (info\<lparr>memory_regions := (memory_regions info)[n := r],
             header := (header info)\<lparr>memory_region_count := of_nat (n + 1)\<rparr>\<rparr>)"
  using assms by (simp add: set_memory_region_def u32_try_from_usize_def abi_consts Let_def)

lemma set_memory_region_append_valid:
  assumes v: "valid_contract info" and n: "unat (memory_region_count (header info)) = n"
    "n < MAX_MEMORY_REGIONS"
    and r: "region_ok r" "list_all (\<lambda>q. region_before q r) (active_regions info)"
    and set: "set_memory_region info n r = Ok info'"
  shows "valid_contract info' \<and> active_regions info' = active_regions info @ [r]"
proof -
  have len: "length (memory_regions info) = 128" and n128: "n < 128"
    using v n by (simp_all add: valid_contract_def boot_info_typed_def abi_consts)
  have info': "info' = info\<lparr>memory_regions := (memory_regions info)[n := r],
      header := (header info)\<lparr>memory_region_count := of_nat (n + 1)\<rparr>\<rparr>"
    using set set_memory_region_append [of info n r] v n by (simp add: valid_contract_def)
  have count: "unat (memory_region_count (header info')) = Suc n"
    using n128 unat_of_nat [of "Suc n", where 'a = 32] by (simp add: info')
  have act: "active_regions info' = active_regions info @ [r]"
    unfolding active_regions_def count n
    using len n128 by (simp add: info' take_Suc_conv_app_nth)
  have "set (drop (Suc n) (memory_regions info)) \<subseteq> set (drop n (memory_regions info))"
    by (rule set_drop_subset_set_drop) simp
  then have "list_all (\<lambda>r. r = REGION_EMPTY) (drop (Suc n) (memory_regions info))"
    using v n by (auto simp: valid_contract_def regions_ok_def list_all_iff)
  moreover have "memory_regions info' = (memory_regions info)[n := r]" by (simp add: info')
  ultimately have "regions_ok info'"
    unfolding regions_ok_def act count
    using v r by (simp add: valid_contract_def regions_ok_def list_all_iff sorted_wrt_append)
  moreover have "header_ok (header info')"
    using v count n128 by (simp add: valid_contract_def header_ok_def info')
  ultimately show ?thesis
    using v act by (simp add: valid_contract_def boot_info_typed_def info')
qed

section \<open>Properties of the contract\<close>

text \<open>A two-region map, used to instantiate the properties below.\<close>

definition example_region :: "u64 \<Rightarrow> memory_kind \<Rightarrow> memory_region" where
  "example_region start kind = memory_region_new start 0x1000 kind 7 0xF"

definition example_info :: boot_info where
  "example_info =
     \<lparr>header = boot_header_current\<lparr>memory_region_count := 2\<rparr>,
      platform = with_rsdp (x86_64_uefi 0) 0xE0000 36,
      scenario = scenario_test DELIBERATE_PANIC 0,
      memory_regions = example_region 0x1000 KIND_USABLE # example_region 0x2000 KIND_KERNEL_IMAGE #
        replicate 126 REGION_EMPTY\<rparr>"

lemma valid_example_info: "valid_contract example_info"
  by (simp add: valid_contract_def example_info_def boot_info_typed_def header_ok_def
      boot_header_current_def abi_consts platform_ok_def with_rsdp_def x86_64_uefi_def
      scenario_ok_def scenario_test_def regions_ok_def active_regions_def region_ok_def
      region_before_def region_end_def example_region_def memory_region_new_def is_known_def
      KIND_USABLE_def KIND_KERNEL_IMAGE_def list_all_iff)

lemma parse_wire: "valid_contract info \<Longrightarrow> contract_parse (wire_boot_info info) = Ok (ValidatedBootInfo info)"
  by (simp add: contract_parse_Ok_iff)

text \<open>
  C2: encoding a valid contract into any buffer of at least 4176 bytes succeeds, writes exactly the
  first 4176 bytes, and decoding those bytes gives the same contract back.
\<close>

theorem contract_encode_parse:
  assumes "valid_contract info" and "BOOT_INFO_SIZE \<le> length output"
  shows "\<exists>bytes. contract_encode info output = Ok (BOOT_INFO_SIZE, bytes) \<and>
    length bytes = length output \<and> drop BOOT_INFO_SIZE bytes = drop BOOT_INFO_SIZE output \<and>
    contract_parse (take BOOT_INFO_SIZE bytes) = Ok (ValidatedBootInfo info)"
proof -
  have t: "boot_info_typed info" using assms by (simp add: valid_contract_def)
  have "contract_encode info output =
      Ok (BOOT_INFO_SIZE, wire_boot_info info @ drop BOOT_INFO_SIZE output)"
    using assms validate_ref_Ok_iff [OF t] by (simp add: contract_encode_eq [OF t])
  then show ?thesis
    using assms parse_wire wire_boot_info_length [OF t] by simp
qed

theorem contract_encode_parse_witness:
  "\<exists>bytes. contract_encode example_info (replicate 5000 0xAA) = Ok (BOOT_INFO_SIZE, bytes) \<and>
    length bytes = 5000 \<and> drop BOOT_INFO_SIZE bytes = replicate 824 0xAA \<and>
    contract_parse (take BOOT_INFO_SIZE bytes) = Ok (ValidatedBootInfo example_info)"
  using contract_encode_parse [OF valid_example_info, of "replicate 5000 0xAA"]
  by (simp add: BOOT_INFO_SIZE_def)

text \<open>
  C3: the encoding is canonical.  A byte string that the decoder accepts is the only encoding of
  its contents: encoding the decoded contract reproduces it bit for bit.
\<close>

theorem contract_parse_encode:
  assumes "contract_parse bytes = Ok v" and "BOOT_INFO_SIZE \<le> length output"
  shows "contract_encode (validated_as_ref v) output =
    Ok (BOOT_INFO_SIZE, bytes @ drop BOOT_INFO_SIZE output)"
proof -
  have v: "valid_contract (validated_as_ref v)" "bytes = wire_boot_info (validated_as_ref v)"
    using assms by (simp_all only: contract_parse_Ok_iff)
  then have t: "boot_info_typed (validated_as_ref v)" by (simp add: valid_contract_def)
  have "validate_ref (validated_as_ref v) = Ok ()"
    using v(1) validate_ref_Ok_iff [OF t] by simp
  then show ?thesis
    using assms(2) v(2) by (simp add: contract_encode_eq [OF t])
qed

theorem contract_parse_encode_witness:
  "contract_encode example_info (replicate 4176 0) = Ok (4176, wire_boot_info example_info)"
  using contract_parse_encode [OF parse_wire [OF valid_example_info], of "replicate 4176 0"]
  by (simp add: BOOT_INFO_SIZE_def)

text \<open>
  C4: decoding arbitrary bytes never panics, and it accepts exactly the encodings of contracts
  that satisfy the declarative validity predicate.
\<close>

theorem contract_parse_sound_complete:
  "contract_parse bytes \<noteq> Panic \<and>
   (contract_parse bytes = Ok v \<longleftrightarrow>
     valid_contract (validated_as_ref v) \<and> bytes = wire_boot_info (validated_as_ref v))"
  by (rule conjI [OF contract_parse_not_Panic contract_parse_Ok_iff])

text \<open>
  C5: the memory map of a decoded contract is safe to use.  There are at most 128 active regions,
  the accessor returns them without panicking, every one has a known kind, is non-empty,
  page-aligned and ends below $2^{64}$, and no byte of memory belongs to two of them.
\<close>

theorem decoded_memory_map:
  assumes "contract_parse bytes = Ok v"
  shows "\<exists>rs. validated_memory_regions v = (Ok rs :: ('e, _) outcome) \<and> length rs \<le> MAX_MEMORY_REGIONS \<and>
    (\<forall>r \<in> set rs. is_known (rg_kind r) \<and> 0 < unat (rg_length r) \<and>
      4096 dvd unat (rg_start r) \<and> 4096 dvd unat (rg_length r) \<and>
      unat (rg_start r) + unat (rg_length r) < 2 ^ 64) \<and>
    (\<forall>i < length rs. \<forall>j < length rs. i \<noteq> j \<longrightarrow> region_bytes (rs ! i) \<inter> region_bytes (rs ! j) = {})"
proof -
  let ?rs = "active_regions (validated_as_ref v)"
  have v: "valid_contract (validated_as_ref v)" using assms by (simp add: contract_parse_Ok_iff)
  then have "list_all region_ok ?rs" "sorted_wrt region_before ?rs" "length ?rs \<le> 128"
    by (simp_all add: valid_contract_def regions_ok_def active_regions_length header_ok_def)
  then show ?thesis
    using validated_memory_regions_eq [OF v, where 'a = 'e] sorted_regions_disjoint [of ?rs]
    by (intro exI [of _ ?rs]) (simp add: list_all_iff region_ok_def region_end_def abi_consts)
qed

theorem decoded_memory_map_witness:
  "\<exists>rs. validated_memory_regions (ValidatedBootInfo example_info) = (Ok rs :: (unit, _) outcome) \<and>
    length rs \<le> MAX_MEMORY_REGIONS"
  using decoded_memory_map [OF parse_wire [OF valid_example_info], where 'e = unit] by blast

text \<open>
  C6: every proper prefix of a valid contract is rejected as truncated, with the length that was
  needed, and every proper extension is rejected for its length.
\<close>

theorem contract_length_exact:
  assumes "valid_contract info" and "n < BOOT_INFO_SIZE" and "extra \<noteq> []"
  shows "contract_parse (take n (wire_boot_info info)) =
      Err (Truncated n (if n < BOOT_HEADER_SIZE then BOOT_HEADER_SIZE else BOOT_INFO_SIZE)) \<and>
    contract_parse (wire_boot_info info @ extra) =
      Err (LengthMismatch (BOOT_INFO_SIZE + length extra) BOOT_INFO_SIZE)"
proof -
  let ?h = "header info"
  have t: "boot_info_typed info" and h: "validate_header ?h = Ok ()" and m: "length (hdr_magic ?h) = 8"
    using assms by (simp_all add: valid_contract_def validate_header_Ok_iff boot_info_typed_def)
  have len: "length (wire_boot_info info) = 4176"
    using wire_boot_info_length [OF t] by (simp add: BOOT_INFO_SIZE_def)
  have head: "wire_boot_header ?h = take 32 (take k (wire_boot_info info) @ xs)" if "32 \<le> k" for k xs
    using that t len by (simp add: wire_boot_info_def boot_info_typed_def codec_header.enc_width)
  have "prevalidate (take n (wire_boot_info info)) =
      Err (Truncated n (if n < BOOT_HEADER_SIZE then BOOT_HEADER_SIZE else BOOT_INFO_SIZE))"
  proof (cases "n < 32")
    case True
    then show ?thesis using len by (simp add: prevalidate_def BOOT_HEADER_SIZE_def)
  next
    case False
    then show ?thesis
      using prevalidate_eq [OF _ head [of n "[]"] m] assms(2) len h by (simp add: abi_consts)
  qed
  moreover have "prevalidate (wire_boot_info info @ extra) =
      Err (LengthMismatch (BOOT_INFO_SIZE + length extra) BOOT_INFO_SIZE)"
    using prevalidate_eq [OF _ head [of 4176 extra] m] assms(3) len h by (simp add: abi_consts)
  ultimately show ?thesis by (simp add: contract_parse_def)
qed

theorem contract_length_exact_witness:
  "contract_parse (take 4175 (wire_boot_info example_info)) = Err (Truncated 4175 4176) \<and>
   contract_parse (wire_boot_info example_info @ [0]) = Err (LengthMismatch 4177 4176)"
  using contract_length_exact [OF valid_example_info, of 4175 "[0]"] by (simp add: abi_consts)

text \<open>
  C7: building a map with \<^verbatim>\<open>set_memory_region\<close>: writing a well-formed region that starts at or
  after the end of every active one, at the first free index, keeps the contract valid and appends
  exactly that region; an index outside the array is an error.
\<close>

theorem set_memory_region_appends:
  assumes "valid_contract info" and "unat (memory_region_count (header info)) < MAX_MEMORY_REGIONS"
    and "region_ok r" and "list_all (\<lambda>q. region_before q r) (active_regions info)"
    and "MAX_MEMORY_REGIONS \<le> index"
  shows "(\<exists>info'. set_memory_region info (unat (memory_region_count (header info))) r = Ok info' \<and>
      valid_contract info' \<and> active_regions info' = active_regions info @ [r]) \<and>
    set_memory_region info index r = Err (RegionIndexOutOfBounds index)"
proof -
  obtain info' where "set_memory_region info (unat (memory_region_count (header info))) r = Ok info'"
    using set_memory_region_append [OF _ _ refl assms(2)] assms(1) by (simp add: valid_contract_def)
  then show ?thesis
    using set_memory_region_append_valid [OF assms(1) refl assms(2-4)] assms(5)
    by (auto simp: set_memory_region_def)
qed

theorem set_memory_region_appends_witness:
  "(\<exists>info'. set_memory_region example_info 2 (example_region 0x5000 KIND_MMIO) = Ok info' \<and>
      valid_contract info' \<and>
      active_regions info' = active_regions example_info @ [example_region 0x5000 KIND_MMIO]) \<and>
    set_memory_region example_info 128 (example_region 0x5000 KIND_MMIO) =
      Err (RegionIndexOutOfBounds 128)"
proof -
  have "unat (memory_region_count (header example_info)) = 2"
    by (simp add: example_info_def)
  moreover have "region_ok (example_region 0x5000 KIND_MMIO)"
    by (simp add: region_ok_def region_end_def example_region_def memory_region_new_def
        is_known_def KIND_MMIO_def)
  moreover have "list_all (\<lambda>q. region_before q (example_region 0x5000 KIND_MMIO))
      (active_regions example_info)"
    by (simp add: example_info_def active_regions_def region_before_def region_end_def
        example_region_def memory_region_new_def)
  ultimately show ?thesis
    using set_memory_region_appends [OF valid_example_info, of "example_region 0x5000 KIND_MMIO" 128]
    by (simp add: abi_consts)
qed

end
