(* ===== verification/Arch_Console.thy ===== *)
theory Arch_Console
  imports Prelude
begin

text \<open>
  \<^verbatim>\<open>crates/arch-x86_64/src/lib.rs\<close>: the early console and the emulator exit port.  The machine is
  the list of port accesses made so far.  What the UART answers to a status read is the behaviour
  of a device, so it is a parameter: a function of the accesses so far and of the port.
  \<open>debugcon_stream\<close> and \<open>serial_stream\<close> read off a trace what the two output devices received.
\<close>

named_theorems console_consts \<open>ports and limits of the console\<close>

definition COM1 :: u16 where [console_consts]: "COM1 = 0x03f8"
definition DEBUGCON :: u16 where [console_consts]: "DEBUGCON = 0x00e9"
definition QEMU_EXIT :: u16 where [console_consts]: "QEMU_EXIT = 0x00f4"
definition TRANSMIT_READY :: u8 where [console_consts]: "TRANSMIT_READY = 0x20"
definition MAX_TRANSMIT_POLLS :: usize where "MAX_TRANSMIT_POLLS = 4096"
definition MAX_RECORD_BYTES :: usize where "MAX_RECORD_BYTES = 256"

datatype qemu_exit_code = Success | ContractRejected | KernelPanic | LoaderFailure | KernelReturned

primrec exit_code_value :: "qemu_exit_code \<Rightarrow> u32" where
  "exit_code_value Success = 0x10"
| "exit_code_value ContractRejected = 0x20"
| "exit_code_value KernelPanic = 0x21"
| "exit_code_value LoaderFailure = 0x22"
| "exit_code_value KernelReturned = 0x23"

datatype io_event = OutU8 u16 u8 | OutU32 u16 u32 | InU8 u16 u8

type_synonym io_trace = "io_event list"
type_synonym device = "io_trace \<Rightarrow> u16 \<Rightarrow> u8"

definition out_u8 :: "u16 \<Rightarrow> u8 \<Rightarrow> io_trace \<Rightarrow> io_trace" where
  "out_u8 port value tr = tr @ [OutU8 port value]"

definition out_u32 :: "u16 \<Rightarrow> u32 \<Rightarrow> io_trace \<Rightarrow> io_trace" where
  "out_u32 port value tr = tr @ [OutU32 port value]"

definition in_u8 :: "device \<Rightarrow> u16 \<Rightarrow> io_trace \<Rightarrow> u8 \<times> io_trace" where
  "in_u8 dev port tr = (dev tr port, tr @ [InU8 port (dev tr port)])"

section \<open>The console\<close>

record early_console =
  initialized :: bool

definition console_initialize :: "early_console \<Rightarrow> io_trace \<Rightarrow> early_console \<times> io_trace" where
  "console_initialize c tr =
     (c\<lparr>initialized := True\<rparr>,
      out_u8 (COM1 + 4) 0x0b (out_u8 (COM1 + 2) 0xc7 (out_u8 (COM1 + 3) 0x03
        (out_u8 (COM1 + 1) 0x00 (out_u8 COM1 0x03 (out_u8 (COM1 + 3) 0x80
        (out_u8 (COM1 + 1) 0x00 tr)))))))"

definition console_new :: "io_trace \<Rightarrow> early_console \<times> io_trace" where
  "console_new tr = console_initialize \<lparr>initialized = False\<rparr> tr"

text \<open>The bounded polling loop: the first argument counts the remaining iterations.\<close>

fun transmit_poll :: "nat \<Rightarrow> device \<Rightarrow> u8 \<Rightarrow> io_trace \<Rightarrow> io_trace" where
  "transmit_poll 0 dev byte tr = tr"
| "transmit_poll (Suc n) dev byte tr =
     (let (status, tr) = in_u8 dev (COM1 + 5) tr in
      if status AND TRANSMIT_READY \<noteq> 0 then out_u8 COM1 byte tr
      else transmit_poll n dev byte tr)"

definition write_serial_byte :: "device \<Rightarrow> u8 \<Rightarrow> io_trace \<Rightarrow> io_trace" where
  "write_serial_byte dev byte tr = transmit_poll MAX_TRANSMIT_POLLS dev byte tr"

definition write_byte ::
    "device \<Rightarrow> u8 \<Rightarrow> early_console \<times> io_trace \<Rightarrow> early_console \<times> io_trace" where
  "write_byte dev byte = (\<lambda>(c, tr).
     let (c, tr) = (if \<not> initialized c then console_initialize c tr else (c, tr));
         tr = (if byte = 0x0A then write_serial_byte dev 0x0D tr else tr);
         tr = write_serial_byte dev byte tr
     in (c, out_u8 DEBUGCON byte tr))"

definition write_record ::
    "device \<Rightarrow> u8 list \<Rightarrow> early_console \<times> io_trace \<Rightarrow> early_console \<times> io_trace" where
  "write_record dev line st =
     write_byte dev 0x0A (fold (write_byte dev) (take MAX_RECORD_BYTES line) st)"

text \<open>
  \<^verbatim>\<open>qemu_exit\<close> writes the code to the exit device and then halts with interrupts disabled, forever;
  nothing after it is executed, so the final trace is all there is.
\<close>

definition qemu_exit :: "qemu_exit_code \<Rightarrow> io_trace \<Rightarrow> io_trace" where
  "qemu_exit code tr = out_u32 QEMU_EXIT (exit_code_value code) tr"

section \<open>What the devices receive\<close>

fun debugcon_stream :: "io_trace \<Rightarrow> u8 list" where
  "debugcon_stream [] = []"
| "debugcon_stream (OutU8 port b # tr) =
     (if port = DEBUGCON then b # debugcon_stream tr else debugcon_stream tr)"
| "debugcon_stream (_ # tr) = debugcon_stream tr"

text \<open>
  The transmit register and the low divisor byte share one port; the divisor-latch bit (bit 7 of
  the line-control register) selects between them.
\<close>

fun serial_stream :: "bool \<Rightarrow> io_trace \<Rightarrow> u8 list" where
  "serial_stream dlab [] = []"
| "serial_stream dlab (OutU8 port b # tr) =
     (if port = COM1 + 3 then serial_stream (b AND 0x80 \<noteq> 0) tr
      else if port = COM1 \<and> \<not> dlab then b # serial_stream dlab tr
      else serial_stream dlab tr)"
| "serial_stream dlab (_ # tr) = serial_stream dlab tr"

fun dlab_after :: "bool \<Rightarrow> io_trace \<Rightarrow> bool" where
  "dlab_after dlab [] = dlab"
| "dlab_after dlab (OutU8 port b # tr) =
     dlab_after (if port = COM1 + 3 then b AND 0x80 \<noteq> 0 else dlab) tr"
| "dlab_after dlab (_ # tr) = dlab_after dlab tr"

fun exit_codes :: "io_trace \<Rightarrow> u32 list" where
  "exit_codes [] = []"
| "exit_codes (OutU32 port v # tr) = (if port = QEMU_EXIT then v # exit_codes tr else exit_codes tr)"
| "exit_codes (_ # tr) = exit_codes tr"

lemma debugcon_stream_append [simp]:
  "debugcon_stream (a @ b) = debugcon_stream a @ debugcon_stream b"
  by (induction a rule: debugcon_stream.induct) auto

lemma serial_stream_append [simp]:
  "serial_stream dlab (a @ b) = serial_stream dlab a @ serial_stream (dlab_after dlab a) b"
  by (induction dlab a rule: serial_stream.induct) auto

lemma dlab_after_append [simp]: "dlab_after dlab (a @ b) = dlab_after (dlab_after dlab a) b"
  by (induction dlab a rule: dlab_after.induct) auto

lemma exit_codes_append [simp]: "exit_codes (a @ b) = exit_codes a @ exit_codes b"
  by (induction a rule: exit_codes.induct) auto

text \<open>A status poll never writes to the debug console or to the exit device, and it ends.\<close>

lemma transmit_poll_effect:
  "debugcon_stream (transmit_poll n dev byte tr) = debugcon_stream tr \<and>
   exit_codes (transmit_poll n dev byte tr) = exit_codes tr \<and>
   dlab_after d (transmit_poll n dev byte tr) = dlab_after d tr \<and>
   length (transmit_poll n dev byte tr) \<le> length tr + n + 1"
  by (induction n dev byte tr rule: transmit_poll.induct)
    (auto simp: Let_def in_u8_def out_u8_def console_consts)

lemma write_serial_byte_effect [simp]:
  "debugcon_stream (write_serial_byte dev byte tr) = debugcon_stream tr"
  "exit_codes (write_serial_byte dev byte tr) = exit_codes tr"
  "dlab_after d (write_serial_byte dev byte tr) = dlab_after d tr"
  "length (write_serial_byte dev byte tr) \<le> length tr + 4097"
  using transmit_poll_effect [of MAX_TRANSMIT_POLLS dev byte tr d]
  by (simp_all add: write_serial_byte_def MAX_TRANSMIT_POLLS_def)

definition uart_ready :: "device \<Rightarrow> bool" where
  "uart_ready dev \<longleftrightarrow> (\<forall>tr. dev tr (COM1 + 5) AND TRANSMIT_READY \<noteq> 0)"

lemma write_serial_byte_ready:
  assumes "uart_ready dev"
  shows "write_serial_byte dev byte tr =
    tr @ [InU8 (COM1 + 5) (dev tr (COM1 + 5)), OutU8 COM1 byte]"
  using assms
  by (simp add: write_serial_byte_def MAX_TRANSMIT_POLLS_def numeral_eq_Suc uart_ready_def Let_def
      in_u8_def out_u8_def)

lemma console_initialize_effect:
  "debugcon_stream (snd (console_initialize c tr)) = debugcon_stream tr"
  "exit_codes (snd (console_initialize c tr)) = exit_codes tr"
  "initialized (fst (console_initialize c tr))"
  "\<not> dlab_after d (snd (console_initialize c tr))"
  "length (snd (console_initialize c tr)) = length tr + 7"
  by (simp_all add: console_initialize_def out_u8_def console_consts)

lemma console_initialize_serial:
  "\<not> dlab_after d tr \<Longrightarrow> serial_stream d (snd (console_initialize c tr)) = serial_stream d tr"
  by (simp add: console_initialize_def out_u8_def console_consts)

definition console_ready :: "early_console \<times> io_trace \<Rightarrow> bool" where
  "console_ready st \<longleftrightarrow> initialized (fst st)"

lemma console_new_ready [simp]: "console_ready (console_new tr)"
  by (simp add: console_ready_def console_new_def console_initialize_effect)

lemma write_byte_effect:
  assumes "console_ready st"
  shows "console_ready (write_byte dev b st)"
    and "debugcon_stream (snd (write_byte dev b st)) = debugcon_stream (snd st) @ [b]"
    and "exit_codes (snd (write_byte dev b st)) = exit_codes (snd st)"
    and "dlab_after d (snd (write_byte dev b st)) = dlab_after d (snd st)"
    and "length (snd (write_byte dev b st)) \<le> length (snd st) + 8195"
proof -
  obtain c tr where st: "st = (c, tr)" "initialized c"
    using assms by (cases st) (simp add: console_ready_def)
  have l: "length (write_serial_byte dev b (write_serial_byte dev 0x0D tr)) \<le> length tr + 8194"
    "length (write_serial_byte dev b tr) \<le> length tr + 8194"
    using write_serial_byte_effect(4) [of dev b "write_serial_byte dev 0x0D tr"]
      write_serial_byte_effect(4) [of dev "0x0D" tr] write_serial_byte_effect(4) [of dev b tr]
    by linarith+
  show "console_ready (write_byte dev b st)"
    "debugcon_stream (snd (write_byte dev b st)) = debugcon_stream (snd st) @ [b]"
    "exit_codes (snd (write_byte dev b st)) = exit_codes (snd st)"
    "dlab_after d (snd (write_byte dev b st)) = dlab_after d (snd st)"
    "length (snd (write_byte dev b st)) \<le> length (snd st) + 8195"
    using st l by (auto simp: write_byte_def Let_def out_u8_def console_ready_def console_consts)
qed

lemma write_bytes_effect:
  assumes "console_ready st"
  shows "console_ready (fold (write_byte dev) bs st) \<and>
    debugcon_stream (snd (fold (write_byte dev) bs st)) = debugcon_stream (snd st) @ bs \<and>
    exit_codes (snd (fold (write_byte dev) bs st)) = exit_codes (snd st) \<and>
    dlab_after d (snd (fold (write_byte dev) bs st)) = dlab_after d (snd st) \<and>
    length (snd (fold (write_byte dev) bs st)) \<le> length (snd st) + 8195 * length bs"
  using assms
proof (induction bs arbitrary: st)
  case Nil
  then show ?case by simp
next
  case (Cons b bs)
  note e = write_byte_effect [OF Cons.prems, where dev = dev and b = b]
  show ?case
    using Cons.IH [OF e(1)] e(2,3,5) e(4) [of d] by simp
qed

lemma write_record_effect:
  assumes "console_ready st"
  shows "console_ready (write_record dev line st)"
    and "debugcon_stream (snd (write_record dev line st)) =
      debugcon_stream (snd st) @ take MAX_RECORD_BYTES line @ [0x0A]"
    and "exit_codes (snd (write_record dev line st)) = exit_codes (snd st)"
    and "dlab_after d (snd (write_record dev line st)) = dlab_after d (snd st)"
    and "length (snd (write_record dev line st)) \<le>
      length (snd st) + 8195 * (length (take MAX_RECORD_BYTES line) + 1)"
proof -
  let ?st = "fold (write_byte dev) (take MAX_RECORD_BYTES line) st"
  note f = write_bytes_effect
    [OF assms, where dev = dev and bs = "take MAX_RECORD_BYTES line" and d = d]
  note e = write_byte_effect [where st = ?st and dev = dev and b = "0x0A"]
  show "console_ready (write_record dev line st)"
    "debugcon_stream (snd (write_record dev line st)) =
      debugcon_stream (snd st) @ take MAX_RECORD_BYTES line @ [0x0A]"
    "exit_codes (snd (write_record dev line st)) = exit_codes (snd st)"
    "dlab_after d (snd (write_record dev line st)) = dlab_after d (snd st)"
    "length (snd (write_record dev line st)) \<le>
      length (snd st) + 8195 * (length (take MAX_RECORD_BYTES line) + 1)"
    using f e(1-3,5) e(4) [of d] by (simp_all add: write_record_def)
qed

definition uart_stuck :: "device \<Rightarrow> bool" where
  "uart_stuck dev \<longleftrightarrow> (\<forall>tr. dev tr (COM1 + 5) AND TRANSMIT_READY = 0)"

definition serial_image :: "u8 list \<Rightarrow> u8 list" where
  "serial_image bs = concat (map (\<lambda>b. if b = 0x0A then [0x0D, 0x0A] else [b]) bs)"

lemma transmit_poll_stuck:
  assumes "uart_stuck dev"
  shows "serial_stream d (transmit_poll n dev byte tr) = serial_stream d tr"
  using assms
  by (induction n dev byte tr rule: transmit_poll.induct)
    (auto simp: uart_stuck_def Let_def in_u8_def)

lemma write_byte_serial:
  assumes "console_ready st" and "\<not> dlab_after d (snd st)"
  shows "uart_ready dev \<Longrightarrow>
      serial_stream d (snd (write_byte dev b st)) = serial_stream d (snd st) @ serial_image [b]"
    and "uart_stuck dev \<Longrightarrow> serial_stream d (snd (write_byte dev b st)) = serial_stream d (snd st)"
proof -
  obtain c tr where st: "st = (c, tr)" "initialized c" "\<not> dlab_after d tr"
    using assms by (cases st) (simp add: console_ready_def)
  show "serial_stream d (snd (write_byte dev b st)) = serial_stream d (snd st) @ serial_image [b]"
    if "uart_ready dev"
    using st that
    by (auto simp: write_byte_def write_serial_byte_ready out_u8_def serial_image_def Let_def
        console_consts)
  show "serial_stream d (snd (write_byte dev b st)) = serial_stream d (snd st)" if "uart_stuck dev"
    using st that
    by (auto simp: write_byte_def write_serial_byte_def transmit_poll_stuck out_u8_def Let_def
        console_consts)
qed

lemma write_bytes_serial:
  assumes "console_ready st" and "\<not> dlab_after d (snd st)"
  shows "(uart_ready dev \<longrightarrow> serial_stream d (snd (fold (write_byte dev) bs st)) =
      serial_stream d (snd st) @ serial_image bs) \<and>
    (uart_stuck dev \<longrightarrow> serial_stream d (snd (fold (write_byte dev) bs st)) = serial_stream d (snd st))"
  using assms
proof (induction bs arbitrary: st)
  case Nil
  then show ?case by (simp add: serial_image_def)
next
  case (Cons b bs)
  note e = write_byte_effect [OF Cons.prems(1), where dev = dev and b = b]
  have d: "\<not> dlab_after d (snd (write_byte dev b st))"
    using e(4) [of d] Cons.prems(2) by simp
  show ?case
    using Cons.IH [OF e(1) d] write_byte_serial [OF Cons.prems, where dev = dev and b = b]
    by (auto simp: serial_image_def)
qed

lemma write_record_fold:
  "write_record dev line st =
    fold (write_byte dev) (take MAX_RECORD_BYTES line @ [0x0A]) st"
  by (simp add: write_record_def)

lemma console_new_streams:
  "debugcon_stream (snd (console_new tr)) = debugcon_stream tr"
  "exit_codes (snd (console_new tr)) = exit_codes tr"
  "\<not> dlab_after d (snd (console_new tr))"
  "\<not> dlab_after d tr \<Longrightarrow> serial_stream d (snd (console_new tr)) = serial_stream d tr"
  "length (snd (console_new tr)) = length tr + 7"
  by (simp_all add: console_new_def console_initialize_effect console_initialize_serial)

text \<open>
  C11: a record written to a new console reaches the debug console as its first 256 bytes and a
  newline, whatever the UART does, after a bounded number of port accesses.  A ready UART receives
  the same bytes with a carriage return before each newline, and nothing of the initialization
  sequence; a UART that is never ready receives nothing.
\<close>

theorem console_record_delivery:
  assumes "\<not> dlab_after d tr"
  shows "debugcon_stream (snd (write_record dev line (console_new tr))) =
      debugcon_stream tr @ take MAX_RECORD_BYTES line @ [0x0A] \<and>
    length (snd (write_record dev line (console_new tr))) \<le> length tr + 7 + 8195 * 257 \<and>
    (uart_ready dev \<longrightarrow> serial_stream d (snd (write_record dev line (console_new tr))) =
      serial_stream d tr @ serial_image (take MAX_RECORD_BYTES line @ [0x0A])) \<and>
    (uart_stuck dev \<longrightarrow> serial_stream d (snd (write_record dev line (console_new tr))) =
      serial_stream d tr)"
proof -
  let ?st = "console_new tr"
  note w = write_record_effect [OF console_new_ready [of tr], where dev = dev and line = line]
  have "l \<le> a + 8195 * (n + 1) \<Longrightarrow> n \<le> 256 \<Longrightarrow> a = t + 7 \<Longrightarrow> l \<le> t + 7 + 8195 * 257" for l a n t :: nat
    by simp
  from this [OF w(5) _ console_new_streams(5)]
  have "length (snd (write_record dev line ?st)) \<le> length tr + 7 + 8195 * 257"
    by (simp add: MAX_RECORD_BYTES_def)
  moreover note write_bytes_serial [OF console_new_ready [of tr] console_new_streams(3) [of d],
      where dev = dev and bs = "take MAX_RECORD_BYTES line @ [0x0A]"]
  ultimately show ?thesis
    using w(2) console_new_streams(1) [of tr] console_new_streams(4) [OF assms]
    by (simp add: write_record_fold)
qed

theorem console_record_delivery_witness:
  "debugcon_stream (snd (write_record (\<lambda>_ _. 0x20) [0x41] (console_new []))) = [0x41, 0x0A] \<and>
   serial_stream False (snd (write_record (\<lambda>_ _. 0x20) [0x41] (console_new []))) =
     [0x41, 0x0D, 0x0A]"
  using console_record_delivery [of False "[]" "\<lambda>_ _. 0x20" "[0x41]"]
  by (simp add: uart_ready_def TRANSMIT_READY_def serial_image_def MAX_RECORD_BYTES_def)

end
