(* ===== verification/Kernel.thy ===== *)
theory Kernel
  imports Boot_Contract Arch_Console
begin

text \<open>
  The kernel: the boot-phase state machine of \<^verbatim>\<open>crates/kernel/src/lib.rs\<close>, the diagnostic markers
  of \<^verbatim>\<open>crates/kernel/src/diagnostics.rs\<close>, and the entry function and panic handler of
  \<^verbatim>\<open>crates/kernel/src/bin/x86_64.rs\<close>.  The entry function never returns; its result is the trace of
  port accesses up to the exit write.
\<close>

section \<open>The boot-phase state machine\<close>

datatype boot_phase = Reset | EarlyArchitecture | MemoryReady | RuntimeReady

datatype boot_error = InvalidTransition boot_phase boot_phase

record boot_state =
  phase :: boot_phase

definition boot_state_new :: boot_state where
  "boot_state_new = \<lparr>phase = Reset\<rparr>"

definition transition :: "boot_state \<Rightarrow> boot_phase \<Rightarrow> (boot_error, unit) outcome \<times> boot_state" where
  "transition s following =
     (let valid = (case (phase s, following) of
          (Reset, EarlyArchitecture) \<Rightarrow> True
        | (EarlyArchitecture, MemoryReady) \<Rightarrow> True
        | (MemoryReady, RuntimeReady) \<Rightarrow> True
        | _ \<Rightarrow> False)
      in if \<not> valid then (Err (InvalidTransition (phase s) following), s)
         else (Ok (), s\<lparr>phase := following\<rparr>))"

text \<open>The declaration order of the phases is their order in time.\<close>

primrec phase_rank :: "boot_phase \<Rightarrow> nat" where
  "phase_rank Reset = 0"
| "phase_rank EarlyArchitecture = 1"
| "phase_rank MemoryReady = 2"
| "phase_rank RuntimeReady = 3"

lemma all_phases_iff: "(\<forall>q. P q) \<longleftrightarrow> P Reset \<and> P EarlyArchitecture \<and> P MemoryReady \<and> P RuntimeReady"
proof (intro iffI allI)
  show "P q" if "P Reset \<and> P EarlyArchitecture \<and> P MemoryReady \<and> P RuntimeReady" for q
    using that by (cases q) simp_all
qed simp

lemma phase_rank_inject: "phase_rank p = phase_rank q \<longleftrightarrow> p = q"
  by (cases p; cases q) simp_all

instantiation boot_phase :: linorder
begin

definition less_eq_boot_phase :: "boot_phase \<Rightarrow> boot_phase \<Rightarrow> bool" where
  "less_eq_boot_phase p q \<longleftrightarrow> phase_rank p \<le> phase_rank q"

definition less_boot_phase :: "boot_phase \<Rightarrow> boot_phase \<Rightarrow> bool" where
  "less_boot_phase p q \<longleftrightarrow> phase_rank p < phase_rank q"

instance
  by standard (auto simp: less_eq_boot_phase_def less_boot_phase_def phase_rank_inject)

end

definition phase_order :: "boot_phase list" where
  "phase_order = [EarlyArchitecture, MemoryReady, RuntimeReady]"

lemma transition_Ok_iff:
  "transition s p = (Ok (), s') \<longleftrightarrow>
    phase_rank p = Suc (phase_rank (phase s)) \<and> s' = s\<lparr>phase := p\<rparr>"
  by (cases "phase s"; cases p) (auto simp: transition_def)

text \<open>
  Runs of the machine: callers may request any phases in any order and carry on after a rejection.
  The second argument lists the requests that were granted.
\<close>

inductive boot_run :: "boot_state \<Rightarrow> boot_phase list \<Rightarrow> boot_state \<Rightarrow> bool" where
  start: "boot_run boot_state_new [] boot_state_new"
| granted: "boot_run s0 ps s \<Longrightarrow> transition s p = (Ok (), s') \<Longrightarrow> boot_run s0 (ps @ [p]) s'"
| rejected: "boot_run s0 ps s \<Longrightarrow> transition s p = (Err e, s') \<Longrightarrow> boot_run s0 ps s'"

inductive_cases boot_run_nonempty: "boot_run s0 (ps @ [p]) s'"

lemma transition_Err_unchanged: "transition s p = (Err e, s') \<Longrightarrow> s' = s \<and> e = InvalidTransition (phase s) p"
  by (auto simp: transition_def Let_def split: if_splits)

lemma boot_run_prefix:
  "boot_run s0 ps s \<Longrightarrow> ps = take (phase_rank (phase s)) phase_order \<and> phase_rank (phase s) \<le> 3"
proof (induction rule: boot_run.induct)
  case start
  then show ?case by (simp add: boot_state_new_def)
next
  case (granted s0 ps s p s')
  have "phase_rank p = Suc (phase_rank (phase s))" and s': "s' = s\<lparr>phase := p\<rparr>"
    using granted.hyps(2) by (simp_all only: transition_Ok_iff)
  then show ?case
    using granted.IH unfolding s' by (cases "phase s"; cases p) (simp_all add: phase_order_def)
next
  case (rejected s0 ps s p e s')
  then show ?case using transition_Err_unchanged [OF rejected.hyps(2)] by simp
qed

text \<open>
  C13: the state machine grants a request exactly when it names the immediate successor of the
  current phase; a rejected request leaves the state unchanged and names both phases.  Whatever
  the sequence of requests, the granted ones are the phases up to the current one, each once and in
  order, so no phase is skipped, repeated or undone.
\<close>

theorem boot_phases_in_order:
  assumes "boot_run boot_state_new ps s"
  shows "(transition s p = (Ok (), s\<lparr>phase := p\<rparr>) \<longleftrightarrow>
      phase s < p \<and> (\<forall>q. \<not> (phase s < q \<and> q < p))) \<and>
    (\<not> (phase s < p \<and> (\<forall>q. \<not> (phase s < q \<and> q < p))) \<longrightarrow>
      transition s p = (Err (InvalidTransition (phase s) p), s)) \<and>
    ps = filter (\<lambda>q. q \<le> phase s) phase_order"
proof -
  have next_iff: "phase_rank p = Suc (phase_rank (phase s)) \<longleftrightarrow>
      phase s < p \<and> (\<forall>q. \<not> (phase s < q \<and> q < p))" (is "_ \<longleftrightarrow> ?next")
    unfolding all_phases_iff by (cases "phase s"; cases p) (simp_all add: less_boot_phase_def)
  have "transition s p = (Err (InvalidTransition (phase s) p), s)" if "\<not> ?next"
    using that next_iff by (cases "phase s"; cases p) (simp_all add: transition_def)
  moreover have "take (phase_rank (phase s)) phase_order = filter (\<lambda>q. q \<le> phase s) phase_order"
    by (cases "phase s") (simp_all add: phase_order_def less_eq_boot_phase_def)
  ultimately show ?thesis
    using boot_run_prefix [OF assms] next_iff
      transition_Ok_iff [of s p "s\<lparr>phase := p\<rparr>"] by blast
qed

theorem boot_phases_in_order_witness:
  "transition \<lparr>phase = EarlyArchitecture\<rparr> RuntimeReady =
    (Err (InvalidTransition EarlyArchitecture RuntimeReady), \<lparr>phase = EarlyArchitecture\<rparr>)"
proof -
  have r: "boot_run boot_state_new [EarlyArchitecture] \<lparr>phase = EarlyArchitecture\<rparr>"
    using boot_run.granted [OF boot_run.start, of EarlyArchitecture "\<lparr>phase = EarlyArchitecture\<rparr>"]
    by (simp add: transition_def boot_state_new_def)
  have "EarlyArchitecture < MemoryReady \<and> MemoryReady < RuntimeReady"
    by (simp add: less_boot_phase_def)
  then show ?thesis using boot_phases_in_order [OF r, of RuntimeReady] by auto
qed

section \<open>Diagnostic markers\<close>

definition DIAGNOSTIC_SCHEMA :: u16 where "DIAGNOSTIC_SCHEMA = 1"

definition KERNEL_READY :: "u8 list" where
  "KERNEL_READY =
     bytes_of ''POLYTOPE_BOOT schema=1 seq=0004 phase=kernel_entry level=info code=KERNEL_READY''"
definition ABI_VERSION_REJECTED :: "u8 list" where
  "ABI_VERSION_REJECTED =
     bytes_of ''POLYTOPE_BOOT schema=1 seq=0004 phase=kernel_entry level=error code=ABI_VERSION''"
definition CONTRACT_LENGTH_REJECTED :: "u8 list" where
  "CONTRACT_LENGTH_REJECTED =
     bytes_of ''POLYTOPE_BOOT schema=1 seq=0004 phase=kernel_entry level=error code=CONTRACT_LENGTH''"
definition CONTRACT_INVALID :: "u8 list" where
  "CONTRACT_INVALID =
     bytes_of ''POLYTOPE_BOOT schema=1 seq=0004 phase=kernel_entry level=error code=CONTRACT_INVALID''"
definition KERNEL_PANIC :: "u8 list" where
  "KERNEL_PANIC =
     bytes_of ''POLYTOPE_BOOT schema=1 seq=0005 phase=panic level=fatal code=KERNEL_PANIC''"

lemmas kernel_marker_defs =
  KERNEL_READY_def ABI_VERSION_REJECTED_def CONTRACT_LENGTH_REJECTED_def CONTRACT_INVALID_def
  KERNEL_PANIC_def

section \<open>Kernel entry\<close>

definition kernel_panic_handler :: "device \<Rightarrow> io_trace \<Rightarrow> io_trace" where
  "kernel_panic_handler dev tr =
     qemu_exit KernelPanic (snd (write_record dev KERNEL_PANIC (console_new tr)))"

text \<open>The two \<^verbatim>\<open>match\<close> statements that follow the range checks of the entry function.\<close>

definition kernel_dispatch ::
    "device \<Rightarrow> early_console \<times> io_trace \<Rightarrow> u8 list \<Rightarrow> io_trace" where
  "kernel_dispatch dev console bytes =
     (case contract_parse bytes of
        Panic \<Rightarrow> kernel_panic_handler dev (snd console)
      | Err (UnsupportedVersion _ _) \<Rightarrow>
          qemu_exit ContractRejected (snd (write_record dev ABI_VERSION_REJECTED console))
      | Err (Truncated _ _) \<Rightarrow>
          qemu_exit ContractRejected (snd (write_record dev CONTRACT_LENGTH_REJECTED console))
      | Err (LengthMismatch _ _) \<Rightarrow>
          qemu_exit ContractRejected (snd (write_record dev CONTRACT_LENGTH_REJECTED console))
      | Err _ \<Rightarrow> qemu_exit ContractRejected (snd (write_record dev CONTRACT_INVALID console))
      | Ok boot_info \<Rightarrow>
          (let kind = scn_kind (scenario (validated_as_ref boot_info)) in
           if kind = SCENARIO_NORMAL then
             qemu_exit Success (snd (write_record dev KERNEL_READY console))
           else if kind = DELIBERATE_PANIC then kernel_panic_handler dev (snd console)
           else qemu_exit ContractRejected (snd (write_record dev CONTRACT_INVALID console))))"

definition polytope_kernel_main ::
    "device \<Rightarrow> (nat \<Rightarrow> u8) \<Rightarrow> usize \<Rightarrow> usize \<Rightarrow> io_trace \<Rightarrow> io_trace" where
  "polytope_kernel_main dev mem contract len tr =
     (let console = console_new tr in
      if len \<noteq> BOOT_INFO_SIZE then
        qemu_exit ContractRejected (snd (write_record dev CONTRACT_LENGTH_REJECTED console))
      else if contract = 0 \<or> contract mod PAGE_SIZE_BYTES \<noteq> 0 \<or>
          usize_checked_add contract len = None then
        qemu_exit ContractRejected (snd (write_record dev CONTRACT_INVALID console))
      else kernel_dispatch dev console (memory_slice mem contract len))"

section \<open>What the kernel reports\<close>

text \<open>The abstract behaviour of the entry function: one marker and one exit code.\<close>

definition contract_verdict :: "u8 list \<Rightarrow> u8 list \<times> qemu_exit_code" where
  "contract_verdict bytes =
     (case contract_parse bytes of
        Ok (ValidatedBootInfo info) \<Rightarrow>
          (if scn_kind (scenario info) = SCENARIO_NORMAL then (KERNEL_READY, Success)
           else if scn_kind (scenario info) = DELIBERATE_PANIC then (KERNEL_PANIC, KernelPanic)
           else (CONTRACT_INVALID, ContractRejected))
      | Err (UnsupportedVersion _ _) \<Rightarrow> (ABI_VERSION_REJECTED, ContractRejected)
      | Err (Truncated _ _) \<Rightarrow> (CONTRACT_LENGTH_REJECTED, ContractRejected)
      | Err (LengthMismatch _ _) \<Rightarrow> (CONTRACT_LENGTH_REJECTED, ContractRejected)
      | _ \<Rightarrow> (CONTRACT_INVALID, ContractRejected))"

definition pointer_ok :: "usize \<Rightarrow> usize \<Rightarrow> bool" where
  "pointer_ok contract len \<longleftrightarrow> 0 < contract \<and> 4096 dvd contract \<and> contract + len < 2 ^ 64"

definition kernel_verdict :: "(nat \<Rightarrow> u8) \<Rightarrow> usize \<Rightarrow> usize \<Rightarrow> u8 list \<times> qemu_exit_code" where
  "kernel_verdict mem contract len =
     (if len \<noteq> 4176 then (CONTRACT_LENGTH_REJECTED, ContractRejected)
      else if \<not> pointer_ok contract len then (CONTRACT_INVALID, ContractRejected)
      else contract_verdict (memory_slice mem contract len))"

definition reports :: "io_trace \<Rightarrow> io_trace \<Rightarrow> u8 list \<times> qemu_exit_code \<Rightarrow> bool" where
  "reports tr tr' v \<longleftrightarrow>
     debugcon_stream tr' = debugcon_stream tr @ fst v @ [0x0A] \<and>
     exit_codes tr' = exit_codes tr @ [exit_code_value (snd v)]"

lemma emit_reports:
  assumes "length marker \<le> 256"
  shows "reports tr (qemu_exit code (snd (write_record dev marker (console_new tr)))) (marker, code)"
  using assms write_record_effect(2,3) [OF console_new_ready [of tr], where dev = dev and line = marker]
  by (simp add: reports_def qemu_exit_def out_u32_def QEMU_EXIT_def console_new_streams
      MAX_RECORD_BYTES_def)

lemma kernel_marker_length:
  "length KERNEL_READY \<le> 256" "length ABI_VERSION_REJECTED \<le> 256"
  "length CONTRACT_LENGTH_REJECTED \<le> 256" "length CONTRACT_INVALID \<le> 256" "length KERNEL_PANIC \<le> 256"
  by (simp_all add: kernel_marker_defs)

lemmas kernel_reports = kernel_marker_length [THEN emit_reports]

lemma reports_console_new:
  "reports (snd (console_new tr)) tr' v \<longleftrightarrow> reports tr tr' v"
  by (simp add: reports_def console_new_streams)

lemma kernel_panic_reports: "reports tr (kernel_panic_handler dev tr) (KERNEL_PANIC, KernelPanic)"
  by (simp add: kernel_panic_handler_def kernel_reports)

lemma kernel_pointer_check:
  "(contract = 0 \<or> contract mod PAGE_SIZE_BYTES \<noteq> 0 \<or> usize_checked_add contract len = None) \<longleftrightarrow>
    \<not> pointer_ok contract len"
  by (auto simp: PAGE_SIZE_BYTES_def usize_checked_add_def pointer_ok_def dvd_eq_mod_eq_0)

lemma kernel_dispatch_reports:
  "reports tr (kernel_dispatch dev (console_new tr) bytes) (contract_verdict bytes)"
proof -
  have panic: "reports tr (kernel_panic_handler dev (snd (console_new tr))) (KERNEL_PANIC, KernelPanic)"
    using kernel_panic_reports [of "snd (console_new tr)" dev] by (simp only: reports_console_new)
  show ?thesis
  proof (cases "contract_parse bytes")
    case Panic
    then show ?thesis using contract_parse_not_Panic by simp
  next
    case (Err e)
    then show ?thesis
      by (cases e) (simp_all add: kernel_dispatch_def contract_verdict_def kernel_reports)
  next
    case (Ok v)
    then show ?thesis
      using panic by (cases v) (simp add: kernel_dispatch_def contract_verdict_def kernel_reports Let_def)
  qed
qed

lemma kernel_main_reports:
  "reports tr (polytope_kernel_main dev mem contract len tr) (kernel_verdict mem contract len)"
  unfolding polytope_kernel_main_def Let_def kernel_pointer_check kernel_verdict_def
    BOOT_INFO_SIZE_def
  by (simp add: kernel_reports kernel_dispatch_reports)

lemma kernel_marker_distinct:
  "KERNEL_READY \<noteq> ABI_VERSION_REJECTED" "KERNEL_READY \<noteq> CONTRACT_LENGTH_REJECTED"
  "KERNEL_READY \<noteq> CONTRACT_INVALID" "KERNEL_READY \<noteq> KERNEL_PANIC"
  by (simp_all add: kernel_marker_defs)

lemma contract_verdict_cases:
  "snd (contract_verdict bytes) = Success \<longleftrightarrow>
    (\<exists>info. valid_contract info \<and> bytes = wire_boot_info info \<and>
      scn_kind (scenario info) = SCENARIO_NORMAL)"
  "snd (contract_verdict bytes) = KernelPanic \<longleftrightarrow>
    (\<exists>info. valid_contract info \<and> bytes = wire_boot_info info \<and>
      scn_kind (scenario info) = DELIBERATE_PANIC)"
  "snd (contract_verdict bytes) \<in> {Success, ContractRejected, KernelPanic}"
proof -
  have ex: "(\<exists>info. valid_contract info \<and> bytes = wire_boot_info info \<and> P info) \<longleftrightarrow>
      (\<exists>info. contract_parse bytes = Ok (ValidatedBootInfo info) \<and> P info)" for P
    by (simp add: contract_parse_Ok_iff)
  have kinds: "SCENARIO_NORMAL \<noteq> DELIBERATE_PANIC" by (simp add: scenario_kind_defs)
  show "snd (contract_verdict bytes) = Success \<longleftrightarrow>
    (\<exists>info. valid_contract info \<and> bytes = wire_boot_info info \<and>
      scn_kind (scenario info) = SCENARIO_NORMAL)"
    unfolding ex contract_verdict_def
    by (auto split: outcome.splits validation_error.splits validated_boot_info.splits if_splits)
  show "snd (contract_verdict bytes) = KernelPanic \<longleftrightarrow>
    (\<exists>info. valid_contract info \<and> bytes = wire_boot_info info \<and>
      scn_kind (scenario info) = DELIBERATE_PANIC)"
    unfolding ex contract_verdict_def using kinds
    by (auto split: outcome.splits validation_error.splits validated_boot_info.splits if_splits)
  show "snd (contract_verdict bytes) \<in> {Success, ContractRejected, KernelPanic}"
    unfolding contract_verdict_def
    by (auto split: outcome.splits validation_error.splits validated_boot_info.splits if_splits)
qed

definition kernel_reports_allowed :: "(u8 list \<times> qemu_exit_code) list" where
  "kernel_reports_allowed =
     [(KERNEL_READY, Success), (KERNEL_PANIC, KernelPanic), (ABI_VERSION_REJECTED, ContractRejected),
      (CONTRACT_LENGTH_REJECTED, ContractRejected), (CONTRACT_INVALID, ContractRejected)]"

lemma kernel_rejections_distinct:
  "ABI_VERSION_REJECTED \<noteq> CONTRACT_LENGTH_REJECTED" "ABI_VERSION_REJECTED \<noteq> CONTRACT_INVALID"
  "ABI_VERSION_REJECTED \<noteq> KERNEL_PANIC" "CONTRACT_LENGTH_REJECTED \<noteq> CONTRACT_INVALID"
  "CONTRACT_LENGTH_REJECTED \<noteq> KERNEL_PANIC" "CONTRACT_INVALID \<noteq> KERNEL_PANIC"
  by (simp_all add: kernel_marker_defs)

lemma kernel_marker_one_line:
  "v \<in> set kernel_reports_allowed \<Longrightarrow> 0x0A \<notin> set (fst v)"
proof -
  have "list_all (\<lambda>v. 0x0A \<notin> set (fst v)) kernel_reports_allowed" by code_simp
  then show "v \<in> set kernel_reports_allowed \<Longrightarrow> 0x0A \<notin> set (fst v)" by (simp add: list_all_iff)
qed

text \<open>
  For a buffer of the contract's size the length errors do not occur, and the version error comes
  from the header alone.
\<close>

definition length_or_version :: "validation_error \<Rightarrow> bool" where
  "length_or_version e \<longleftrightarrow>
     (case e of Truncated _ _ \<Rightarrow> True | LengthMismatch _ _ \<Rightarrow> True | UnsupportedVersion _ _ \<Rightarrow> True | _ \<Rightarrow> False)"

lemma length_or_version_simps [simp]:
  "length_or_version (Truncated a b)" "length_or_version (LengthMismatch a b)"
  "length_or_version (UnsupportedVersion v w)"
  by (simp_all add: length_or_version_def)

lemma check_region_error: "check_region index previous region = Err e \<Longrightarrow> \<not> length_or_version e"
  by (auto simp: check_region_def Let_def length_or_version_def and_then_Err_iff ok_or_def
      split: if_splits option.splits prod.splits)

lemma check_regions_error:
  "check_regions index previous rs = Err e \<Longrightarrow> \<not> length_or_version e"
  by (induction index previous rs rule: check_regions.induct)
    (auto simp: and_then_Err_iff dest: check_region_error)

lemma check_unused_error: "check_unused count offset rs = Err e \<Longrightarrow> \<not> length_or_version e"
proof (induction count offset rs rule: check_unused.induct)
  case (2 count offset region rest)
  then show ?case
    by (cases "checked_add count offset")
      (auto simp: add_or_panic_def length_or_version_def split: if_splits)
qed simp

lemma validate_records_error:
  "validate_platform p = Err e \<Longrightarrow> \<not> length_or_version e"
  "validate_scenario s = Err e \<Longrightarrow> \<not> length_or_version e"
  "validate_regions info = Err e \<Longrightarrow> \<not> length_or_version e"
proof -
  show "validate_platform p = Err e \<Longrightarrow> \<not> length_or_version e"
    by (auto simp: validate_platform_def Let_def length_or_version_def split: if_splits)
  show "validate_scenario s = Err e \<Longrightarrow> \<not> length_or_version e"
    by (auto simp: validate_scenario_def length_or_version_def split: if_splits)
  show "validate_regions info = Err e \<Longrightarrow> \<not> length_or_version e"
    by (auto simp: validate_regions_def Let_def and_then_Err_iff slice_at_def or_panic_def split: if_splits option.splits
        dest: check_regions_error check_unused_error)
qed

lemma contract_parse_errors:
  assumes "length bytes = 4176"
  shows "contract_parse bytes \<noteq> Err (Truncated a b)" "contract_parse bytes \<noteq> Err (LengthMismatch a b)"
    and "contract_parse bytes = Err (UnsupportedVersion major minor) \<longleftrightarrow>
      (\<exists>info. boot_info_typed info \<and> bytes = wire_boot_info info \<and> hdr_magic (header info) = BOOT_MAGIC \<and>
        (abi_major (header info), abi_minor (header info)) = (major, minor) \<and>
        (major, minor) \<noteq> (ABI_MAJOR, ABI_MINOR))"
proof -
  obtain info where info: "boot_info_typed info" "wire_boot_info info = bytes"
    and parse: "contract_parse bytes = and_then (prevalidate bytes) (\<lambda>_. boot_info_validate info)"
    using contract_parse_decodes [of bytes] assms by (auto simp: BOOT_INFO_SIZE_def)
  have head: "wire_boot_header (header info) = take 32 bytes" "length (hdr_magic (header info)) = 8"
    using info by (auto simp: wire_boot_info_def boot_info_typed_def codec_header.enc_width)
  have pre: "prevalidate bytes = Err e \<longleftrightarrow> validate_header (header info) = Err e" for e
    using prevalidate_eq [OF _ head] assms by (simp add: and_then_Err_iff)
  have rest: "\<not> length_or_version e"
    if "boot_info_validate info = Err e" "prevalidate bytes = Ok p" for e p
  proof -
    have "validate_header (header info) = Ok ()"
      using that(2) prevalidate_eq [OF _ head] assms by (auto simp: outcome_simps)
    then show ?thesis
      using that(1) validate_records_error by (auto simp: boot_info_validate_def validate_ref_def and_then_Err_iff)
  qed
  have err: "contract_parse bytes = Err e \<longleftrightarrow> validate_header (header info) = Err e" if "length_or_version e" for e
    using rest that parse pre by (auto simp: and_then_Err_iff)
  show "contract_parse bytes \<noteq> Err (Truncated a b)" "contract_parse bytes \<noteq> Err (LengthMismatch a b)"
    by (simp_all add: err validate_header_def)
  have uniq: "i = info" if "boot_info_typed i" "bytes = wire_boot_info i" for i
    using that info wire_boot_info_inject by auto
  show "contract_parse bytes = Err (UnsupportedVersion major minor) \<longleftrightarrow>
      (\<exists>info. boot_info_typed info \<and> bytes = wire_boot_info info \<and> hdr_magic (header info) = BOOT_MAGIC \<and>
        (abi_major (header info), abi_minor (header info)) = (major, minor) \<and>
        (major, minor) \<noteq> (ABI_MAJOR, ABI_MINOR))"
  proof -
    have "validate_header h = Err (UnsupportedVersion major minor) \<longleftrightarrow>
        hdr_magic h = BOOT_MAGIC \<and> (abi_major h, abi_minor h) = (major, minor) \<and>
        (major, minor) \<noteq> (ABI_MAJOR, ABI_MINOR)" for h
      by (auto simp: validate_header_def simp del: prod.inject)
    moreover have "(\<exists>i. boot_info_typed i \<and> bytes = wire_boot_info i \<and> P i) \<longleftrightarrow> P info" for P
      using info uniq by metis
    ultimately show ?thesis by (simp only: err [OF length_or_version_simps(3)])
  qed
qed

lemma contract_verdict_Err:
  "contract_parse bytes = Err e \<Longrightarrow> contract_verdict bytes =
    (case e of
       UnsupportedVersion _ _ \<Rightarrow> (ABI_VERSION_REJECTED, ContractRejected)
     | Truncated _ _ \<Rightarrow> (CONTRACT_LENGTH_REJECTED, ContractRejected)
     | LengthMismatch _ _ \<Rightarrow> (CONTRACT_LENGTH_REJECTED, ContractRejected)
     | _ \<Rightarrow> (CONTRACT_INVALID, ContractRejected))"
  by (cases e) (simp_all add: contract_verdict_def)

lemma contract_verdict_marker:
  assumes "length bytes = 4176"
  shows "contract_verdict bytes \<in> set kernel_reports_allowed"
    "fst (contract_verdict bytes) \<noteq> CONTRACT_LENGTH_REJECTED"
    "fst (contract_verdict bytes) = ABI_VERSION_REJECTED \<longleftrightarrow>
      (\<exists>major minor. contract_parse bytes = Err (UnsupportedVersion major minor))"
proof -
  note d = kernel_marker_distinct kernel_rejections_distinct
    kernel_marker_distinct [symmetric] kernel_rejections_distinct [symmetric]
  have "contract_verdict bytes \<in> set kernel_reports_allowed \<and>
    fst (contract_verdict bytes) \<noteq> CONTRACT_LENGTH_REJECTED \<and>
    (fst (contract_verdict bytes) = ABI_VERSION_REJECTED \<longleftrightarrow>
      (\<exists>major minor. contract_parse bytes = Err (UnsupportedVersion major minor)))"
  proof (cases "contract_parse bytes")
    case (Ok v)
    then show ?thesis by (cases v) (simp add: contract_verdict_def kernel_reports_allowed_def d)
  next
    case (Err e)
    then show ?thesis
      using contract_parse_errors(1,2) [OF assms]
      by (cases e) (simp_all add: contract_verdict_Err kernel_reports_allowed_def d)
  qed (simp add: contract_parse_not_Panic)
  then show "contract_verdict bytes \<in> set kernel_reports_allowed"
    "fst (contract_verdict bytes) \<noteq> CONTRACT_LENGTH_REJECTED"
    "fst (contract_verdict bytes) = ABI_VERSION_REJECTED \<longleftrightarrow>
      (\<exists>major minor. contract_parse bytes = Err (UnsupportedVersion major minor))"
    by simp_all
qed

lemma kernel_verdict_marker:
  "kernel_verdict mem contract len \<in> set kernel_reports_allowed"
  "fst (kernel_verdict mem contract len) = CONTRACT_LENGTH_REJECTED \<longleftrightarrow> len \<noteq> 4176"
  "fst (kernel_verdict mem contract len) = ABI_VERSION_REJECTED \<longleftrightarrow>
    len = 4176 \<and> pointer_ok contract len \<and>
    (\<exists>info. boot_info_typed info \<and> memory_slice mem contract len = wire_boot_info info \<and>
      hdr_magic (header info) = BOOT_MAGIC \<and>
      (abi_major (header info), abi_minor (header info)) \<noteq> (ABI_MAJOR, ABI_MINOR))"
proof -
  note d = kernel_rejections_distinct kernel_rejections_distinct [symmetric]
  have slice: "length (memory_slice mem contract 4176) = 4176" by (simp add: memory_slice_def)
  note m = contract_verdict_marker [OF slice]
  show "kernel_verdict mem contract len \<in> set kernel_reports_allowed"
    using m(1) by (auto simp: kernel_verdict_def kernel_reports_allowed_def)
  show "fst (kernel_verdict mem contract len) = CONTRACT_LENGTH_REJECTED \<longleftrightarrow> len \<noteq> 4176"
    using m(2) d by (auto simp: kernel_verdict_def)
  show "fst (kernel_verdict mem contract len) = ABI_VERSION_REJECTED \<longleftrightarrow>
    len = 4176 \<and> pointer_ok contract len \<and>
    (\<exists>info. boot_info_typed info \<and> memory_slice mem contract len = wire_boot_info info \<and>
      hdr_magic (header info) = BOOT_MAGIC \<and>
      (abi_major (header info), abi_minor (header info)) \<noteq> (ABI_MAJOR, ABI_MINOR))"
    using m(3) d contract_parse_errors(3) [OF slice] by (auto simp: kernel_verdict_def)
qed


end
