(* ===== verification/Boot_Elf.thy ===== *)
theory Boot_Elf
  imports Byte_Codec
begin

text \<open>
  \<^verbatim>\<open>crates/boot-elf/src/lib.rs\<close>: validation of the kernel ELF image and the iterator over its load
  segments.  Functions that return \<^verbatim>\<open>Option\<close> and contain unchecked arithmetic are modelled with the
  error type \<^typ>\<open>unit\<close>, so that \<open>Err ()\<close> is \<^verbatim>\<open>None\<close> and a panic stays visible.  The declarative
  reading of "an acceptable kernel image" is \<open>elf_image_ok\<close>.  The constructors \<^verbatim>\<open>Truncated\<close>,
  \<^verbatim>\<open>BadMagic\<close> and \<^verbatim>\<open>UnsupportedVersion\<close> of \<^verbatim>\<open>ParseError\<close> carry the prefix \<open>Elf\<close> because the boot
  contract has errors of the same names.
\<close>

named_theorems elf_consts \<open>the numeric constants of the ELF policy\<close>

section \<open>Constants\<close>

definition MIN_LOAD_ADDRESS :: u64 where [elf_consts]: "MIN_LOAD_ADDRESS = 0x200000"
definition MAX_LOAD_ADDRESS_EXCLUSIVE :: u64 where
  [elf_consts]: "MAX_LOAD_ADDRESS_EXCLUSIVE = 0x40000000"
definition KERNEL_BASE_ADDRESS :: u64 where [elf_consts]: "KERNEL_BASE_ADDRESS = 0x04000000"
definition KERNEL_LOAD_LIMIT :: u64 where [elf_consts]: "KERNEL_LOAD_LIMIT = 0x04800000"
definition STACK_GUARD_ADDRESS :: u64 where [elf_consts]: "STACK_GUARD_ADDRESS = 0x047ff000"
definition STACK_BASE_ADDRESS :: u64 where [elf_consts]: "STACK_BASE_ADDRESS = 0x04800000"
definition STACK_SIZE_BYTES :: u64 where [elf_consts]: "STACK_SIZE_BYTES = 0x00010000"
definition MAX_ELF_FILE_SIZE :: usize where [elf_consts]: "MAX_ELF_FILE_SIZE = 16 * 1024 * 1024"
definition MAX_PROGRAM_HEADERS :: u16 where [elf_consts]: "MAX_PROGRAM_HEADERS = 8"
definition MAX_LOAD_SEGMENTS :: u16 where [elf_consts]: "MAX_LOAD_SEGMENTS = 4"
definition MAX_TOTAL_LOAD_SIZE :: u64 where [elf_consts]: "MAX_TOTAL_LOAD_SIZE = 64 * 1024 * 1024"
definition ELF_PAGE_SIZE :: u64 where [elf_consts]: "ELF_PAGE_SIZE = 4096"
definition MAX_SEGMENT_ALIGNMENT :: u64 where [elf_consts]: "MAX_SEGMENT_ALIGNMENT = 2 * 1024 * 1024"
definition ELF_HEADER_SIZE :: usize where [elf_consts]: "ELF_HEADER_SIZE = 64"
definition PROGRAM_HEADER_SIZE :: usize where [elf_consts]: "PROGRAM_HEADER_SIZE = 56"
definition ELF_HEADER_SIZE_U16 :: u16 where [elf_consts]: "ELF_HEADER_SIZE_U16 = 64"
definition PROGRAM_HEADER_SIZE_U16 :: u16 where [elf_consts]: "PROGRAM_HEADER_SIZE_U16 = 56"
definition ELF_MAGIC :: "u8 list" where [elf_consts]: "ELF_MAGIC = [0x7f, 0x45, 0x4c, 0x46]"
definition ELFCLASS64 :: u8 where [elf_consts]: "ELFCLASS64 = 2"
definition ELFDATA2LSB :: u8 where [elf_consts]: "ELFDATA2LSB = 1"
definition EV_CURRENT_U8 :: u8 where [elf_consts]: "EV_CURRENT_U8 = 1"
definition EV_CURRENT_U32 :: u32 where [elf_consts]: "EV_CURRENT_U32 = 1"
definition ELFOSABI_SYSV :: u8 where [elf_consts]: "ELFOSABI_SYSV = 0"
definition ET_EXEC :: u16 where [elf_consts]: "ET_EXEC = 2"
definition EM_X86_64 :: u16 where [elf_consts]: "EM_X86_64 = 62"
definition PT_NULL :: u32 where [elf_consts]: "PT_NULL = 0"
definition PT_LOAD :: u32 where [elf_consts]: "PT_LOAD = 1"
definition PF_X :: u32 where [elf_consts]: "PF_X = 1"
definition PF_W :: u32 where [elf_consts]: "PF_W = 2"
definition PF_R :: u32 where [elf_consts]: "PF_R = 4"
definition KNOWN_SEGMENT_FLAGS :: u32 where
  [elf_consts]: "KNOWN_SEGMENT_FLAGS = PF_X OR PF_W OR PF_R"

section \<open>Data\<close>

datatype segment_flags = SegmentFlags (flag_bits: u32)

definition is_readable :: "segment_flags \<Rightarrow> bool" where
  "is_readable f \<longleftrightarrow> flag_bits f AND PF_R \<noteq> 0"
definition is_writable :: "segment_flags \<Rightarrow> bool" where
  "is_writable f \<longleftrightarrow> flag_bits f AND PF_W \<noteq> 0"
definition is_executable :: "segment_flags \<Rightarrow> bool" where
  "is_executable f \<longleftrightarrow> flag_bits f AND PF_X \<noteq> 0"

record load_segment =
  seg_index :: u16
  seg_flags :: segment_flags
  seg_file_offset :: u64
  seg_virtual_address :: u64
  seg_physical_address :: u64
  seg_file_size :: u64
  seg_memory_size :: u64
  seg_alignment :: u64
  seg_file_data :: "u8 list"

definition zero_fill_size :: "load_segment \<Rightarrow> ('e, u64) outcome" where
  "zero_fill_size s = sub_or_panic (seg_memory_size s) (seg_file_size s)"

record validated_elf =
  elf_bytes :: "u8 list"
  elf_entry_point :: u64
  elf_program_header_offset :: usize
  elf_program_header_count :: u16
  elf_load_segment_count :: u16

record load_segments =
  it_bytes :: "u8 list"
  it_program_header_offset :: usize
  it_program_header_count :: u16
  it_next_index :: u16

record elf_header =
  eh_entry :: u64
  eh_program_header_offset :: usize
  eh_program_header_count :: u16
  eh_program_header_table_end :: u64
  eh_file_size :: u64

record program_header =
  ph_kind :: u32
  ph_flags :: u32
  ph_file_offset :: u64
  ph_virtual_address :: u64
  ph_physical_address :: u64
  ph_file_size :: u64
  ph_memory_size :: u64
  ph_alignment :: u64

datatype parse_error =
    ElfTruncated usize usize
  | FileTooLarge usize usize
  | ElfBadMagic
  | UnsupportedClass u8
  | UnsupportedByteOrder u8
  | UnsupportedIdentificationVersion u8
  | UnsupportedOsAbi u8
  | UnsupportedAbiVersion u8
  | NonZeroIdentificationPadding
  | UnsupportedObjectType u16
  | UnsupportedMachine u16
  | ElfUnsupportedVersion u32
  | UnsupportedElfFlags u32
  | InvalidHeaderSize u16 u16
  | InvalidProgramHeaderSize u16 u16
  | InvalidProgramHeaderCount u16 u16
  | ProgramHeaderTableOverlapsHeader u64
  | ProgramHeaderTableOverflow
  | ProgramHeaderTableOutOfBounds u64 u64
  | UnsupportedProgramHeaderType u16 u32
  | TooManyLoadSegments u16 u16
  | NoLoadSegments
  | UnknownSegmentFlags u16 u32
  | NonReadableSegment u16
  | WriteExecuteSegment u16
  | EmptyMemorySegment u16
  | FileLargerThanMemory u16 u64 u64
  | SegmentFileRangeOverflow u16
  | SegmentFileRangeOutOfBounds u16 u64 u64
  | SegmentMemoryRangeOverflow u16
  | SegmentOutsideLoadWindow u16 u64 u64
  | VirtualPhysicalAddressMismatch u16 u64 u64
  | InvalidSegmentAlignment u16 u64
  | MisalignedSegment u16 u64 u64 u64
  | UnsortedSegments u16 u16
  | OverlappingSegments u16 u16
  | TotalLoadSizeOverflow
  | TotalLoadSizeTooLarge u64 u64
  | EntryOutsideLoadWindow u64
  | EntryNotExecutable u64

section \<open>Field access\<close>

definition elf_read_array :: "usize \<Rightarrow> u8 list \<Rightarrow> usize \<Rightarrow> u8 list option" where
  "elf_read_array n bytes offset =
     (case usize_checked_add offset n of
        None \<Rightarrow> None
      | Some stop \<Rightarrow> slice_get bytes offset stop)"

definition read_u16 :: "u8 list \<Rightarrow> usize \<Rightarrow> u16 option" where
  "read_u16 bytes offset = map_option from_le_bytes (elf_read_array 2 bytes offset)"
definition read_u32 :: "u8 list \<Rightarrow> usize \<Rightarrow> u32 option" where
  "read_u32 bytes offset = map_option from_le_bytes (elf_read_array 4 bytes offset)"
definition read_u64 :: "u8 list \<Rightarrow> usize \<Rightarrow> u64 option" where
  "read_u64 bytes offset = map_option from_le_bytes (elf_read_array 8 bytes offset)"

definition align_up :: "u64 \<Rightarrow> u64 \<Rightarrow> (unit, u64) outcome" where
  "align_up value alignment =
     and_then (sub_or_panic alignment 1) (\<lambda>m.
     and_then (ok_or (checked_add value m) ()) (\<lambda>sum.
     Ok (sum AND NOT m)))"

definition decode_program_header :: "u8 list \<Rightarrow> usize \<Rightarrow> u16 \<Rightarrow> (unit, program_header) outcome" where
  "decode_program_header bytes table_offset index =
     and_then (ok_or (usize_checked_mul (unat index) PROGRAM_HEADER_SIZE) ()) (\<lambda>rel.
     and_then (ok_or (usize_checked_add table_offset rel) ()) (\<lambda>offset.
     and_then (ok_or (read_u32 bytes offset) ()) (\<lambda>kind.
     and_then (usize_add offset 4) (\<lambda>o4. and_then (ok_or (read_u32 bytes o4) ()) (\<lambda>flags.
     and_then (usize_add offset 8) (\<lambda>o8. and_then (ok_or (read_u64 bytes o8) ()) (\<lambda>file_offset.
     and_then (usize_add offset 16) (\<lambda>o16. and_then (ok_or (read_u64 bytes o16) ()) (\<lambda>vaddr.
     and_then (usize_add offset 24) (\<lambda>o24. and_then (ok_or (read_u64 bytes o24) ()) (\<lambda>paddr.
     and_then (usize_add offset 32) (\<lambda>o32. and_then (ok_or (read_u64 bytes o32) ()) (\<lambda>file_size.
     and_then (usize_add offset 40) (\<lambda>o40. and_then (ok_or (read_u64 bytes o40) ()) (\<lambda>memory_size.
     and_then (usize_add offset 48) (\<lambda>o48. and_then (ok_or (read_u64 bytes o48) ()) (\<lambda>alignment.
     Ok \<lparr>ph_kind = kind, ph_flags = flags, ph_file_offset = file_offset, ph_virtual_address = vaddr,
         ph_physical_address = paddr, ph_file_size = file_size, ph_memory_size = memory_size,
         ph_alignment = alignment\<rparr>)))))))))))))))))"

definition load_segment_from_header ::
    "u8 list \<Rightarrow> u16 \<Rightarrow> program_header \<Rightarrow> load_segment option" where
  "load_segment_from_header bytes index h =
     (case usize_try_from_u64 (ph_file_offset h) of None \<Rightarrow> None | Some start \<Rightarrow>
      case checked_add (ph_file_offset h) (ph_file_size h) of None \<Rightarrow> None | Some file_end \<Rightarrow>
      case usize_try_from_u64 file_end of None \<Rightarrow> None | Some stop \<Rightarrow>
      case slice_get bytes start stop of None \<Rightarrow> None | Some file_data \<Rightarrow>
      Some \<lparr>seg_index = index, seg_flags = SegmentFlags (ph_flags h),
            seg_file_offset = ph_file_offset h, seg_virtual_address = ph_virtual_address h,
            seg_physical_address = ph_physical_address h, seg_file_size = ph_file_size h,
            seg_memory_size = ph_memory_size h, seg_alignment = ph_alignment h,
            seg_file_data = file_data\<rparr>)"

section \<open>Validation\<close>

definition validate_identification :: "u8 list \<Rightarrow> (parse_error, unit) outcome" where
  "validate_identification bytes =
     (if slice_get bytes 0 4 \<noteq> Some ELF_MAGIC then Err ElfBadMagic else
      and_then (index_at bytes 4) (\<lambda>b4. if b4 \<noteq> ELFCLASS64 then Err (UnsupportedClass b4) else
      and_then (index_at bytes 5) (\<lambda>b5. if b5 \<noteq> ELFDATA2LSB then Err (UnsupportedByteOrder b5) else
      and_then (index_at bytes 6) (\<lambda>b6.
        if b6 \<noteq> EV_CURRENT_U8 then Err (UnsupportedIdentificationVersion b6) else
      and_then (index_at bytes 7) (\<lambda>b7. if b7 \<noteq> ELFOSABI_SYSV then Err (UnsupportedOsAbi b7) else
      and_then (index_at bytes 8) (\<lambda>b8. if b8 \<noteq> 0 then Err (UnsupportedAbiVersion b8) else
      and_then (slice_at bytes 9 16) (\<lambda>padding.
        if list_ex (\<lambda>b. b \<noteq> 0) padding then Err NonZeroIdentificationPadding else Ok ())))))))"

definition parse_header :: "u8 list \<Rightarrow> (parse_error, elf_header) outcome" where
  "parse_header bytes =
     (let truncated = ElfTruncated (length bytes) ELF_HEADER_SIZE in
      and_then (ok_or (read_u16 bytes 16) truncated) (\<lambda>object_type.
      and_then (ok_or (read_u16 bytes 18) truncated) (\<lambda>machine.
      and_then (ok_or (read_u32 bytes 20) truncated) (\<lambda>version.
      and_then (ok_or (read_u64 bytes 24) truncated) (\<lambda>entry.
      and_then (ok_or (read_u64 bytes 32) truncated) (\<lambda>program_header_offset.
      and_then (ok_or (read_u32 bytes 48) truncated) (\<lambda>flags.
      and_then (ok_or (read_u16 bytes 52) truncated) (\<lambda>header_size.
      and_then (ok_or (read_u16 bytes 54) truncated) (\<lambda>program_header_size.
      and_then (ok_or (read_u16 bytes 56) truncated) (\<lambda>program_header_count.
      if object_type \<noteq> ET_EXEC then Err (UnsupportedObjectType object_type)
      else if machine \<noteq> EM_X86_64 then Err (UnsupportedMachine machine)
      else if version \<noteq> EV_CURRENT_U32 then Err (ElfUnsupportedVersion version)
      else if flags \<noteq> 0 then Err (UnsupportedElfFlags flags)
      else if header_size \<noteq> ELF_HEADER_SIZE_U16
        then Err (InvalidHeaderSize header_size ELF_HEADER_SIZE_U16)
      else if program_header_size \<noteq> PROGRAM_HEADER_SIZE_U16
        then Err (InvalidProgramHeaderSize program_header_size PROGRAM_HEADER_SIZE_U16)
      else if program_header_count = 0 \<or> program_header_count > MAX_PROGRAM_HEADERS
        then Err (InvalidProgramHeaderCount program_header_count MAX_PROGRAM_HEADERS)
      else if program_header_offset < 64
        then Err (ProgramHeaderTableOverlapsHeader program_header_offset)
      else
        and_then (ok_or (checked_mul (ucast program_header_count) 56) ProgramHeaderTableOverflow)
          (\<lambda>table_size.
        and_then (ok_or (checked_add program_header_offset table_size) ProgramHeaderTableOverflow)
          (\<lambda>table_end.
        let file_size = (case u64_try_from_usize (length bytes) of None \<Rightarrow> - 1 | Some n \<Rightarrow> n) in
        if table_end > file_size then Err (ProgramHeaderTableOutOfBounds table_end file_size)
        else
          and_then (ok_or (usize_try_from_u64 program_header_offset)
              (ProgramHeaderTableOutOfBounds table_end file_size)) (\<lambda>offset.
          if \<not> (MIN_LOAD_ADDRESS \<le> entry \<and> entry < MAX_LOAD_ADDRESS_EXCLUSIVE)
            then Err (EntryOutsideLoadWindow entry)
          else Ok \<lparr>eh_entry = entry, eh_program_header_offset = offset,
                   eh_program_header_count = program_header_count,
                   eh_program_header_table_end = table_end, eh_file_size = file_size\<rparr>)))))))))))))"

definition validate_load_segment ::
    "u16 \<Rightarrow> program_header \<Rightarrow> u64 \<Rightarrow> (parse_error, u64) outcome" where
  "validate_load_segment index h file_size =
     (if ph_flags h AND NOT KNOWN_SEGMENT_FLAGS \<noteq> 0 then Err (UnknownSegmentFlags index (ph_flags h))
      else if ph_flags h AND PF_R = 0 then Err (NonReadableSegment index)
      else if ph_flags h AND (PF_W OR PF_X) = (PF_W OR PF_X) then Err (WriteExecuteSegment index)
      else if ph_memory_size h = 0 then Err (EmptyMemorySegment index)
      else if ph_file_size h > ph_memory_size h
        then Err (FileLargerThanMemory index (ph_file_size h) (ph_memory_size h))
      else
        and_then (ok_or (checked_add (ph_file_offset h) (ph_file_size h))
            (SegmentFileRangeOverflow index)) (\<lambda>file_end.
        if file_end > file_size then Err (SegmentFileRangeOutOfBounds index file_end file_size)
        else if ph_virtual_address h \<noteq> ph_physical_address h
          then Err (VirtualPhysicalAddressMismatch index (ph_virtual_address h) (ph_physical_address h))
        else if \<not> is_power_of_two (ph_alignment h) \<or>
            \<not> (ELF_PAGE_SIZE \<le> ph_alignment h \<and> ph_alignment h \<le> MAX_SEGMENT_ALIGNMENT)
          then Err (InvalidSegmentAlignment index (ph_alignment h))
        else if ph_physical_address h mod ELF_PAGE_SIZE \<noteq> 0 \<or>
            ph_physical_address h mod ph_alignment h \<noteq> ph_file_offset h mod ph_alignment h
          then Err (MisalignedSegment index (ph_physical_address h) (ph_file_offset h) (ph_alignment h))
        else
          and_then (ok_or (checked_add (ph_physical_address h) (ph_memory_size h))
              (SegmentMemoryRangeOverflow index)) (\<lambda>stop.
          if ph_physical_address h < MIN_LOAD_ADDRESS \<or> stop > MAX_LOAD_ADDRESS_EXCLUSIVE
            then Err (SegmentOutsideLoadWindow index (ph_physical_address h) stop)
          else Ok stop)))"

text \<open>The four mutable locals of the program-header loop.\<close>

record ph_state =
  load_count :: u16
  total_load_size :: u64
  ph_previous :: "(u16 \<times> u64 \<times> u64) option"
  entry_is_executable :: bool

definition ph_initial :: ph_state where
  "ph_initial = \<lparr>load_count = 0, total_load_size = 0, ph_previous = None, entry_is_executable = False\<rparr>"

text \<open>The part of the loop body after the header is known to be \<^verbatim>\<open>PT_LOAD\<close>.\<close>

definition ph_load_step ::
    "elf_header \<Rightarrow> u16 \<Rightarrow> program_header \<Rightarrow> ph_state \<Rightarrow> (parse_error, ph_state) outcome" where
  "ph_load_step elf index h st =
     and_then (add_or_panic (load_count st) 1) (\<lambda>count.
     if count > MAX_LOAD_SEGMENTS then Err (TooManyLoadSegments count MAX_LOAD_SEGMENTS) else
     and_then (validate_load_segment index h (eh_file_size elf)) (\<lambda>stop.
     and_then (map_err (\<lambda>_. SegmentMemoryRangeOverflow index) (align_up stop ELF_PAGE_SIZE))
       (\<lambda>page_end.
     and_then
       (case ph_previous st of
          None \<Rightarrow> Ok ()
        | Some (previous_index, previous_start, previous_end) \<Rightarrow>
            if ph_physical_address h < previous_start then Err (UnsortedSegments previous_index index)
            else if ph_physical_address h < previous_end
              then Err (OverlappingSegments previous_index index)
            else Ok ()) (\<lambda>_.
     and_then (ok_or (checked_add (total_load_size st) (ph_memory_size h)) TotalLoadSizeOverflow)
       (\<lambda>total.
     if total > MAX_TOTAL_LOAD_SIZE then Err (TotalLoadSizeTooLarge total MAX_TOTAL_LOAD_SIZE) else
     and_then
       (if ph_flags h AND PF_X \<noteq> 0 \<and> eh_entry elf \<ge> ph_virtual_address h
        then and_then (add_or_panic (ph_virtual_address h) (ph_memory_size h)) (\<lambda>stop.
             Ok (eh_entry elf < stop))
        else Ok False) (\<lambda>contains_entry.
     Ok \<lparr>load_count = count, total_load_size = total,
         ph_previous = Some (index, ph_physical_address h, page_end),
         entry_is_executable = entry_is_executable st \<or> contains_entry\<rparr>))))))"

definition ph_step ::
    "u8 list \<Rightarrow> elf_header \<Rightarrow> u16 \<Rightarrow> ph_state \<Rightarrow> (parse_error, ph_state) outcome" where
  "ph_step bytes elf index st =
     and_then (map_err (\<lambda>_. ProgramHeaderTableOutOfBounds (eh_program_header_table_end elf)
         (eh_file_size elf))
       (decode_program_header bytes (eh_program_header_offset elf) index)) (\<lambda>h.
     if ph_kind h = PT_NULL then Ok st
     else if ph_kind h \<noteq> PT_LOAD then Err (UnsupportedProgramHeaderType index (ph_kind h))
     else ph_load_step elf index h st)"

fun ph_loop ::
    "u8 list \<Rightarrow> elf_header \<Rightarrow> u16 list \<Rightarrow> ph_state \<Rightarrow> (parse_error, ph_state) outcome" where
  "ph_loop bytes elf [] st = Ok st"
| "ph_loop bytes elf (index # rest) st =
     and_then (ph_step bytes elf index st) (\<lambda>st. ph_loop bytes elf rest st)"

definition validate_program_headers :: "u8 list \<Rightarrow> elf_header \<Rightarrow> (parse_error, u16) outcome" where
  "validate_program_headers bytes elf =
     and_then (ph_loop bytes elf (map of_nat [0..<unat (eh_program_header_count elf)]) ph_initial)
       (\<lambda>st.
     if load_count st = 0 then Err NoLoadSegments
     else if \<not> entry_is_executable st then Err (EntryNotExecutable (eh_entry elf))
     else Ok (load_count st))"

definition elf_parse :: "u8 list \<Rightarrow> (parse_error, validated_elf) outcome" where
  "elf_parse bytes =
     (if length bytes < ELF_HEADER_SIZE then Err (ElfTruncated (length bytes) ELF_HEADER_SIZE)
      else if length bytes > MAX_ELF_FILE_SIZE
        then Err (FileTooLarge (length bytes) MAX_ELF_FILE_SIZE)
      else
        and_then (validate_identification bytes) (\<lambda>_.
        and_then (parse_header bytes) (\<lambda>h.
        and_then (validate_program_headers bytes h) (\<lambda>count.
        Ok \<lparr>elf_bytes = bytes, elf_entry_point = eh_entry h,
            elf_program_header_offset = eh_program_header_offset h,
            elf_program_header_count = eh_program_header_count h,
            elf_load_segment_count = count\<rparr>))))"

section \<open>The segment iterator\<close>

definition segments :: "validated_elf \<Rightarrow> load_segments" where
  "segments v =
     \<lparr>it_bytes = elf_bytes v, it_program_header_offset = elf_program_header_offset v,
      it_program_header_count = elf_program_header_count v, it_next_index = 0\<rparr>"

lemma next_index_decreases:
  "n < c \<Longrightarrow> add_or_panic n 1 = (Ok m :: ('e, _) outcome) \<Longrightarrow> unat c - unat m < unat c - unat n"
  for n c m :: "'a::len word"
  by (drule unat_add_or_panic) (simp add: word_less_nat_alt)

function load_segments_next ::
    "load_segments \<Rightarrow> (unit, load_segment option \<times> load_segments) outcome" where
  "load_segments_next it =
     (if it_next_index it < it_program_header_count it then
        (let index = it_next_index it in
         case add_or_panic index 1 of
           Panic \<Rightarrow> Panic
         | Err e \<Rightarrow> Err e
         | Ok following \<Rightarrow>
             let it' = it\<lparr>it_next_index := following\<rparr> in
             (case decode_program_header (it_bytes it') (it_program_header_offset it') index of
                Panic \<Rightarrow> Panic
              | Err _ \<Rightarrow> Ok (None, it')
              | Ok h \<Rightarrow>
                  if ph_kind h = PT_LOAD
                  then Ok (load_segment_from_header (it_bytes it') index h, it')
                  else load_segments_next it'))
      else Ok (None, it))"
  by auto
termination
  by (relation "measure (\<lambda>it. unat (it_program_header_count it) - unat (it_next_index it))")
    (auto dest: next_index_decreases)

definition size_hint :: "load_segments \<Rightarrow> ('e, usize \<times> usize option) outcome" where
  "size_hint it =
     and_then (sub_or_panic (it_program_header_count it) (it_next_index it)) (\<lambda>n.
     Ok (0, Some (unat n)))"

section \<open>What the validator accepts\<close>

definition le_field :: "usize \<Rightarrow> usize \<Rightarrow> u8 list \<Rightarrow> 'a::len word" where
  "le_field n offset bytes = from_le_bytes (take n (drop offset bytes))"

definition ph_at :: "u8 list \<Rightarrow> usize \<Rightarrow> program_header" where
  "ph_at bytes offset =
     \<lparr>ph_kind = le_field 4 offset bytes, ph_flags = le_field 4 (offset + 4) bytes,
      ph_file_offset = le_field 8 (offset + 8) bytes,
      ph_virtual_address = le_field 8 (offset + 16) bytes,
      ph_physical_address = le_field 8 (offset + 24) bytes,
      ph_file_size = le_field 8 (offset + 32) bytes,
      ph_memory_size = le_field 8 (offset + 40) bytes,
      ph_alignment = le_field 8 (offset + 48) bytes\<rparr>"

lemma read_in_range:
  assumes "length bytes < usize_limit"
  shows "offset + 2 \<le> length bytes \<Longrightarrow> read_u16 bytes offset = Some (le_field 2 offset bytes)"
    and "offset + 4 \<le> length bytes \<Longrightarrow> read_u32 bytes offset = Some (le_field 4 offset bytes)"
    and "offset + 8 \<le> length bytes \<Longrightarrow> read_u64 bytes offset = Some (le_field 8 offset bytes)"
  using assms
  by (simp_all add: read_u16_def read_u32_def read_u64_def elf_read_array_def usize_checked_add_def
      slice_get_def le_field_def)

lemma decode_program_header_in_range:
  assumes "length bytes < usize_limit" and "table_offset + unat index * 56 + 56 \<le> length bytes"
  shows "decode_program_header bytes table_offset index = Ok (ph_at bytes (table_offset + unat index * 56))"
  using assms
  by (simp add: decode_program_header_def PROGRAM_HEADER_SIZE_def usize_checked_mul_def
      usize_checked_add_def usize_add_eq read_in_range ph_at_def add.assoc)

definition page_up :: "nat \<Rightarrow> nat" where
  "page_up n = (n + 4095) div 4096 * 4096"

lemma page_up_ge: "n \<le> page_up n"
  using div_mult_mod_eq [of "n + 4095" 4096] mod_less_divisor [of 4096 "n + 4095"]
  unfolding page_up_def by linarith

lemma align_up_page:
  assumes "unat v + 4095 < 2 ^ 64"
  shows "\<exists>w. align_up v ELF_PAGE_SIZE = Ok w \<and> unat w = page_up (unat v)"
proof -
  have m: "NOT (mask 12 :: u64) = NOT 4095" by (simp add: mask_eq_exp_minus_1)
  have "unat ((v + 4095) AND NOT (mask 12)) = page_up (unat v)"
    unfolding unat_and_not_mask page_up_def using assms by (simp add: unat_add_no_overflow)
  then show ?thesis
    using assms m by (simp add: align_up_def ELF_PAGE_SIZE_def sub_or_panic_eq checked_add_def)
qed

definition segment_end :: "program_header \<Rightarrow> nat" where
  "segment_end h = unat (ph_physical_address h) + unat (ph_memory_size h)"

definition segment_ok :: "nat \<Rightarrow> program_header \<Rightarrow> bool" where
  "segment_ok file_size h \<longleftrightarrow>
     ph_flags h \<in> {4, 5, 6} \<and> 0 < unat (ph_memory_size h) \<and>
     unat (ph_file_size h) \<le> unat (ph_memory_size h) \<and>
     unat (ph_file_offset h) + unat (ph_file_size h) \<le> file_size \<and>
     ph_virtual_address h = ph_physical_address h \<and>
     (\<exists>k \<in> {12..21}. unat (ph_alignment h) = 2 ^ k) \<and>
     4096 dvd unat (ph_physical_address h) \<and>
     unat (ph_physical_address h) mod unat (ph_alignment h) =
       unat (ph_file_offset h) mod unat (ph_alignment h) \<and>
     0x200000 \<le> unat (ph_physical_address h) \<and> segment_end h \<le> 0x40000000"

lemma segment_flags_iff:
  "f AND NOT KNOWN_SEGMENT_FLAGS = 0 \<and> f AND PF_R \<noteq> 0 \<and> f AND (PF_W OR PF_X) \<noteq> (PF_W OR PF_X) \<longleftrightarrow>
    f \<in> {4, 5, 6}"
proof
  assume a: "f AND NOT KNOWN_SEGMENT_FLAGS = 0 \<and> f AND PF_R \<noteq> 0 \<and>
    f AND (PF_W OR PF_X) \<noteq> (PF_W OR PF_X)"
  then have "f AND NOT (mask 3) = 0" by (simp add: elf_consts mask_eq_exp_minus_1)
  then have "unat f div 8 * 8 = 0" using unat_and_not_mask [of f 3] by simp
  then have "unat f < 8" by simp
  then have "unat f \<in> {0, 1, 2, 3, 4, 5, 6, 7}" by auto
  then have "f \<in> {0, 1, 2, 3, 4, 5, 6, 7}"
    using word_eq_unat_iff [of 0 f] word_eq_unat_iff [of 1 f] word_eq_unat_iff [of 2 f]
      word_eq_unat_iff [of 3 f] word_eq_unat_iff [of 4 f] word_eq_unat_iff [of 5 f]
      word_eq_unat_iff [of 6 f] word_eq_unat_iff [of 7 f] by simp
  then show "f \<in> {4, 5, 6}" using a by (auto simp: elf_consts)
qed (auto simp: elf_consts)

lemma alignment_iff:
  "is_power_of_two a \<and> ELF_PAGE_SIZE \<le> a \<and> a \<le> MAX_SEGMENT_ALIGNMENT \<longleftrightarrow>
    (\<exists>k \<in> {12..21}. unat a = 2 ^ k)" for a :: u64
proof -
  have "(2::nat) ^ 12 \<le> 2 ^ k \<and> (2::nat) ^ k \<le> 2 ^ 21 \<longleftrightarrow> k \<in> {12..21}" for k :: nat
    by (simp only: power_increasing_iff one_less_numeral_iff semiring_norm atLeastAtMost_iff)
  then have "unat a = 2 ^ k \<Longrightarrow> ELF_PAGE_SIZE \<le> a \<and> a \<le> MAX_SEGMENT_ALIGNMENT \<longleftrightarrow> k \<in> {12..21}" for k
    by (simp add: elf_consts word_le_nat_alt)
  then show ?thesis by (fastforce simp: is_power_of_two_iff)
qed

lemma checked_add_unat_iff:
  "checked_add a b = Some c \<longleftrightarrow> unat a + unat b < 2 ^ LENGTH('a) \<and> unat c = unat a + unat b"
  for a b c :: "'a::len word"
  by (auto simp: checked_add_Some_iff unat_add_no_overflow word_unat_eq_iff)

lemma word_mod_eq_iff: "a mod m = b mod m \<longleftrightarrow> unat a mod unat m = unat b mod unat m"
  for a b m :: "'a::len word"
  by (simp add: word_unat_eq_iff unat_mod)

lemma validate_load_segment_Ok_iff:
  "validate_load_segment index h file_size = Ok stop \<longleftrightarrow>
    segment_ok (unat file_size) h \<and> unat stop = segment_end h"
proof -
  let ?f = "ph_flags h" and ?a = "ph_alignment h" and ?p = "ph_physical_address h"
  have "validate_load_segment index h file_size = Ok stop \<longleftrightarrow>
      (?f AND NOT KNOWN_SEGMENT_FLAGS = 0 \<and> ?f AND PF_R \<noteq> 0 \<and>
        ?f AND (PF_W OR PF_X) \<noteq> (PF_W OR PF_X)) \<and>
      ph_memory_size h \<noteq> 0 \<and> ph_file_size h \<le> ph_memory_size h \<and>
      (\<exists>e. checked_add (ph_file_offset h) (ph_file_size h) = Some e \<and> e \<le> file_size) \<and>
      ph_virtual_address h = ?p \<and>
      (is_power_of_two ?a \<and> ELF_PAGE_SIZE \<le> ?a \<and> ?a \<le> MAX_SEGMENT_ALIGNMENT) \<and>
      ?p mod ELF_PAGE_SIZE = 0 \<and> ?p mod ?a = ph_file_offset h mod ?a \<and>
      checked_add ?p (ph_memory_size h) = Some stop \<and>
      MIN_LOAD_ADDRESS \<le> ?p \<and> stop \<le> MAX_LOAD_ADDRESS_EXCLUSIVE"
    by (auto simp: validate_load_segment_def outcome_simps not_less)
  also have "\<dots> \<longleftrightarrow> segment_ok (unat file_size) h \<and> unat stop = segment_end h"
  proof -
    have e: "(\<exists>e. checked_add (ph_file_offset h) (ph_file_size h) = Some e \<and> e \<le> file_size) \<longleftrightarrow>
        unat (ph_file_offset h) + unat (ph_file_size h) \<le> unat file_size"
      using unsigned_less [of file_size, where 'a = nat]
      by (auto simp: checked_add_Some_iff word_le_nat_alt unat_add_no_overflow)
    show ?thesis
      unfolding segment_flags_iff alignment_iff e segment_ok_def segment_end_def
      by (auto simp: checked_add_unat_iff word_le_nat_alt word_mod_eq_iff word_mod_eq_0_iff
          elf_consts unat_gt_0)
  qed
  finally show ?thesis .
qed

lemma validate_load_segment_not_Panic: "validate_load_segment index h file_size \<noteq> Panic"
  by (auto simp: validate_load_segment_def outcome_simps)

definition segment_before :: "program_header \<Rightarrow> program_header \<Rightarrow> bool" where
  "segment_before a b \<longleftrightarrow> page_up (segment_end a) \<le> unat (ph_physical_address b)"

definition segment_has :: "u64 \<Rightarrow> program_header \<Rightarrow> bool" where
  "segment_has entry h \<longleftrightarrow>
     ph_flags h = 5 \<and> unat (ph_virtual_address h) \<le> unat entry \<and>
     unat entry < unat (ph_virtual_address h) + unat (ph_memory_size h)"

text \<open>The loop invariant: the counters stay within their limits and \<^verbatim>\<open>previous\<close> is a real range.\<close>

definition ph_inv :: "ph_state \<Rightarrow> bool" where
  "ph_inv st \<longleftrightarrow>
     unat (load_count st) \<le> 4 \<and> unat (total_load_size st) \<le> 64 * 1024 * 1024 \<and>
     (case ph_previous st of None \<Rightarrow> True | Some (i, a, b) \<Rightarrow> a \<le> b)"

definition ph_after :: "ph_state \<Rightarrow> program_header \<Rightarrow> bool" where
  "ph_after st h \<longleftrightarrow>
     (case ph_previous st of None \<Rightarrow> True | Some (i, a, b) \<Rightarrow> unat b \<le> unat (ph_physical_address h))"

lemma entry_check_eq:
  assumes "segment_ok n h"
  shows "(if ph_flags h AND PF_X \<noteq> 0 \<and> entry \<ge> ph_virtual_address h
      then and_then (add_or_panic (ph_virtual_address h) (ph_memory_size h)) (\<lambda>stop. Ok (entry < stop))
      else Ok False) = (Ok (segment_has entry h) :: (parse_error, _) outcome)"
proof -
  have "segment_end h \<le> 0x40000000" "ph_virtual_address h = ph_physical_address h" "ph_flags h \<in> {4, 5, 6}"
    using assms by (simp_all add: segment_ok_def)
  then have "add_or_panic (ph_virtual_address h) (ph_memory_size h) =
      (Ok (ph_virtual_address h + ph_memory_size h) :: (parse_error, _) outcome)"
    "unat (ph_virtual_address h + ph_memory_size h) =
      unat (ph_virtual_address h) + unat (ph_memory_size h)"
    by (simp_all add: add_or_panic_Ok_iff segment_end_def unat_add_no_overflow)
  then show ?thesis
    using \<open>ph_flags h \<in> {4, 5, 6}\<close> by (auto simp: segment_has_def PF_X_def word_le_nat_alt word_less_nat_alt)
qed

lemma order_check_Ok_iff:
  assumes "ph_inv st"
  shows "(case ph_previous st of None \<Rightarrow> Ok ()
        | Some (previous_index, previous_start, previous_end) \<Rightarrow>
            if ph_physical_address h < previous_start then Err (UnsortedSegments previous_index index)
            else if ph_physical_address h < previous_end
              then Err (OverlappingSegments previous_index index)
            else Ok ()) = Ok u \<longleftrightarrow> ph_after st h"
  using assms by (auto simp: ph_inv_def ph_after_def word_le_nat_alt word_less_nat_alt split: option.splits)

lemma ph_load_step_Ok_iff:
  assumes inv: "ph_inv st"
  shows "ph_load_step elf index h st = Ok st' \<longleftrightarrow>
    unat (load_count st) < 4 \<and> segment_ok (unat (eh_file_size elf)) h \<and> ph_after st h \<and>
    unat (total_load_size st) + unat (ph_memory_size h) \<le> 64 * 1024 * 1024 \<and>
    st' = \<lparr>load_count = load_count st + 1, total_load_size = total_load_size st + ph_memory_size h,
           ph_previous = Some (index, ph_physical_address h, of_nat (page_up (segment_end h))),
           entry_is_executable = entry_is_executable st \<or> segment_has (eh_entry elf) h\<rparr>"
  (is "?l \<longleftrightarrow> ?r")
proof (cases "unat (load_count st) < 4 \<and> segment_ok (unat (eh_file_size elf)) h")
  case True
  define stop :: u64 where "stop = of_nat (segment_end h)"
  have bound: "segment_end h \<le> 0x40000000" using True by (simp add: segment_ok_def)
  have stop: "unat stop = segment_end h" using bound by (simp add: stop_def unat_of_nat)
  have v: "validate_load_segment index h (eh_file_size elf) = Ok stop"
    using True stop by (simp add: validate_load_segment_Ok_iff)
  obtain w where w: "align_up stop ELF_PAGE_SIZE = Ok w" "unat w = page_up (segment_end h)"
    using align_up_page [of stop] stop bound by auto
  then have weq: "w = of_nat (page_up (segment_end h))" by (metis of_nat_unat ucast_id)
  have c: "add_or_panic (load_count st) 1 = (Ok (load_count st + 1) :: (parse_error, _) outcome)"
    "unat (load_count st + 1) = Suc (unat (load_count st))"
    using True by (simp_all add: add_or_panic_Ok_iff unat_add_no_overflow)
  have t: "checked_add (total_load_size st) (ph_memory_size h) =
      Some (total_load_size st + ph_memory_size h)"
    "unat (total_load_size st + ph_memory_size h) =
      unat (total_load_size st) + unat (ph_memory_size h)"
    using inv bound by (simp_all add: ph_inv_def segment_end_def checked_add_def unat_add_no_overflow)
  note e = entry_check_eq [OF conjunct2 [OF True]] and p = order_check_Ok_iff [OF inv]
  show ?thesis
    unfolding ph_load_step_def e
    using True c(2) t(2) p weq
    by (auto simp: v w(1) c(1) t(1) outcome_simps MAX_LOAD_SEGMENTS_def MAX_TOTAL_LOAD_SIZE_def
        word_less_nat_alt)
next
  case False
  have "\<not> ?l"
  proof
    assume ?l
    then have "unat (load_count st) + 1 < 2 ^ 16" "\<not> load_count st + 1 > 4"
      "\<exists>stop. validate_load_segment index h (eh_file_size elf) = Ok stop"
      by (auto simp: ph_load_step_def outcome_simps elf_consts split: if_splits)
    then show False
      using False by (simp add: validate_load_segment_Ok_iff word_less_nat_alt unat_add_no_overflow)
  qed
  with False show ?thesis by blast
qed

lemma page_up_bound: "n \<le> 0x40000000 \<Longrightarrow> page_up n \<le> 0x40000000"
proof -
  assume "n \<le> 0x40000000"
  then have "(n + 4095) div 4096 \<le> (0x40000000 + 4095) div 4096" by (intro div_le_mono) simp
  then show ?thesis by (simp add: page_up_def)
qed

lemma ph_load_step_inv:
  assumes "ph_inv st" and "ph_load_step elf index h st = Ok st'"
  shows "ph_inv st'" and "ph_after st' g \<longleftrightarrow> segment_before h g"
    and "unat (load_count st') = Suc (unat (load_count st))"
    and "unat (total_load_size st') = unat (total_load_size st) + unat (ph_memory_size h)"
proof -
  note ok = assms(2) [unfolded ph_load_step_Ok_iff [OF assms(1)]]
  have bound: "page_up (segment_end h) \<le> 0x40000000"
    using ok page_up_bound by (simp add: segment_ok_def)
  then have u: "unat (of_nat (page_up (segment_end h)) :: u64) = page_up (segment_end h)"
    by (simp add: unat_of_nat)
  show g: "ph_after st' g \<longleftrightarrow> segment_before h g"
    using ok u by (simp add: ph_after_def segment_before_def)
  show c: "unat (load_count st') = Suc (unat (load_count st))"
    using ok by (simp add: unat_add_no_overflow)
  show t: "unat (total_load_size st') = unat (total_load_size st) + unat (ph_memory_size h)"
    using ok by (simp add: unat_add_no_overflow)
  have "unat (ph_physical_address h) \<le> page_up (segment_end h)"
    using page_up_ge [of "segment_end h"] by (simp add: segment_end_def)
  then show "ph_inv st'" using ok c t u by (simp add: ph_inv_def word_le_nat_alt)
qed

definition load_headers :: "program_header list \<Rightarrow> program_header list" where
  "load_headers hs = filter (\<lambda>h. ph_kind h = PT_LOAD) hs"

lemma load_headers_simps [simp]:
  "load_headers [] = []"
  "load_headers (h # hs) = (if ph_kind h = PT_LOAD then h # load_headers hs else load_headers hs)"
  by (simp_all add: load_headers_def)

definition loop_accepts :: "elf_header \<Rightarrow> ph_state \<Rightarrow> program_header list \<Rightarrow> bool" where
  "loop_accepts elf st hs \<longleftrightarrow>
     list_all (\<lambda>h. ph_kind h \<in> {PT_NULL, PT_LOAD}) hs \<and>
     unat (load_count st) + length (load_headers hs) \<le> 4 \<and>
     list_all (segment_ok (unat (eh_file_size elf))) (load_headers hs) \<and>
     list_all (ph_after st) (load_headers hs) \<and> sorted_wrt segment_before (load_headers hs) \<and>
     unat (total_load_size st) + sum_list (map (\<lambda>h. unat (ph_memory_size h)) (load_headers hs))
       \<le> 64 * 1024 * 1024"

lemma ph_step_cases:
  assumes "decode_program_header bytes (eh_program_header_offset elf) index = Ok h"
  shows "ph_step bytes elf index st =
    (if ph_kind h = PT_NULL then Ok st
     else if ph_kind h \<noteq> PT_LOAD then Err (UnsupportedProgramHeaderType index (ph_kind h))
     else ph_load_step elf index h st)"
  by (simp add: ph_step_def assms)

lemma loop_accepts_load:
  assumes "ph_inv st" and "ph_load_step elf index h st = Ok st'" and "ph_kind h = PT_LOAD"
  shows "loop_accepts elf st (h # hs) \<longleftrightarrow> loop_accepts elf st' hs"
proof -
  note ok = assms(2) [unfolded ph_load_step_Ok_iff [OF assms(1)]]
  note new = ph_load_step_inv [OF assms(1,2)]
  have trans: "ph_after st g" if "segment_before h g" for g
  proof -
    have "unat (ph_physical_address h) \<le> unat (ph_physical_address g)"
      using that page_up_ge [of "segment_end h"] by (simp add: segment_before_def segment_end_def)
    then show ?thesis using ok by (auto simp: ph_after_def split: option.splits)
  qed
  have after: "list_all (ph_after st') gs \<longleftrightarrow> list_all (segment_before h) gs" for gs
    by (simp add: list_all_iff new(2))
  have weaken: "list_all (segment_before h) gs \<Longrightarrow> list_all (ph_after st) gs" for gs
    using trans by (auto simp: list_all_iff)
  have "unat (load_count st) < 4" "segment_ok (unat (eh_file_size elf)) h" "ph_after st h"
    using ok by simp_all
  then show ?thesis
    using assms(3) weaken [of "load_headers hs"]
    by (auto simp: loop_accepts_def after new(3,4) simp flip: list_all_iff)
qed

lemma loop_accepts_reject:
  assumes "ph_inv st" and "\<not> (\<exists>st'. ph_load_step elf index h st = Ok st')" and "ph_kind h = PT_LOAD"
  shows "\<not> loop_accepts elf st (h # hs)"
  using assms(2,3) unfolding ph_load_step_Ok_iff [OF assms(1)] loop_accepts_def by auto

lemma ph_loop_Ok_iff:
  assumes "ph_inv st"
    and "list_all2 (\<lambda>i h. decode_program_header bytes (eh_program_header_offset elf) i = Ok h) idxs hs"
  shows "(\<exists>st'. ph_loop bytes elf idxs st = Ok st' \<and> load_count st' = c \<and>
      entry_is_executable st' = b) \<longleftrightarrow>
    loop_accepts elf st hs \<and> c = load_count st + of_nat (length (load_headers hs)) \<and>
    b = (entry_is_executable st \<or> list_ex (segment_has (eh_entry elf)) (load_headers hs))"
  using assms(2,1)
proof (induction idxs hs arbitrary: st rule: list_all2_induct)
  case Nil
  then show ?case by (auto simp: loop_accepts_def ph_inv_def)
next
  case (Cons i idxs h hs)
  show ?case
  proof (cases "ph_kind h = PT_LOAD")
    case True
    show ?thesis
    proof (cases "\<exists>st'. ph_load_step elf i h st = Ok st'")
      case t: True
      then obtain st' where st': "ph_load_step elf i h st = Ok st'" by blast
      have "load_count st' = load_count st + 1"
        "entry_is_executable st' = (entry_is_executable st \<or> segment_has (eh_entry elf) h)"
        using st' by (simp_all add: ph_load_step_Ok_iff [OF Cons.prems])
      moreover have "PT_LOAD \<noteq> PT_NULL" by (simp add: elf_consts)
      ultimately show ?thesis
        using Cons.IH [OF ph_load_step_inv(1) [OF Cons.prems st']] True
          loop_accepts_load [OF Cons.prems st' True]
        by (simp add: ph_step_cases [OF Cons.hyps(1)] st' ac_simps)
    next
      case False
      have "PT_LOAD \<noteq> PT_NULL" by (simp add: elf_consts)
      then show ?thesis
        using False loop_accepts_reject [OF Cons.prems False True, of hs] True
        by (simp add: ph_step_cases [OF Cons.hyps(1)] outcome_simps)
    qed
  next
    case False
    then show ?thesis
      using Cons.IH [OF Cons.prems]
      by (auto simp: ph_step_cases [OF Cons.hyps(1)] loop_accepts_def)
  qed
qed

lemma ph_load_step_not_Panic:
  assumes "ph_inv st"
  shows "ph_load_step elf index h st \<noteq> Panic"
proof
  assume p: "ph_load_step elf index h st = Panic"
  have c: "add_or_panic (load_count st) 1 \<noteq> (Panic :: (parse_error, _) outcome)"
    using assms by (simp add: ph_inv_def add_or_panic_Panic_iff)
  from p c obtain stop where stop: "validate_load_segment index h (eh_file_size elf) = Ok stop"
    by (auto simp: ph_load_step_def outcome_simps validate_load_segment_not_Panic split: if_splits)
  then have b: "unat stop = segment_end h" "segment_end h \<le> 0x40000000"
    "ph_virtual_address h = ph_physical_address h"
    by (auto simp: validate_load_segment_Ok_iff segment_ok_def)
  then obtain w where w: "align_up stop ELF_PAGE_SIZE = Ok w"
    using align_up_page [of stop] by auto
  have e: "add_or_panic (ph_virtual_address h) (ph_memory_size h) \<noteq> (Panic :: (parse_error, _) outcome)"
    using b by (simp add: add_or_panic_Panic_iff segment_end_def)
  show False
    using p c e stop w
    by (auto simp: ph_load_step_def outcome_simps split: if_splits option.splits)
qed

lemma ph_loop_not_Panic:
  assumes "ph_inv st"
    and "list_all2 (\<lambda>i h. decode_program_header bytes (eh_program_header_offset elf) i = Ok h) idxs hs"
  shows "ph_loop bytes elf idxs st \<noteq> Panic"
  using assms(2,1)
proof (induction idxs hs arbitrary: st rule: list_all2_induct)
  case Nil
  then show ?case by simp
next
  case (Cons i idxs h hs)
  then show ?case
    using ph_load_step_inv(1) [OF Cons.prems] ph_load_step_not_Panic [OF Cons.prems]
    by (auto simp: ph_step_cases [OF Cons.hyps(1)] outcome_simps)
qed

lemma take_drop_nths:
  "m + n \<le> length xs \<Longrightarrow> take n (drop m xs) = map (\<lambda>i. xs ! (m + i)) [0..<n]"
  by (rule nth_equalityI) simp_all

definition identification_ok :: "u8 list \<Rightarrow> bool" where
  "identification_ok bytes \<longleftrightarrow>
     take 16 bytes = [0x7f, 0x45, 0x4c, 0x46, 2, 1, 1, 0, 0, 0, 0, 0, 0, 0, 0, 0]"

lemma validate_identification_Ok_iff:
  assumes "16 \<le> length bytes"
  shows "validate_identification bytes = Ok u \<longleftrightarrow> identification_ok bytes"
proof -
  have "take 16 bytes = [bytes ! 0, bytes ! 1, bytes ! 2, bytes ! 3, bytes ! 4, bytes ! 5, bytes ! 6,
      bytes ! 7, bytes ! 8, bytes ! 9, bytes ! 10, bytes ! 11, bytes ! 12, bytes ! 13, bytes ! 14,
      bytes ! 15]"
    using take_drop_nths [of 0 16 bytes] assms by (simp add: upt_rec eval_nat_numeral)
  moreover have "slice_get bytes 0 4 = Some [bytes ! 0, bytes ! 1, bytes ! 2, bytes ! 3]"
    using take_drop_nths [of 0 4 bytes] assms by (simp add: slice_get_def upt_rec eval_nat_numeral)
  moreover have "slice_at bytes 9 16 = (Ok [bytes ! 9, bytes ! 10, bytes ! 11, bytes ! 12,
      bytes ! 13, bytes ! 14, bytes ! 15] :: (parse_error, _) outcome)"
    using take_drop_nths [of 9 7 bytes] assms by (simp add: slice_at_simp upt_rec eval_nat_numeral)
  ultimately show ?thesis
    using assms by (simp add: validate_identification_def identification_ok_def elf_consts) blast
qed

lemma validate_identification_not_Panic:
  "16 \<le> length bytes \<Longrightarrow> validate_identification bytes \<noteq> Panic"
  by (simp add: validate_identification_def slice_at_simp)

definition elf_header_fields_ok :: "u8 list \<Rightarrow> bool" where
  "elf_header_fields_ok bytes \<longleftrightarrow>
     (le_field 2 16 bytes :: u16) = 2 \<and> (le_field 2 18 bytes :: u16) = 62 \<and>
     (le_field 4 20 bytes :: u32) = 1 \<and> (le_field 4 48 bytes :: u32) = 0 \<and>
     (le_field 2 52 bytes :: u16) = 64 \<and> (le_field 2 54 bytes :: u16) = 56"

abbreviation ph_entry :: "u8 list \<Rightarrow> u64" where
  "ph_entry bytes \<equiv> le_field 8 24 bytes"
abbreviation ph_offset :: "u8 list \<Rightarrow> u64" where
  "ph_offset bytes \<equiv> le_field 8 32 bytes"
abbreviation ph_count :: "u8 list \<Rightarrow> u16" where
  "ph_count bytes \<equiv> le_field 2 56 bytes"

definition ph_table_ok :: "u8 list \<Rightarrow> bool" where
  "ph_table_ok bytes \<longleftrightarrow>
     1 \<le> unat (ph_count bytes) \<and> unat (ph_count bytes) \<le> 8 \<and> 64 \<le> unat (ph_offset bytes) \<and>
     unat (ph_offset bytes) + unat (ph_count bytes) * 56 \<le> length bytes"

definition entry_in_window :: "u8 list \<Rightarrow> bool" where
  "entry_in_window bytes \<longleftrightarrow>
     0x200000 \<le> unat (ph_entry bytes) \<and> unat (ph_entry bytes) < 0x40000000"

lemma parse_header_Ok_iff:
  assumes "64 \<le> length bytes" and "length bytes \<le> MAX_ELF_FILE_SIZE"
  shows "parse_header bytes = Ok h \<longleftrightarrow>
    elf_header_fields_ok bytes \<and> ph_table_ok bytes \<and> entry_in_window bytes \<and>
    h = \<lparr>eh_entry = ph_entry bytes, eh_program_header_offset = unat (ph_offset bytes),
         eh_program_header_count = ph_count bytes,
         eh_program_header_table_end = ph_offset bytes + ucast (ph_count bytes) * 56,
         eh_file_size = of_nat (length bytes)\<rparr>"
    and "parse_header bytes \<noteq> Panic"
proof -
  let ?n = "ucast (ph_count bytes) :: u64"
  have len: "length bytes < usize_limit" using assms(2) by (simp add: elf_consts)
  have fs: "unat (of_nat (length bytes) :: u64) = length bytes"
    using assms(2) by (simp add: elf_consts unat_of_nat)
  have n: "unat ?n = unat (ph_count bytes)" by (simp add: unat_ucast_up)
  have m: "checked_mul ?n 56 = Some (?n * 56)" "unat (?n * 56) = unat (ph_count bytes) * 56"
    using n unsigned_less [of "ph_count bytes", where 'a = nat]
    by (simp_all add: checked_mul_def unat_word_ariths)
  have cnt: "ph_count bytes = 0 \<longleftrightarrow> \<not> 1 \<le> unat (ph_count bytes)"
    by (simp add: unat_eq_zero not_less_eq_eq)
  have tab: "checked_add (ph_offset bytes) (?n * 56) = Some e \<longleftrightarrow>
      unat (ph_offset bytes) + unat (ph_count bytes) * 56 < 2 ^ 64 \<and> e = ph_offset bytes + ?n * 56" for e
    by (simp add: checked_add_Some_iff m(2))
  have tabu: "unat (ph_offset bytes) + unat (ph_count bytes) * 56 < 2 ^ 64 \<Longrightarrow>
      unat (ph_offset bytes + ?n * 56) = unat (ph_offset bytes) + unat (ph_count bytes) * 56"
    using unat_add_no_overflow [of "ph_offset bytes" "?n * 56"] m(2) by simp
  have lenle: "a \<le> length bytes \<Longrightarrow> a < 2 ^ 64" for a using len by simp
  show "parse_header bytes \<noteq> Panic"
    by (auto simp: parse_header_def outcome_simps Let_def)
  have "parse_header bytes = Ok h \<longleftrightarrow>
      elf_header_fields_ok bytes \<and> (ph_count bytes \<noteq> 0 \<and> ph_count bytes \<le> 8) \<and> 64 \<le> ph_offset bytes \<and>
      (\<exists>e. checked_add (ph_offset bytes) (?n * 56) = Some e \<and> e \<le> of_nat (length bytes)) \<and>
      entry_in_window bytes \<and>
      h = \<lparr>eh_entry = ph_entry bytes, eh_program_header_offset = unat (ph_offset bytes),
         eh_program_header_count = ph_count bytes,
         eh_program_header_table_end = ph_offset bytes + ?n * 56,
         eh_file_size = of_nat (length bytes)\<rparr>"
    using assms(1) len
    by (auto simp: parse_header_def read_in_range elf_header_fields_ok_def entry_in_window_def
        outcome_simps Let_def m(1) u64_try_from_usize_def elf_consts not_less checked_add_Some_iff
        word_le_nat_alt word_less_nat_alt)
  also have "(\<exists>e. checked_add (ph_offset bytes) (?n * 56) = Some e \<and> e \<le> of_nat (length bytes)) \<longleftrightarrow>
      unat (ph_offset bytes) + unat (ph_count bytes) * 56 \<le> length bytes"
    using tabu lenle by (auto simp: tab word_le_nat_alt fs)
  finally show "parse_header bytes = Ok h \<longleftrightarrow>
    elf_header_fields_ok bytes \<and> ph_table_ok bytes \<and> entry_in_window bytes \<and>
    h = \<lparr>eh_entry = ph_entry bytes, eh_program_header_offset = unat (ph_offset bytes),
         eh_program_header_count = ph_count bytes,
         eh_program_header_table_end = ph_offset bytes + ucast (ph_count bytes) * 56,
         eh_file_size = of_nat (length bytes)\<rparr>"
    by (simp add: ph_table_ok_def cnt word_le_nat_alt conj_ac)
qed

definition program_headers :: "u8 list \<Rightarrow> program_header list" where
  "program_headers bytes =
     map (\<lambda>i. ph_at bytes (unat (ph_offset bytes) + i * 56)) [0..<unat (ph_count bytes)]"

definition elf_loads :: "u8 list \<Rightarrow> program_header list" where
  "elf_loads bytes = load_headers (program_headers bytes)"

definition elf_image_ok :: "u8 list \<Rightarrow> bool" where
  "elf_image_ok bytes \<longleftrightarrow>
     64 \<le> length bytes \<and> length bytes \<le> MAX_ELF_FILE_SIZE \<and> identification_ok bytes \<and>
     elf_header_fields_ok bytes \<and> ph_table_ok bytes \<and> entry_in_window bytes \<and>
     list_all (\<lambda>h. ph_kind h \<in> {PT_NULL, PT_LOAD}) (program_headers bytes) \<and>
     1 \<le> length (elf_loads bytes) \<and> length (elf_loads bytes) \<le> 4 \<and>
     list_all (segment_ok (length bytes)) (elf_loads bytes) \<and>
     sorted_wrt segment_before (elf_loads bytes) \<and>
     sum_list (map (\<lambda>h. unat (ph_memory_size h)) (elf_loads bytes)) \<le> 64 * 1024 * 1024 \<and>
     list_ex (segment_has (ph_entry bytes)) (elf_loads bytes)"

definition elf_view :: "u8 list \<Rightarrow> validated_elf" where
  "elf_view bytes =
     \<lparr>elf_bytes = bytes, elf_entry_point = ph_entry bytes,
      elf_program_header_offset = unat (ph_offset bytes),
      elf_program_header_count = ph_count bytes,
      elf_load_segment_count = of_nat (length (elf_loads bytes))\<rparr>"

lemma ph_inv_initial [simp]: "ph_inv ph_initial"
  by (simp add: ph_inv_def ph_initial_def)

lemma decode_in_table:
  assumes "ph_table_ok bytes" and "length bytes \<le> MAX_ELF_FILE_SIZE" and "i < unat (ph_count bytes)"
  shows "decode_program_header bytes (unat (ph_offset bytes)) (of_nat i) =
    Ok (ph_at bytes (unat (ph_offset bytes) + i * 56))"
proof -
  have "unat (of_nat i :: u16) = i"
    using assms(1,3) by (simp add: unat_of_nat ph_table_ok_def)
  moreover have "i * 56 + 56 \<le> unat (ph_count bytes) * 56" using assms(3) by simp
  ultimately show ?thesis
    using assms decode_program_header_in_range [of bytes "unat (ph_offset bytes)" "of_nat i"]
    by (simp add: ph_table_ok_def elf_consts)
qed

lemma validate_program_headers_Ok_iff:
  assumes "ph_table_ok bytes" and "length bytes \<le> MAX_ELF_FILE_SIZE"
    and elf: "eh_program_header_offset elf = unat (ph_offset bytes)"
      "eh_program_header_count elf = ph_count bytes" "eh_entry elf = ph_entry bytes"
      "eh_file_size elf = of_nat (length bytes)"
  shows "validate_program_headers bytes elf = Ok c \<longleftrightarrow>
    list_all (\<lambda>h. ph_kind h \<in> {PT_NULL, PT_LOAD}) (program_headers bytes) \<and>
    1 \<le> length (elf_loads bytes) \<and> length (elf_loads bytes) \<le> 4 \<and>
    list_all (segment_ok (length bytes)) (elf_loads bytes) \<and>
    sorted_wrt segment_before (elf_loads bytes) \<and>
    sum_list (map (\<lambda>h. unat (ph_memory_size h)) (elf_loads bytes)) \<le> 64 * 1024 * 1024 \<and>
    list_ex (segment_has (ph_entry bytes)) (elf_loads bytes) \<and>
    c = of_nat (length (elf_loads bytes))" (is "_ \<longleftrightarrow> ?ok")
    and "validate_program_headers bytes elf \<noteq> Panic"
proof -
  let ?idxs = "map of_nat [0..<unat (eh_program_header_count elf)] :: u16 list"
  have dec: "list_all2 (\<lambda>i h. decode_program_header bytes (eh_program_header_offset elf) i = Ok h)
      ?idxs (program_headers bytes)"
    using decode_in_table [OF assms(1,2)]
    by (simp add: program_headers_def elf list_all2_conv_all_nth)
  show "validate_program_headers bytes elf \<noteq> Panic"
    using ph_loop_not_Panic [OF ph_inv_initial dec]
    by (simp add: validate_program_headers_def outcome_simps)
  have fs: "unat (eh_file_size elf) = length bytes"
    using assms(2) by (simp add: elf elf_consts unat_of_nat)
  have zero: "(of_nat n :: u16) = 0 \<longleftrightarrow> \<not> 1 \<le> n" if "n \<le> 4" for n
    using that by (auto simp: word_of_nat_eq_0_iff not_less_eq_eq dest: dvd_imp_le)
  have "validate_program_headers bytes elf = Ok c \<longleftrightarrow>
      c \<noteq> 0 \<and> (\<exists>st. ph_loop bytes elf ?idxs ph_initial = Ok st \<and> load_count st = c \<and>
        entry_is_executable st = True)"
    by (auto simp: validate_program_headers_def outcome_simps)
  also have "\<dots> \<longleftrightarrow> ?ok"
    unfolding ph_loop_Ok_iff [OF ph_inv_initial dec]
    using zero [of "length (elf_loads bytes)"]
    by (auto simp: loop_accepts_def fs elf(3) ph_initial_def ph_after_def list_all_iff
        simp flip: elf_loads_def)
  finally show "validate_program_headers bytes elf = Ok c \<longleftrightarrow> ?ok" .
qed

lemma elf_parse_Ok_iff: "elf_parse bytes = Ok v \<longleftrightarrow> elf_image_ok bytes \<and> v = elf_view bytes"
proof (cases "64 \<le> length bytes \<and> length bytes \<le> MAX_ELF_FILE_SIZE")
  case True
  then have len: "64 \<le> length bytes" "length bytes \<le> MAX_ELF_FILE_SIZE" by simp_all
  show ?thesis
    using len
    by (auto simp: elf_parse_def ELF_HEADER_SIZE_def outcome_simps validate_identification_Ok_iff
        parse_header_Ok_iff(1) [OF len] validate_program_headers_Ok_iff(1) elf_image_ok_def
        elf_view_def)
next
  case False
  then show ?thesis by (auto simp: elf_parse_def elf_image_ok_def ELF_HEADER_SIZE_def)
qed

lemma elf_parse_not_Panic: "elf_parse bytes \<noteq> Panic"
proof (cases "64 \<le> length bytes \<and> length bytes \<le> MAX_ELF_FILE_SIZE")
  case True
  then have len: "64 \<le> length bytes" "length bytes \<le> MAX_ELF_FILE_SIZE" by simp_all
  show ?thesis
    using len
    by (auto simp: elf_parse_def ELF_HEADER_SIZE_def outcome_simps validate_identification_not_Panic
        parse_header_Ok_iff [OF len] validate_program_headers_Ok_iff(2))
next
  case False
  then show ?thesis by (auto simp: elf_parse_def ELF_HEADER_SIZE_def)
qed

section \<open>What the iterator yields\<close>

declare load_segments_next.simps [simp del]

lemma load_segments_next_progress:
  "load_segments_next it = Ok (Some s, it') \<Longrightarrow>
    unat (it_program_header_count it') - unat (it_next_index it') <
    unat (it_program_header_count it) - unat (it_next_index it)"
proof (induction it rule: load_segments_next.induct)
  case (1 it)
  show ?case
  proof (cases "it_next_index it < it_program_header_count it")
    case True
    from 1(2) True obtain n where n: "add_or_panic (it_next_index it) 1 = (Ok n :: (unit, _) outcome)"
      by (subst (asm) load_segments_next.simps) (auto simp: Let_def split: outcome.splits)
    note less = next_index_decreases [OF True n]
    from 1(2) True n obtain h where
      h: "decode_program_header (it_bytes it) (it_program_header_offset it) (it_next_index it) = Ok h"
      by (subst (asm) load_segments_next.simps) (auto simp: Let_def split: outcome.splits)
    show ?thesis
    proof (cases "ph_kind h = PT_LOAD")
      case t: True
      then show ?thesis
        using 1(2) True n h less by (subst (asm) load_segments_next.simps) (auto simp: Let_def)
    next
      case False
      have "load_segments_next (it\<lparr>it_next_index := n\<rparr>) = Ok (Some s, it')"
        using 1(2) True n h False by (subst (asm) load_segments_next.simps) (simp add: Let_def)
      with 1(1) [OF True refl n refl _ False] h less show ?thesis by simp
    qed
  next
    case False
    then show ?thesis using 1(2) by (subst (asm) load_segments_next.simps) (simp add: Let_def)
  qed
qed

text \<open>\<^verbatim>\<open>for segment in elf.segments()\<close>: the segments in the order a caller sees them.\<close>

function collect_segments :: "load_segments \<Rightarrow> (unit, load_segment list) outcome" where
  "collect_segments it =
     (case load_segments_next it of
        Panic \<Rightarrow> Panic
      | Err e \<Rightarrow> Err e
      | Ok (None, _) \<Rightarrow> Ok []
      | Ok (Some s, it') \<Rightarrow> and_then (collect_segments it') (\<lambda>rest. Ok (s # rest)))"
  by auto
termination
  by (relation "measure (\<lambda>it. unat (it_program_header_count it) - unat (it_next_index it))")
    (auto dest: load_segments_next_progress)

declare collect_segments.simps [simp del]

definition segment_of :: "u8 list \<Rightarrow> u16 \<times> program_header \<Rightarrow> load_segment" where
  "segment_of bytes = (\<lambda>(index, h).
     \<lparr>seg_index = index, seg_flags = SegmentFlags (ph_flags h),
      seg_file_offset = ph_file_offset h, seg_virtual_address = ph_virtual_address h,
      seg_physical_address = ph_physical_address h, seg_file_size = ph_file_size h,
      seg_memory_size = ph_memory_size h, seg_alignment = ph_alignment h,
      seg_file_data = take (unat (ph_file_size h)) (drop (unat (ph_file_offset h)) bytes)\<rparr>)"

lemma load_segment_from_header_ok:
  assumes "segment_ok (length bytes) h" and "length bytes \<le> MAX_ELF_FILE_SIZE"
  shows "load_segment_from_header bytes index h = Some (segment_of bytes (index, h))"
proof -
  have "unat (ph_file_offset h) + unat (ph_file_size h) < 2 ^ 64"
    using assms by (simp add: segment_ok_def elf_consts)
  then have "checked_add (ph_file_offset h) (ph_file_size h) = Some (ph_file_offset h + ph_file_size h)"
    "unat (ph_file_offset h + ph_file_size h) = unat (ph_file_offset h) + unat (ph_file_size h)"
    by (simp_all add: checked_add_def unat_add_no_overflow)
  then show ?thesis
    using assms by (simp add: load_segment_from_header_def slice_get_def segment_of_def segment_ok_def)
qed

definition indexed_header :: "u8 list \<Rightarrow> nat \<Rightarrow> u16 \<times> program_header" where
  "indexed_header bytes i = (of_nat i, ph_at bytes (unat (ph_offset bytes) + i * 56))"

definition indexed_loads :: "u8 list \<Rightarrow> nat \<Rightarrow> (u16 \<times> program_header) list" where
  "indexed_loads bytes k =
     filter (\<lambda>(_, h). ph_kind h = PT_LOAD) (map (indexed_header bytes) [k..<unat (ph_count bytes)])"

lemma map_snd_indexed_loads: "map snd (indexed_loads bytes 0) = elf_loads bytes"
  by (simp add: indexed_loads_def elf_loads_def load_headers_def program_headers_def filter_map
      indexed_header_def o_def case_prod_unfold)

lemma load_segments_next_at:
  assumes ok: "elf_image_ok bytes" and k: "k < unat (ph_count bytes)"
    and it: "it = (segments (elf_view bytes))\<lparr>it_next_index := of_nat k\<rparr>"
    and h: "h = ph_at bytes (unat (ph_offset bytes) + k * 56)"
    and it': "it' = (segments (elf_view bytes))\<lparr>it_next_index := of_nat (Suc k)\<rparr>"
  shows "load_segments_next it =
    (if ph_kind h = PT_LOAD then Ok (Some (segment_of bytes (of_nat k, h)), it')
     else load_segments_next it')"
proof -
  have tab: "ph_table_ok bytes" "length bytes \<le> MAX_ELF_FILE_SIZE"
    using ok by (simp_all add: elf_image_ok_def)
  then have k8: "k < 8" using k by (simp add: ph_table_ok_def)
  have n: "add_or_panic (of_nat k :: u16) 1 = (Ok (of_nat (Suc k)) :: (unit, _) outcome)"
    unfolding add_or_panic_Ok_iff of_nat_Suc
    using k8 by (intro conjI add.commute) (simp add: unat_of_nat)
  have lt: "(of_nat k :: u16) < ph_count bytes"
    using k k8 by (simp add: word_less_nat_alt unat_of_nat)
  have d: "decode_program_header bytes (unat (ph_offset bytes)) (of_nat k) = Ok h"
    using decode_in_table [OF tab k] h by simp
  have "load_segment_from_header bytes (of_nat k) h = Some (segment_of bytes (of_nat k, h))"
    if "ph_kind h = PT_LOAD"
  proof (rule load_segment_from_header_ok)
    have "h \<in> set (elf_loads bytes)"
      using that h k by (auto simp: elf_loads_def load_headers_def program_headers_def)
    then show "segment_ok (length bytes) h"
      using ok by (auto simp: elf_image_ok_def list_all_iff)
  qed (rule tab(2))
  then show ?thesis
    unfolding it it'
    by (subst load_segments_next.simps)
      (simp add: segments_def elf_view_def lt n d Let_def del: of_nat_Suc)
qed

lemma collect_segments_at:
  assumes "elf_image_ok bytes" and "k \<le> unat (ph_count bytes)"
  shows "collect_segments ((segments (elf_view bytes))\<lparr>it_next_index := of_nat k\<rparr>) =
    Ok (map (segment_of bytes) (indexed_loads bytes k))"
  using assms(2)
proof (induction rule: inc_induct)
  case base
  have "load_segments_next ((segments (elf_view bytes))\<lparr>it_next_index := ph_count bytes\<rparr>) =
      Ok (None, (segments (elf_view bytes))\<lparr>it_next_index := ph_count bytes\<rparr>)"
    by (subst load_segments_next.simps) (simp add: segments_def elf_view_def)
  then show ?case by (subst collect_segments.simps) (simp add: indexed_loads_def)
next
  case (step k)
  let ?it = "\<lambda>i. (segments (elf_view bytes))\<lparr>it_next_index := of_nat i\<rparr>"
  note n = load_segments_next_at [OF assms(1) step(2) refl refl refl]
  have l: "indexed_loads bytes k =
      (if ph_kind (ph_at bytes (unat (ph_offset bytes) + k * 56)) = PT_LOAD
       then [indexed_header bytes k] else []) @ indexed_loads bytes (Suc k)"
    using step(2) by (simp add: indexed_loads_def upt_conv_Cons indexed_header_def)
  show ?case
  proof (cases "ph_kind (ph_at bytes (unat (ph_offset bytes) + k * 56)) = PT_LOAD")
    case True
    then show ?thesis
      using n step(3) l by (subst collect_segments.simps) (simp add: indexed_header_def)
  next
    case False
    then have "collect_segments (?it k) = collect_segments (?it (Suc k))"
      using n by (subst (1 2) collect_segments.simps) simp
    then show ?thesis using step(3) l False by simp
  qed
qed

section \<open>Properties of accepted images\<close>

text \<open>A minimal image: one header, one read-execute segment of one page at 2 MiB.\<close>

definition example_elf :: "u8 list" where
  "example_elf =
     [0x7f, 0x45, 0x4c, 0x46, 2, 1, 1, 0, 0, 0, 0, 0, 0, 0, 0, 0,
      2, 0, 62, 0, 1, 0, 0, 0,  0, 0, 0x20, 0, 0, 0, 0, 0,  64, 0, 0, 0, 0, 0, 0, 0,
      0, 0, 0, 0, 0, 0, 0, 0,  0, 0, 0, 0,  64, 0, 56, 0, 1, 0, 0, 0, 0, 0, 0, 0,
      1, 0, 0, 0, 5, 0, 0, 0,  0, 0, 0, 0, 0, 0, 0, 0,
      0, 0, 0x20, 0, 0, 0, 0, 0,  0, 0, 0x20, 0, 0, 0, 0, 0,
      120, 0, 0, 0, 0, 0, 0, 0,  0, 0x10, 0, 0, 0, 0, 0, 0,  0, 0x10, 0, 0, 0, 0, 0, 0]"

lemma example_elf_fields:
  "length example_elf = 120" "ph_entry example_elf = 0x200000" "ph_offset example_elf = 64"
  "ph_count example_elf = 1"
  by (simp_all add: example_elf_def le_field_def from_le_bytes_def)

lemma example_elf_header:
  "ph_at example_elf 64 =
     \<lparr>ph_kind = 1, ph_flags = 5, ph_file_offset = 0, ph_virtual_address = 0x200000,
      ph_physical_address = 0x200000, ph_file_size = 120, ph_memory_size = 0x1000,
      ph_alignment = 0x1000\<rparr>"
  by (simp add: ph_at_def example_elf_def le_field_def from_le_bytes_def)

lemma example_elf_ok: "elf_image_ok example_elf"
proof -
  have loads: "program_headers example_elf = [ph_at example_elf 64]"
    by (simp add: program_headers_def example_elf_fields)
  have "\<exists>k \<in> {12..21::nat}. (4096::nat) = 2 ^ k" by (rule bexI [of _ 12]) simp_all
  moreover have "identification_ok example_elf" "elf_header_fields_ok example_elf"
    by (simp_all add: identification_ok_def elf_header_fields_ok_def example_elf_def le_field_def
        from_le_bytes_def)
  ultimately show ?thesis
    by (simp add: elf_image_ok_def example_elf_fields ph_table_ok_def entry_in_window_def loads
        elf_loads_def example_elf_header segment_ok_def segment_end_def segment_has_def
        PT_LOAD_def PT_NULL_def MAX_ELF_FILE_SIZE_def)
qed

lemma elf_parse_ok: "elf_image_ok bytes \<Longrightarrow> elf_parse bytes = Ok (elf_view bytes)"
  by (simp add: elf_parse_Ok_iff)

lemma collect_segments_eq:
  assumes "elf_image_ok bytes"
  shows "collect_segments (segments (elf_view bytes)) =
    Ok (map (segment_of bytes) (indexed_loads bytes 0))"
proof -
  have "(segments v)\<lparr>it_next_index := of_nat 0\<rparr> = segments v" for v
    by (simp add: segments_def)
  then show ?thesis using collect_segments_at [OF assms, of 0] by simp
qed

lemma indexed_loads_ok:
  assumes "elf_image_ok bytes"
  shows "length (indexed_loads bytes 0) = length (elf_loads bytes)"
    and "\<forall>p \<in> set (indexed_loads bytes 0). segment_ok (length bytes) (snd p)"
    and "sorted_wrt (\<lambda>p q. segment_before (snd p) (snd q)) (indexed_loads bytes 0)"
  using assms
  unfolding elf_image_ok_def map_snd_indexed_loads [symmetric] list_all_iff sorted_wrt_map
  by simp_all

text \<open>The whole pages that the loader allocates for a segment.\<close>

definition segment_pages :: "load_segment \<Rightarrow> nat set" where
  "segment_pages s =
     {unat (seg_physical_address s) ..<
      page_up (unat (seg_physical_address s) + unat (seg_memory_size s))}"

definition segment_bytes :: "load_segment \<Rightarrow> nat set" where
  "segment_bytes s =
     {unat (seg_physical_address s) ..< unat (seg_physical_address s) + unat (seg_memory_size s)}"

lemma segment_bytes_pages: "segment_bytes s \<subseteq> segment_pages s"
  using page_up_ge [of "unat (seg_physical_address s) + unat (seg_memory_size s)"]
  by (auto simp: segment_bytes_def segment_pages_def)

lemma segment_before_disjoint:
  "segment_before (snd p) (snd q) \<Longrightarrow>
    segment_pages (segment_of bytes p) \<inter> segment_pages (segment_of bytes q) = {}"
  by (auto simp: segment_before_def segment_pages_def segment_of_def segment_end_def split: prod.splits)

lemma segments_disjoint:
  assumes "elf_image_ok bytes" and "segs = map (segment_of bytes) (indexed_loads bytes 0)"
    and "i < length segs" and "j < length segs" and "i \<noteq> j"
  shows "segment_pages (segs ! i) \<inter> segment_pages (segs ! j) = {}"
proof -
  let ?ps = "indexed_loads bytes 0"
  have "a < b \<Longrightarrow> b < length ?ps \<Longrightarrow>
      segment_pages (segs ! a) \<inter> segment_pages (segs ! b) = {}" for a b
    using sorted_wrt_nth_less [OF indexed_loads_ok(3) [OF assms(1)]] assms(2)
    by (simp add: segment_before_disjoint)
  then show ?thesis using assms(2-5) by (cases i j rule: linorder_cases) (auto simp: Int_commute)
qed

text \<open>
  C8: parsing an arbitrary file never panics, whatever its bytes, and accepts exactly the images
  that satisfy the declarative kernel policy.
\<close>

theorem elf_parse_sound_complete:
  "elf_parse bytes \<noteq> Panic \<and> (elf_parse bytes = Ok v \<longleftrightarrow> elf_image_ok bytes \<and> v = elf_view bytes)"
  by (rule conjI [OF elf_parse_not_Panic elf_parse_Ok_iff])

text \<open>
  C9: iterating over the segments of an accepted image terminates without a panic and yields
  exactly the announced number of segments, between one and four.  Every segment is readable and
  not both writable and executable, is identity-mapped, page-aligned and inside the load window,
  carries exactly its slice of the file, and has a zero-filled tail that is computed without
  underflow.  No page belongs to two segments and together they need at most 64 MiB.
\<close>

theorem elf_segments_safe:
  assumes "elf_parse bytes = Ok v"
  shows "\<exists>segs. collect_segments (segments v) = Ok segs \<and>
    length segs = unat (elf_load_segment_count v) \<and> 1 \<le> length segs \<and> length segs \<le> 4 \<and>
    (\<forall>s \<in> set segs. is_readable (seg_flags s) \<and>
      \<not> (is_writable (seg_flags s) \<and> is_executable (seg_flags s)) \<and>
      seg_virtual_address s = seg_physical_address s \<and> 4096 dvd unat (seg_physical_address s) \<and>
      segment_bytes s \<noteq> {} \<and> segment_bytes s \<subseteq> {0x200000 ..< 0x40000000} \<and>
      slice_get bytes (unat (seg_file_offset s)) (unat (seg_file_offset s) + unat (seg_file_size s)) =
        Some (seg_file_data s) \<and>
      zero_fill_size s = (Ok (seg_memory_size s - seg_file_size s) :: (unit, _) outcome) \<and>
      length (seg_file_data s) + unat (seg_memory_size s - seg_file_size s) =
        unat (seg_memory_size s)) \<and>
    (\<forall>i < length segs. \<forall>j < length segs. i \<noteq> j \<longrightarrow> segment_pages (segs ! i) \<inter> segment_pages (segs ! j) = {}) \<and>
    sum_list (map (\<lambda>s. unat (seg_memory_size s)) segs) \<le> 64 * 1024 * 1024"
proof -
  let ?ps = "indexed_loads bytes 0"
  let ?segs = "map (segment_of bytes) ?ps"
  have ok: "elf_image_ok bytes" and v: "v = elf_view bytes"
    using assms by (simp_all add: elf_parse_Ok_iff)
  have len: "1 \<le> length (elf_loads bytes)" "length (elf_loads bytes) \<le> 4"
    using ok by (simp_all add: elf_image_ok_def)
  have count: "length ?segs = unat (elf_load_segment_count v)"
    using len indexed_loads_ok(1) [OF ok] by (simp add: v elf_view_def unat_of_nat)
  have good: "is_readable (seg_flags s) \<and>
      \<not> (is_writable (seg_flags s) \<and> is_executable (seg_flags s)) \<and>
      seg_virtual_address s = seg_physical_address s \<and> 4096 dvd unat (seg_physical_address s) \<and>
      segment_bytes s \<noteq> {} \<and> segment_bytes s \<subseteq> {0x200000 ..< 0x40000000} \<and>
      slice_get bytes (unat (seg_file_offset s)) (unat (seg_file_offset s) + unat (seg_file_size s)) =
        Some (seg_file_data s) \<and>
      zero_fill_size s = (Ok (seg_memory_size s - seg_file_size s) :: (unit, _) outcome) \<and>
      length (seg_file_data s) + unat (seg_memory_size s - seg_file_size s) =
        unat (seg_memory_size s)" if "s \<in> set ?segs" for s
  proof -
    from that obtain i h where s: "s = segment_of bytes (i, h)" and h: "segment_ok (length bytes) h"
      using indexed_loads_ok(2) [OF ok] by auto
    then show ?thesis
      by (auto simp: segment_of_def segment_ok_def is_readable_def is_writable_def is_executable_def
          elf_consts segment_bytes_def segment_end_def slice_get_def zero_fill_size_def
          sub_or_panic_eq word_le_nat_alt unat_diff_no_underflow)
  qed
  have "map (\<lambda>s. unat (seg_memory_size s)) ?segs = map (\<lambda>h. unat (ph_memory_size h)) (elf_loads bytes)"
    by (simp add: segment_of_def case_prod_unfold flip: map_snd_indexed_loads)
  then have "sum_list (map (\<lambda>s. unat (seg_memory_size s)) ?segs) \<le> 64 * 1024 * 1024"
    using ok by (simp only: elf_image_ok_def)
  then show ?thesis
    using collect_segments_eq [OF ok] count good len indexed_loads_ok(1) [OF ok]
      segments_disjoint [OF ok refl]
    by (intro exI [of _ ?segs]) (simp add: v)
qed

theorem elf_segments_safe_witness:
  "\<exists>segs. collect_segments (segments (elf_view example_elf)) = Ok segs \<and> length segs = 1"
proof -
  have "elf_load_segment_count (elf_view example_elf) = 1"
    by (simp add: elf_view_def elf_loads_def program_headers_def example_elf_fields
        example_elf_header PT_LOAD_def)
  then show ?thesis using elf_segments_safe [OF elf_parse_ok [OF example_elf_ok]] by auto
qed

text \<open>
  C10: the entry point of an accepted image lies in the memory of exactly one of its segments, and
  that segment is executable and not writable.
\<close>

theorem elf_entry_unique:
  assumes "elf_parse bytes = Ok v" and "collect_segments (segments v) = Ok segs"
  shows "\<exists>i < length segs. unat (elf_entry_point v) \<in> segment_bytes (segs ! i) \<and>
    is_executable (seg_flags (segs ! i)) \<and> \<not> is_writable (seg_flags (segs ! i)) \<and>
    (\<forall>j < length segs. unat (elf_entry_point v) \<in> segment_bytes (segs ! j) \<longrightarrow> j = i)"
proof -
  let ?ps = "indexed_loads bytes 0"
  have ok: "elf_image_ok bytes" and v: "v = elf_view bytes"
    using assms by (simp_all add: elf_parse_Ok_iff)
  have segs: "segs = map (segment_of bytes) ?ps"
    using assms(2) collect_segments_eq [OF ok] v by simp
  obtain h where "h \<in> set (elf_loads bytes)" and h: "segment_has (ph_entry bytes) h"
    using ok by (auto simp: elf_image_ok_def list_ex_iff)
  then have "h \<in> snd ` set ?ps" by (metis map_snd_indexed_loads set_map)
  then obtain idx where mem: "(idx, h) \<in> set ?ps" by auto
  then obtain i where i: "i < length ?ps" "?ps ! i = (idx, h)" by (auto simp: in_set_conv_nth)
  have "ph_virtual_address h = ph_physical_address h"
    using indexed_loads_ok(2) [OF ok] mem by (auto simp: segment_ok_def)
  then have entry: "unat (elf_entry_point v) \<in> segment_bytes (segs ! i)"
    using i h segs by (simp add: v elf_view_def segment_bytes_def segment_of_def segment_has_def)
  have "is_executable (seg_flags (segs ! i)) \<and> \<not> is_writable (seg_flags (segs ! i))"
    using i h segs by (simp add: segment_of_def segment_has_def is_executable_def is_writable_def
        elf_consts)
  moreover have "j = i" if "j < length segs" "unat (elf_entry_point v) \<in> segment_bytes (segs ! j)" for j
  proof (rule ccontr)
    assume "j \<noteq> i"
    then have "segment_pages (segs ! j) \<inter> segment_pages (segs ! i) = {}"
      using segments_disjoint [OF ok segs that(1), of i] i segs by simp
    then show False
      using that(2) entry segment_bytes_pages by blast
  qed
  moreover have "i < length segs" using i segs by simp
  ultimately show ?thesis using entry by blast
qed

theorem elf_entry_unique_witness:
  "\<exists>segs. collect_segments (segments (elf_view example_elf)) = Ok segs \<and>
    (\<exists>i < length segs. 0x200000 \<in> segment_bytes (segs ! i) \<and> is_executable (seg_flags (segs ! i)))"
  using elf_entry_unique [OF elf_parse_ok [OF example_elf_ok] collect_segments_eq [OF example_elf_ok]]
    collect_segments_eq [OF example_elf_ok]
  by (auto simp: elf_view_def example_elf_fields)

end
