(* ===== verification/Boot_Scenario.thy ===== *)
theory Boot_Scenario
  imports Prelude
begin

text \<open>
  The one-token boot configuration \<^verbatim>\<open>POLYTOPE/BOOT.CFG\<close>, as its two ends see it: the loader's
  parser in \<^verbatim>\<open>crates/uefi-loader/src/lib.rs\<close>, and the scenario type, printer and parser of the image
  tool in \<^verbatim>\<open>crates/xtask/src/image.rs\<close>.  The parts of Rust's text library that the image tool uses
  (UTF-8 validation, \<^verbatim>\<open>lines().count()\<close>, \<^verbatim>\<open>trim_end_matches\<close>) are written out on bytes.
\<close>

section \<open>The loader's parser\<close>

definition MAX_SCENARIO_BYTES :: usize where "MAX_SCENARIO_BYTES = 32"

datatype boot_scenario = Normal | IncompatibleVersion | TruncatedContract | DeliberatePanic

datatype scenario_error = Empty | TooLong | NonAscii | Unknown

definition is_ascii :: "u8 list \<Rightarrow> bool" where
  "is_ascii bytes \<longleftrightarrow> list_all (\<lambda>b. b < 0x80) bytes"

definition scenario_parse :: "u8 list \<Rightarrow> (scenario_error, boot_scenario) outcome" where
  "scenario_parse bytes =
     (if length bytes > MAX_SCENARIO_BYTES then Err TooLong
      else if \<not> is_ascii bytes then Err NonAscii
      else if bytes = bytes_of ''normal'' @ [0x0A] then Ok Normal
      else if bytes = bytes_of ''bad-version'' @ [0x0A] then Ok IncompatibleVersion
      else if bytes = bytes_of ''truncated'' @ [0x0A] then Ok TruncatedContract
      else if bytes = bytes_of ''panic'' @ [0x0A] then Ok DeliberatePanic
      else if bytes = [] then Err Empty
      else Err Unknown)"

section \<open>The image tool's scenario\<close>

datatype image_scenario = ImgNormal | ImgBadVersion | ImgTruncated | ImgPanic

datatype image_scenario_error = NotUtf8 | NotOneLine | UnknownBootScenario "u8 list"

primrec scenario_as_str :: "image_scenario \<Rightarrow> u8 list" where
  "scenario_as_str ImgNormal = bytes_of ''normal''"
| "scenario_as_str ImgBadVersion = bytes_of ''bad-version''"
| "scenario_as_str ImgTruncated = bytes_of ''truncated''"
| "scenario_as_str ImgPanic = bytes_of ''panic''"

definition scenario_from_str :: "u8 list \<Rightarrow> (image_scenario_error, image_scenario) outcome" where
  "scenario_from_str text =
     (if text = bytes_of ''normal'' then Ok ImgNormal
      else if text = bytes_of ''bad-version'' then Ok ImgBadVersion
      else if text = bytes_of ''truncated'' then Ok ImgTruncated
      else if text = bytes_of ''panic'' then Ok ImgPanic
      else Err (UnknownBootScenario text))"

text \<open>\<^verbatim>\<open>std::str::from_utf8\<close> accepts exactly the well-formed sequences of the Unicode standard.\<close>

definition utf8_tail :: "u8 \<Rightarrow> bool" where
  "utf8_tail b \<longleftrightarrow> 0x80 \<le> b \<and> b \<le> 0xBF"

fun utf8_valid :: "u8 list \<Rightarrow> bool" where
  "utf8_valid [] = True"
| "utf8_valid (a # rest) =
     (if a < 0x80 then utf8_valid rest
      else if 0xC2 \<le> a \<and> a \<le> 0xDF then
        (case rest of b # rest' \<Rightarrow> utf8_tail b \<and> utf8_valid rest' | _ \<Rightarrow> False)
      else if 0xE0 \<le> a \<and> a \<le> 0xEF then
        (case rest of b # c # rest' \<Rightarrow>
           utf8_tail b \<and> (a = 0xE0 \<longrightarrow> 0xA0 \<le> b) \<and> (a = 0xED \<longrightarrow> b \<le> 0x9F) \<and> utf8_tail c \<and>
           utf8_valid rest' | _ \<Rightarrow> False)
      else if 0xF0 \<le> a \<and> a \<le> 0xF4 then
        (case rest of b # c # d # rest' \<Rightarrow>
           utf8_tail b \<and> (a = 0xF0 \<longrightarrow> 0x90 \<le> b) \<and> (a = 0xF4 \<longrightarrow> b \<le> 0x8F) \<and> utf8_tail c \<and>
           utf8_tail d \<and> utf8_valid rest' | _ \<Rightarrow> False)
      else False)"

definition ends_with_newline :: "u8 list \<Rightarrow> bool" where
  "ends_with_newline text \<longleftrightarrow> text \<noteq> [] \<and> last text = 0x0A"

definition lines_count :: "u8 list \<Rightarrow> nat" where
  "lines_count text =
     length (filter (\<lambda>b. b = 0x0A) text) + (if text = [] \<or> last text = 0x0A then 0 else 1)"

definition trim_end_newlines :: "u8 list \<Rightarrow> u8 list" where
  "trim_end_newlines text = rev (dropWhile (\<lambda>b. b = 0x0A) (rev text))"

definition parse_scenario :: "u8 list \<Rightarrow> (image_scenario_error, image_scenario) outcome" where
  "parse_scenario bytes =
     (if \<not> utf8_valid bytes then Err NotUtf8
      else if \<not> (ends_with_newline bytes \<and> lines_count bytes = 1) then Err NotOneLine
      else scenario_from_str (trim_end_newlines bytes))"

section \<open>Agreement\<close>

primrec image_scenario_of :: "boot_scenario \<Rightarrow> image_scenario" where
  "image_scenario_of Normal = ImgNormal"
| "image_scenario_of IncompatibleVersion = ImgBadVersion"
| "image_scenario_of TruncatedContract = ImgTruncated"
| "image_scenario_of DeliberatePanic = ImgPanic"

primrec scenario_token :: "boot_scenario \<Rightarrow> u8 list" where
  "scenario_token Normal = bytes_of ''normal''"
| "scenario_token IncompatibleVersion = bytes_of ''bad-version''"
| "scenario_token TruncatedContract = bytes_of ''truncated''"
| "scenario_token DeliberatePanic = bytes_of ''panic''"

lemma byte_of_char_bytes: "byte_of_char (Char b0 b1 b2 b3 b4 b5 b6 b7) =
    of_nat (of_bool b0 + 2 * of_bool b1 + 4 * of_bool b2 + 8 * of_bool b3 + 16 * of_bool b4 +
      32 * of_bool b5 + 64 * of_bool b6 + 128 * of_bool b7)"
  by (simp add: byte_of_char_def)

lemma scenario_parse_Ok_iff: "scenario_parse bytes = Ok s \<longleftrightarrow> bytes = scenario_token s @ [0x0A]"
  by (cases s)
    (auto simp: scenario_parse_def is_ascii_def MAX_SCENARIO_BYTES_def bytes_of_def
      byte_of_char_bytes)

lemma scenario_from_str_Ok_iff:
  "scenario_from_str text = Ok (image_scenario_of s) \<longleftrightarrow> text = scenario_token s"
  by (cases s) (auto simp: scenario_from_str_def)

lemma one_line_iff:
  "ends_with_newline text \<and> lines_count text = 1 \<longleftrightarrow>
    (\<exists>body. text = body @ [0x0A] \<and> 0x0A \<notin> set body)"
proof
  assume a: "ends_with_newline text \<and> lines_count text = 1"
  then obtain body where t: "text = body @ [0x0A]"
    by (metis ends_with_newline_def append_butlast_last_id)
  then have "0x0A \<notin> set body"
    using a by (auto simp: lines_count_def filter_empty_conv)
  with t show "\<exists>body. text = body @ [0x0A] \<and> 0x0A \<notin> set body" by blast
qed (auto simp: ends_with_newline_def lines_count_def filter_empty_conv)

lemma trim_end_newlines_one_line:
  "0x0A \<notin> set body \<Longrightarrow> trim_end_newlines (body @ [0x0A]) = body"
  by (cases body rule: rev_cases) (auto simp: trim_end_newlines_def)

lemma utf8_valid_ascii: "list_all (\<lambda>b. b < 0x80) bytes \<Longrightarrow> utf8_valid bytes"
  by (induction bytes) auto

lemma scenario_token_plain:
  "list_all (\<lambda>b. b < 0x80) (scenario_token s @ [0x0A])" "0x0A \<notin> set (scenario_token s)"
  by (cases s; simp add: bytes_of_def byte_of_char_bytes)+

lemma parse_scenario_Ok_iff:
  "parse_scenario bytes = Ok (image_scenario_of s) \<longleftrightarrow> bytes = scenario_token s @ [0x0A]"
proof
  assume "parse_scenario bytes = Ok (image_scenario_of s)"
  then have l: "ends_with_newline bytes \<and> lines_count bytes = 1"
    and p: "scenario_from_str (trim_end_newlines bytes) = Ok (image_scenario_of s)"
    by (auto simp: parse_scenario_def split: if_splits)
  from l obtain body where "bytes = body @ [0x0A]" "0x0A \<notin> set body"
    unfolding one_line_iff by blast
  with p show "bytes = scenario_token s @ [0x0A]"
    by (simp add: trim_end_newlines_one_line scenario_from_str_Ok_iff)
next
  assume b: "bytes = scenario_token s @ [0x0A]"
  then have "ends_with_newline bytes \<and> lines_count bytes = 1"
    unfolding one_line_iff using scenario_token_plain(2) by blast
  moreover have "utf8_valid bytes"
    unfolding b by (rule utf8_valid_ascii [OF scenario_token_plain(1)])
  moreover have "trim_end_newlines bytes = scenario_token s"
    unfolding b by (rule trim_end_newlines_one_line [OF scenario_token_plain(2)])
  ultimately show "parse_scenario bytes = Ok (image_scenario_of s)"
    by (simp add: parse_scenario_def scenario_from_str_Ok_iff)
qed

lemma scenario_token_as_str: "scenario_as_str (image_scenario_of s) = scenario_token s"
  by (cases s) simp_all

text \<open>
  C12: the loader and the image tool agree on the configuration file.  For every byte string the
  loader accepts it with some scenario exactly when the image tool does with the same one, neither
  panics, and the line that the image tool writes for a scenario is read back by the loader as that
  scenario.
\<close>

theorem scenario_agreement:
  "(scenario_parse bytes = Ok s \<longleftrightarrow> parse_scenario bytes = Ok (image_scenario_of s)) \<and>
   scenario_parse bytes \<noteq> Panic \<and> parse_scenario bytes \<noteq> Panic \<and>
   scenario_parse (scenario_as_str (image_scenario_of s) @ [0x0A]) = Ok s"
proof -
  have "scenario_parse bytes \<noteq> Panic" "parse_scenario bytes \<noteq> Panic"
    by (simp_all add: scenario_parse_def parse_scenario_def scenario_from_str_def)
  then show ?thesis
    by (simp add: scenario_parse_Ok_iff parse_scenario_Ok_iff scenario_token_as_str)
qed

end
