(* ===== verification/Chunked_Read.thy ===== *)
theory Chunked_Read
  imports Prelude
begin

text \<open>
  The loop that both the loader and the image tool use to read a file into a bounded vector: read
  a chunk, check the new length, reserve, append.  The locale states one round of such a loop; the
  lemmas on bounds, errors and exactness are proved once from it.
\<close>

locale chunked_reader =
  fixes reads :: "nat \<Rightarrow> 'b list option"
    and chunk :: usize
    and maximum :: usize
    and reserve :: "usize \<Rightarrow> usize \<Rightarrow> bool"
    and read_error :: 'e
    and overflow_error :: 'e
    and limit_error :: 'e
    and reserve_error :: 'e
    and loop :: "nat \<Rightarrow> 'b list \<Rightarrow> ('e, 'b list) outcome"
  assumes loop_error: "reads i = None \<Longrightarrow> loop i bs = Err read_error"
    and loop_end: "reads i = Some [] \<Longrightarrow> loop i bs = Ok bs"
    and loop_step: "reads i = Some data \<Longrightarrow> data \<noteq> [] \<Longrightarrow> loop i bs =
      (if usize_limit \<le> length bs + length data then Err overflow_error
       else if maximum < length (bs @ data) then Err limit_error
       else if \<not> reserve (length bs) (length data) then Err reserve_error
       else if chunk < length data then Panic
       else loop (Suc i) (bs @ data))"
begin

text \<open>Induction over the rounds: the space left decreases.\<close>

lemma loop_rounds:
  assumes "\<And>i bs. reads i = None \<Longrightarrow> P i bs" and "\<And>i bs. reads i = Some [] \<Longrightarrow> P i bs"
    and "\<And>i bs data. reads i = Some data \<Longrightarrow> data \<noteq> [] \<Longrightarrow>
      (\<not> maximum < length (bs @ data) \<Longrightarrow> P (Suc i) (bs @ data)) \<Longrightarrow> P i bs"
  shows "P i bs"
proof (induction "maximum - length bs" arbitrary: i bs rule: less_induct)
  case less
  show ?case
  proof (cases "reads i")
    case None
    then show ?thesis by (rule assms(1))
  next
    case (Some data)
    show ?thesis
    proof (cases "data = []")
      case True
      then show ?thesis using Some assms(2) by blast
    next
      case False
      have "P (Suc i) (bs @ data)" if "\<not> maximum < length (bs @ data)"
        using that False by (intro less.hyps) (simp add: less_diff_conv2)
      then show ?thesis using Some False assms(3) by blast
    qed
  qed
qed

lemma loop_bound: "loop i bs = Ok r \<Longrightarrow> length bs \<le> maximum \<Longrightarrow> length r \<le> maximum"
  by (induction i bs rule: loop_rounds)
    (auto simp: loop_error loop_end loop_step simp del: length_append split: if_splits)

lemma loop_Err: "loop i bs = Err e \<Longrightarrow> e \<in> {read_error, overflow_error, limit_error, reserve_error}"
  by (induction i bs rule: loop_rounds)
    (auto simp: loop_error loop_end loop_step simp del: length_append split: if_splits)

lemma loop_not_Panic:
  assumes "\<And>i data. reads i = Some data \<Longrightarrow> length data \<le> chunk"
  shows "loop i bs \<noteq> Panic"
  by (induction i bs rule: loop_rounds)
    (auto simp: loop_error loop_end loop_step simp del: length_append split: if_splits dest: assms)

lemma loop_delivers:
  assumes reads: "\<And>i. reads i = Some (take chunk (drop (i * chunk) content))"
    and reserve: "\<And>len additional. reserve len additional"
    and chunk: "0 < chunk" and size: "length content < usize_limit"
    and "length (take (i * chunk) content) \<le> maximum"
  shows "loop i (take (i * chunk) content) =
    (if length content \<le> maximum then Ok content else Err limit_error)"
  using assms(5)
proof (induction "length content - i * chunk" arbitrary: i rule: less_induct)
  case less
  let ?data = "take chunk (drop (i * chunk) content)"
  have app: "take (i * chunk) content @ ?data = take (Suc i * chunk) content"
    by (simp add: take_add [symmetric] add.commute)
  show ?case
  proof (cases "length content \<le> i * chunk")
    case True
    then show ?thesis using less.prems reads [of i] by (simp add: loop_end)
  next
    case False
    then have ne: "?data \<noteq> []" using chunk by simp
    have len: "length (take (i * chunk) content) + length ?data = length (take (Suc i * chunk) content)"
      using app by (metis length_append)
    have fits: "\<not> usize_limit \<le> length (take (Suc i * chunk) content)" "\<not> chunk < length ?data"
      using size by (simp_all add: min_less_iff_disj not_le)
    note step = loop_step [OF reads ne, where bs = "take (i * chunk) content", unfolded len app]
    show ?thesis
    proof (cases "length (take (Suc i * chunk) content) \<le> maximum")
      case True
      have "loop i (take (i * chunk) content) = loop (Suc i) (take (Suc i * chunk) content)"
        using step fits True reserve by (simp del: length_take)
      also have "\<dots> = (if length content \<le> maximum then Ok content else Err limit_error)"
        using False chunk True by (intro less.hyps) auto
      finally show ?thesis .
    next
      case exceeds: False
      then have "\<not> length content \<le> maximum" by simp
      then show ?thesis using step fits exceeds by (simp del: length_take)
    qed
  qed
qed

end

end
