(* ===== verification/Uefi_Loader.thy ===== *)
theory Uefi_Loader
  imports Boot_Contract Boot_Elf Boot_Scenario Arch_Console Chunked_Read
begin

text \<open>
  \<^verbatim>\<open>crates/uefi-loader/src/main.rs\<close>: reading the payloads, loading the kernel, building the boot
  contract and handing over.  The firmware is not part of the repository, so everything the loader
  asks of it is a field of the record \<open>firmware\<close>, an argument of the definitions: what opening and
  reading a file returns, whether an allocation succeeds and where, the final memory map, and the
  numbers of the standard memory types.  Memory is a function from addresses to bytes.
\<close>

section \<open>Markers and errors\<close>

definition LOADER_START :: "u8 list" where
  "LOADER_START =
     bytes_of ''POLYTOPE_BOOT schema=1 seq=0001 phase=loader level=info code=LOADER_START''"
definition ELF_VALID :: "u8 list" where
  "ELF_VALID = bytes_of ''POLYTOPE_BOOT schema=1 seq=0002 phase=loader level=info code=ELF_VALID''"
definition HANDOFF_READY :: "u8 list" where
  "HANDOFF_READY =
     bytes_of ''POLYTOPE_BOOT schema=1 seq=0003 phase=handoff level=info code=HANDOFF_READY''"
definition FILE_READ_FAILURE :: "u8 list" where
  "FILE_READ_FAILURE =
     bytes_of ''POLYTOPE_BOOT schema=1 seq=0002 phase=loader level=error code=FILE_READ''"
definition CONFIG_INVALID_FAILURE :: "u8 list" where
  "CONFIG_INVALID_FAILURE =
     bytes_of ''POLYTOPE_BOOT schema=1 seq=0002 phase=loader level=error code=CONFIG_INVALID''"
definition ELF_INVALID_FAILURE :: "u8 list" where
  "ELF_INVALID_FAILURE =
     bytes_of ''POLYTOPE_BOOT schema=1 seq=0002 phase=loader level=error code=ELF_INVALID''"
definition ALLOCATION_FAILURE :: "u8 list" where
  "ALLOCATION_FAILURE =
     bytes_of ''POLYTOPE_BOOT schema=1 seq=0002 phase=loader level=error code=ALLOCATION''"
definition KERNEL_ADDRESS_FAILURE :: "u8 list" where
  "KERNEL_ADDRESS_FAILURE =
     bytes_of ''POLYTOPE_BOOT schema=1 seq=0002 phase=loader level=error code=KERNEL_ADDRESS''"
definition CONTRACT_STORAGE_FAILURE :: "u8 list" where
  "CONTRACT_STORAGE_FAILURE =
     bytes_of ''POLYTOPE_BOOT schema=1 seq=0002 phase=loader level=error code=CONTRACT_STORAGE''"
definition CONTRACT_FAILURE :: "u8 list" where
  "CONTRACT_FAILURE =
     bytes_of ''POLYTOPE_BOOT schema=1 seq=0003 phase=handoff level=error code=CONTRACT_BUILD''"
definition LOADER_PANIC_SEQUENCE_2 :: "u8 list" where
  "LOADER_PANIC_SEQUENCE_2 =
     bytes_of ''POLYTOPE_BOOT schema=1 seq=0002 phase=loader level=fatal code=LOADER_PANIC''"
definition LOADER_PANIC_SEQUENCE_3 :: "u8 list" where
  "LOADER_PANIC_SEQUENCE_3 =
     bytes_of ''POLYTOPE_BOOT schema=1 seq=0003 phase=handoff level=fatal code=LOADER_PANIC''"
definition LOADER_PANIC_SEQUENCE_4 :: "u8 list" where
  "LOADER_PANIC_SEQUENCE_4 =
     bytes_of ''POLYTOPE_BOOT schema=1 seq=0004 phase=handoff level=fatal code=LOADER_PANIC''"

lemmas loader_marker_defs =
  LOADER_START_def ELF_VALID_def HANDOFF_READY_def FILE_READ_FAILURE_def
  CONFIG_INVALID_FAILURE_def ELF_INVALID_FAILURE_def ALLOCATION_FAILURE_def
  KERNEL_ADDRESS_FAILURE_def CONTRACT_STORAGE_FAILURE_def CONTRACT_FAILURE_def
  LOADER_PANIC_SEQUENCE_2_def LOADER_PANIC_SEQUENCE_3_def LOADER_PANIC_SEQUENCE_4_def

datatype loader_error =
    FileRead | ConfigInvalid | ElfInvalid | Allocation | KernelAddress | ContractStorage | Contract

primrec loader_error_marker :: "loader_error \<Rightarrow> u8 list" where
  "loader_error_marker FileRead = FILE_READ_FAILURE"
| "loader_error_marker ConfigInvalid = CONFIG_INVALID_FAILURE"
| "loader_error_marker ElfInvalid = ELF_INVALID_FAILURE"
| "loader_error_marker Allocation = ALLOCATION_FAILURE"
| "loader_error_marker KernelAddress = KERNEL_ADDRESS_FAILURE"
| "loader_error_marker ContractStorage = CONTRACT_STORAGE_FAILURE"
| "loader_error_marker Contract = CONTRACT_FAILURE"

section \<open>The firmware interface\<close>

definition PAGE_BYTES :: usize where "PAGE_BYTES = 4096"
definition FILE_READ_CHUNK_BYTES :: usize where "FILE_READ_CHUNK_BYTES = 64 * 1024"
definition KERNEL_MEMORY_TYPE :: u32 where "KERNEL_MEMORY_TYPE = 0x80000000"
definition CONTRACT_MEMORY_TYPE :: u32 where "CONTRACT_MEMORY_TYPE = 0x80000001"
definition STACK_GUARD_MEMORY_TYPE :: u32 where "STACK_GUARD_MEMORY_TYPE = 0x80000002"

datatype allocate_type = AnyPages | Address u64

record page_allocation =
  al_base :: u64
  al_type :: u32
  al_pages :: usize

record memory_descriptor =
  md_ty :: u32
  md_phys_start :: u64
  md_page_count :: u64
  md_att :: u64

record memory_types =
  mt_conventional :: u32
  mt_loader_code :: u32
  mt_loader_data :: u32
  mt_boot_services_code :: u32
  mt_boot_services_data :: u32
  mt_runtime_services_code :: u32
  mt_runtime_services_data :: u32
  mt_acpi_reclaim :: u32
  mt_acpi_non_volatile :: u32
  mt_mmio :: u32
  mt_mmio_port_space :: u32

text \<open>
  \<open>file_reads i n\<close> is the data that the \<open>i\<close>-th read of the file puts into a buffer of \<open>n\<close> bytes;
  \<open>None\<close> is an error.  \<open>fw_reserve len additional\<close> says whether a vector of length \<open>len\<close> can grow.
  Allocations see the allocations made before them.  \<open>fw_exit_boot_services\<close> is the firmware library's
  transition out of the boot services, with its at most two attempts inside: it returns the final
  memory map, or cold-resets the machine because allocating or getting the map or the transition
  failed, or panics.  \<open>fw_sort_map\<close> is the library's in-place \<^verbatim>\<open>sort\<close> of the map.
\<close>

datatype boot_exit = FinalMap "memory_descriptor list" | ColdReset | ExitPanic

record fw_file =
  file_is_regular :: bool
  file_reads :: "nat \<Rightarrow> usize \<Rightarrow> u8 list option"

record firmware =
  fw_file_system :: bool
  fw_open_volume :: bool
  fw_open :: "u8 list \<Rightarrow> fw_file option"
  fw_reserve :: "usize \<Rightarrow> usize \<Rightarrow> bool"
  fw_allocate :: "page_allocation list \<Rightarrow> allocate_type \<Rightarrow> u32 \<Rightarrow> usize \<Rightarrow> u64 option"
  fw_exit_boot_services :: "page_allocation list \<Rightarrow> boot_exit"
  fw_sort_map :: "memory_descriptor list \<Rightarrow> memory_descriptor list"
  fw_types :: memory_types

record loader_state =
  ld_mem :: "nat \<Rightarrow> u8"
  ld_allocations :: "page_allocation list"

definition allocate_pages ::
    "firmware \<Rightarrow> allocate_type \<Rightarrow> u32 \<Rightarrow> usize \<Rightarrow> loader_state \<Rightarrow> (u64 \<times> loader_state) option" where
  "allocate_pages fw kind ty pages st =
     (case fw_allocate fw (ld_allocations st) kind ty pages of
        None \<Rightarrow> None
      | Some base \<Rightarrow>
          Some (base, st\<lparr>ld_allocations := ld_allocations st @
            [\<lparr>al_base = base, al_type = ty, al_pages = pages\<rparr>]\<rparr>))"

definition div_ceil :: "usize \<Rightarrow> usize \<Rightarrow> usize" where
  "div_ceil n d = n div d + (if n mod d = 0 then 0 else 1)"

section \<open>Reading a bounded file\<close>

text \<open>The body of the read loop; \<open>i\<close> counts the reads.\<close>

function read_loop ::
    "firmware \<Rightarrow> fw_file \<Rightarrow> usize \<Rightarrow> loader_error \<Rightarrow> usize \<Rightarrow> nat \<Rightarrow> u8 list
      \<Rightarrow> (loader_error, u8 list) outcome" where
  "read_loop fw file maximum limit_error chunk_length i bytes =
     (case file_reads file i chunk_length of
        None \<Rightarrow> Err FileRead
      | Some data \<Rightarrow>
          (let count = length data in
           if count = 0 then Ok bytes
           else
             (case usize_checked_add (length bytes) count of
                None \<Rightarrow> Err limit_error
              | Some new_length \<Rightarrow>
                  if new_length > maximum then Err limit_error
                  else if \<not> fw_reserve fw (length bytes) count then Err Allocation
                  else if count > chunk_length then Panic
                  else read_loop fw file maximum limit_error chunk_length (Suc i) (bytes @ data))))"
  by auto
termination
  by (relation "measure (\<lambda>(fw, file, maximum, limit_error, chunk_length, i, bytes).
      maximum - length bytes)")
    (auto simp: usize_checked_add_Some_iff length_greater_0_conv [symmetric]
      simp del: length_greater_0_conv)

declare read_loop.simps [simp del]

definition read_bounded_file ::
    "firmware \<Rightarrow> u8 list \<Rightarrow> usize \<Rightarrow> loader_error \<Rightarrow> (loader_error, u8 list) outcome" where
  "read_bounded_file fw path maximum limit_error =
     (case fw_open fw path of
        None \<Rightarrow> Err FileRead
      | Some file \<Rightarrow>
          if \<not> file_is_regular file then Err FileRead
          else
            let chunk_length = min (max maximum 1) FILE_READ_CHUNK_BYTES in
            if \<not> fw_reserve fw 0 chunk_length then Err Allocation
            else read_loop fw file maximum limit_error chunk_length 0 [])"

section \<open>Loading the kernel\<close>

definition write_bytes :: "nat \<Rightarrow> u8 \<Rightarrow> nat \<Rightarrow> (nat \<Rightarrow> u8) \<Rightarrow> nat \<Rightarrow> u8" where
  "write_bytes base value n mem = (\<lambda>a. if base \<le> a \<and> a < base + n then value else mem a)"

definition copy_bytes :: "nat \<Rightarrow> u8 list \<Rightarrow> (nat \<Rightarrow> u8) \<Rightarrow> nat \<Rightarrow> u8" where
  "copy_bytes base data mem =
     (\<lambda>a. if base \<le> a \<and> a < base + length data then data ! (a - base) else mem a)"

definition load_segment_to ::
    "firmware \<Rightarrow> load_segment \<Rightarrow> loader_state \<Rightarrow> (loader_error, loader_state) outcome" where
  "load_segment_to fw s st =
     and_then (ok_or (usize_try_from_u64 (seg_physical_address s)) KernelAddress) (\<lambda>destination.
     and_then (ok_or (usize_try_from_u64 (seg_memory_size s)) Allocation) (\<lambda>memory_size.
     let pages = div_ceil memory_size PAGE_BYTES in
     and_then (ok_or (allocate_pages fw (Address (seg_physical_address s)) KERNEL_MEMORY_TYPE pages st)
         KernelAddress) (\<lambda>(base, st).
     if unat base \<noteq> destination then Err KernelAddress
     else
       and_then (ok_or (usize_checked_mul pages PAGE_BYTES) Allocation) (\<lambda>allocation_bytes.
       Ok (st\<lparr>ld_mem := copy_bytes (unat base) (seg_file_data s)
             (write_bytes (unat base) 0 allocation_bytes (ld_mem st))\<rparr>)))))"

text \<open>\<^verbatim>\<open>for segment in elf.segments()\<close> with the early return of \<^verbatim>\<open>?\<close>.\<close>

function load_segments_loop ::
    "firmware \<Rightarrow> load_segments \<Rightarrow> loader_state \<Rightarrow> (loader_error, loader_state) outcome" where
  "load_segments_loop fw it st =
     (case load_segments_next it of
        Ok (Some s, it') \<Rightarrow>
          and_then (load_segment_to fw s st) (\<lambda>st. load_segments_loop fw it' st)
      | Ok (None, _) \<Rightarrow> Ok st
      | _ \<Rightarrow> Panic)"
  by auto
termination
  by (relation "measure (\<lambda>(fw, it, st). unat (it_program_header_count it) - unat (it_next_index it))")
    (auto dest: load_segments_next_progress)

declare load_segments_loop.simps [simp del]

definition load_elf_segments ::
    "firmware \<Rightarrow> validated_elf \<Rightarrow> loader_state \<Rightarrow> (loader_error, loader_state) outcome" where
  "load_elf_segments fw elf st = load_segments_loop fw (segments elf) st"

definition reserve_stack_guard ::
    "firmware \<Rightarrow> loader_state \<Rightarrow> (loader_error, loader_state) outcome" where
  "reserve_stack_guard fw st =
     and_then (ok_or (allocate_pages fw (Address STACK_GUARD_ADDRESS) STACK_GUARD_MEMORY_TYPE 1 st)
         KernelAddress) (\<lambda>(base, st).
     if base \<noteq> STACK_GUARD_ADDRESS then Err KernelAddress else Ok st)"

record contract_storage =
  cs_base :: u64
  cs_byte_length :: usize

definition contract_storage_allocate ::
    "firmware \<Rightarrow> loader_state \<Rightarrow> (loader_error, contract_storage \<times> loader_state) outcome" where
  "contract_storage_allocate fw st =
     (let pages = div_ceil BOOT_INFO_SIZE PAGE_BYTES in
      and_then (ok_or (usize_checked_mul pages PAGE_BYTES) ContractStorage) (\<lambda>byte_length.
      and_then (ok_or (allocate_pages fw AnyPages CONTRACT_MEMORY_TYPE pages st) ContractStorage)
        (\<lambda>(base, st).
      Ok (\<lparr>cs_base = base, cs_byte_length = byte_length\<rparr>, st))))"

definition KERNEL_PATH :: "u8 list" where
  "KERNEL_PATH = bytes_of ([CHR 0x5C] @ ''POLYTOPE'' @ [CHR 0x5C] @ ''KERNEL.ELF'')"
definition SCENARIO_PATH :: "u8 list" where
  "SCENARIO_PATH = bytes_of ([CHR 0x5C] @ ''POLYTOPE'' @ [CHR 0x5C] @ ''BOOT.CFG'')"

definition prepare_kernel ::
    "firmware \<Rightarrow> loader_state
      \<Rightarrow> (loader_error, (u64 \<times> contract_storage \<times> boot_scenario) \<times> loader_state) outcome" where
  "prepare_kernel fw st =
     and_then (ensure (fw_file_system fw) FileRead) (\<lambda>_.
     and_then (ensure (fw_open_volume fw) FileRead) (\<lambda>_.
     and_then (read_bounded_file fw KERNEL_PATH MAX_ELF_FILE_SIZE ElfInvalid) (\<lambda>kernel.
     and_then (read_bounded_file fw SCENARIO_PATH MAX_SCENARIO_BYTES ConfigInvalid) (\<lambda>scenario_bytes.
     and_then (map_err (\<lambda>_. ConfigInvalid) (scenario_parse scenario_bytes)) (\<lambda>scenario.
     and_then (map_err (\<lambda>_. ElfInvalid) (elf_parse kernel)) (\<lambda>elf.
     and_then (load_elf_segments fw elf st) (\<lambda>st.
     and_then (reserve_stack_guard fw st) (\<lambda>st.
     and_then (contract_storage_allocate fw st) (\<lambda>(storage, st).
     Ok ((elf_entry_point elf, storage, scenario), st))))))))))"

section \<open>Reading is bounded and exact\<close>

interpretation boot_file: chunked_reader "\<lambda>i. file_reads f i n" n maximum "fw_reserve fw" FileRead
    limit_error limit_error Allocation "read_loop fw f maximum limit_error n"
    for f n maximum fw limit_error
  by unfold_locales
    (subst read_loop.simps, simp add: Let_def usize_checked_add_def)+

text \<open>A file that delivers its contents in order, one full buffer at a time.\<close>

definition delivers :: "fw_file \<Rightarrow> u8 list \<Rightarrow> bool" where
  "delivers file content \<longleftrightarrow>
     file_is_regular file \<and> (\<forall>i n. file_reads file i n = Some (take n (drop (i * n) content)))"

text \<open>A firmware that grants every request, used to instantiate the properties below.\<close>

definition uefi_memory_types :: memory_types where
  "uefi_memory_types =
     \<lparr>mt_conventional = 7, mt_loader_code = 1, mt_loader_data = 2, mt_boot_services_code = 3,
      mt_boot_services_data = 4, mt_runtime_services_code = 5, mt_runtime_services_data = 6,
      mt_acpi_reclaim = 9, mt_acpi_non_volatile = 10, mt_mmio = 11, mt_mmio_port_space = 12\<rparr>"

definition example_file :: "u8 list \<Rightarrow> fw_file" where
  "example_file content =
     \<lparr>file_is_regular = True, file_reads = (\<lambda>i n. Some (take n (drop (i * n) content)))\<rparr>"

definition example_map :: "memory_descriptor list" where
  "example_map =
     [\<lparr>md_ty = 7, md_phys_start = 0, md_page_count = 512, md_att = 15\<rparr>,
      \<lparr>md_ty = 0x80000000, md_phys_start = 0x200000, md_page_count = 1, md_att = 15\<rparr>]"

definition example_firmware :: "u8 list \<Rightarrow> u8 list \<Rightarrow> firmware" where
  "example_firmware elf_file config =
     \<lparr>fw_file_system = True, fw_open_volume = True,
      fw_open = (\<lambda>path. if path = KERNEL_PATH then Some (example_file elf_file)
        else if path = SCENARIO_PATH then Some (example_file config) else None),
      fw_reserve = (\<lambda>_ _. True),
      fw_allocate = (\<lambda>_ kind _ _. case kind of Address a \<Rightarrow> Some a | AnyPages \<Rightarrow> Some 0x100000),
      fw_exit_boot_services = (\<lambda>_. FinalMap example_map),
      fw_sort_map = sort_key md_phys_start, fw_types = uefi_memory_types\<rparr>"

lemma delivers_example_file: "delivers (example_file content) content"
  by (simp add: delivers_def example_file_def)

lemma read_bounded_file_delivers:
  assumes "fw_open fw path = Some file" and "delivers file content"
    and "\<And>len additional. fw_reserve fw len additional" and "length content < usize_limit"
  shows "read_bounded_file fw path maximum limit_error =
    (if length content \<le> maximum then Ok content else Err limit_error)"
proof -
  let ?n = "min (max maximum 1) FILE_READ_CHUNK_BYTES"
  have n: "0 < ?n" by (simp add: FILE_READ_CHUNK_BYTES_def)
  have "\<And>i. file_reads file i ?n = Some (take ?n (drop (i * ?n) content))"
    using assms(2) by (simp add: delivers_def)
  from boot_file.loop_delivers [OF this assms(3) n assms(4), of 0 maximum limit_error] show ?thesis
    using assms(1-3) by (simp add: read_bounded_file_def delivers_def Let_def)
qed

text \<open>
  C15: reading a file of the boot volume terminates and, for a regular file whose reads deliver its
  contents in order, returns exactly those contents when they fit the limit and the caller's limit
  error when they do not; the 64 KiB chunking is invisible.
\<close>

theorem read_bounded_file_exact:
  assumes "fw_open fw path = Some file" and "delivers file content"
    and "\<And>len additional. fw_reserve fw len additional" and "length content < usize_limit"
  shows "read_bounded_file fw path maximum limit_error =
    (if length content \<le> maximum then Ok content else Err limit_error)"
  by (rule read_bounded_file_delivers [OF assms])

theorem read_bounded_file_exact_witness:
  "read_bounded_file (example_firmware [] (replicate 33 0x41)) SCENARIO_PATH MAX_SCENARIO_BYTES
     ConfigInvalid = Err ConfigInvalid \<and>
   read_bounded_file (example_firmware [] [0x41, 0x0A]) SCENARIO_PATH MAX_SCENARIO_BYTES
     ConfigInvalid = Ok [0x41, 0x0A]"
proof -
  have ne: "SCENARIO_PATH \<noteq> KERNEL_PATH" by (simp add: SCENARIO_PATH_def KERNEL_PATH_def)
  have o: "fw_open (example_firmware [] c) SCENARIO_PATH = Some (example_file c)" for c
    using ne by (simp add: example_firmware_def)
  have r: "fw_reserve (example_firmware [] c) l a" for c l a by (simp add: example_firmware_def)
  from read_bounded_file_exact [OF o delivers_example_file r, of "replicate 33 0x41"]
    read_bounded_file_exact [OF o delivers_example_file r, of "[0x41, 0x0A]"]
  show ?thesis by (simp add: MAX_SCENARIO_BYTES_def)
qed

text \<open>
  Whatever the firmware does, a successful read returns at most the requested maximum, and
  the read loop panics only if the firmware claims to have written more bytes than the buffer has.
\<close>

lemma read_bounded_file_bounded:
  assumes "\<And>file i n data. fw_open fw path = Some file \<Longrightarrow> file_reads file i n = Some data \<Longrightarrow>
    length data \<le> n"
  shows "read_bounded_file fw path maximum limit_error \<noteq> Panic \<and>
    (\<forall>bytes. read_bounded_file fw path maximum limit_error = Ok bytes \<longrightarrow> length bytes \<le> maximum)"
proof (cases "fw_open fw path")
  case (Some f)
  have "read_loop fw f maximum limit_error n i [] \<noteq> Panic" for n i
    using assms Some by (intro boot_file.loop_not_Panic)
  then show ?thesis
    using Some boot_file.loop_bound [where bs = "[]"] by (auto simp: read_bounded_file_def Let_def)
qed (simp add: read_bounded_file_def)

section \<open>The memory image of the kernel\<close>

fun load_all ::
    "firmware \<Rightarrow> load_segment list \<Rightarrow> loader_state \<Rightarrow> (loader_error, loader_state) outcome" where
  "load_all fw [] st = Ok st"
| "load_all fw (s # ss) st = and_then (load_segment_to fw s st) (\<lambda>st. load_all fw ss st)"

lemma load_segments_loop_eq:
  "collect_segments it = Ok segs \<Longrightarrow> load_segments_loop fw it st = load_all fw segs st"
proof (induction it arbitrary: segs st rule: collect_segments.induct)
  case (1 it)
  from "1.prems" obtain o_s it' where n: "load_segments_next it = Ok (o_s, it')"
    by (subst (asm) collect_segments.simps) (auto split: outcome.splits)
  show ?case
  proof (cases o_s)
    case None
    then show ?thesis
      using "1.prems" n
      by (subst load_segments_loop.simps, subst (asm) collect_segments.simps) simp
  next
    case (Some s)
    from "1.prems" n Some obtain rest where rest: "collect_segments it' = Ok rest" "segs = s # rest"
      by (subst (asm) collect_segments.simps) (auto simp: outcome_simps)
    have "load_segments_loop fw it' = load_all fw rest"
      by (rule ext) (rule "1.IH" [OF n refl Some rest(1)])
    then show ?thesis
      using n Some rest(2) by (subst load_segments_loop.simps) simp
  qed
qed

lemma div_ceil_page: "div_ceil n 4096 * 4096 = page_up n"
proof -
  have "(n + 4095) div 4096 = n div 4096 + (if n mod 4096 = 0 then 0 else 1)"
    using div_add1_eq [of n 4095 4096] by (auto simp: div_eq_0_iff)
  then show ?thesis by (simp add: div_ceil_def page_up_def)
qed

lemma page_up_aligned: "4096 dvd p \<Longrightarrow> page_up (p + n) = p + page_up n"
  by (auto simp: page_up_def add.assoc distrib_right elim!: dvdE)

text \<open>What a segment puts at an address of its pages: file data, then zeros.\<close>

definition segment_image :: "load_segment \<Rightarrow> nat \<Rightarrow> u8" where
  "segment_image s a =
     (let i = a - unat (seg_physical_address s) in
      if i < length (seg_file_data s) then seg_file_data s ! i else 0)"

definition loadable :: "load_segment \<Rightarrow> bool" where
  "loadable s \<longleftrightarrow>
     4096 dvd unat (seg_physical_address s) \<and>
     length (seg_file_data s) \<le> unat (seg_memory_size s) \<and>
     unat (seg_physical_address s) + unat (seg_memory_size s) \<le> 0x40000000"

lemma load_segment_to_Ok:
  assumes "loadable s" and "load_segment_to fw s st = Ok st'"
  shows "ld_mem st' a = (if a \<in> segment_pages s then segment_image s a else ld_mem st a)"
proof -
  let ?p = "unat (seg_physical_address s)" and ?m = "unat (seg_memory_size s)"
  from assms(2) have m: "ld_mem st' = copy_bytes ?p (seg_file_data s)
      (write_bytes ?p 0 (div_ceil ?m PAGE_BYTES * PAGE_BYTES) (ld_mem st))"
    by (auto simp: load_segment_to_def outcome_simps Let_def allocate_pages_def
        usize_checked_mul_Some_iff split: if_splits option.splits)
  moreover have "segment_pages s = {?p ..< ?p + page_up ?m}"
    using assms(1) by (simp add: segment_pages_def loadable_def page_up_aligned)
  moreover have "length (seg_file_data s) \<le> page_up ?m"
    using assms(1) page_up_ge [of ?m] by (simp add: loadable_def)
  ultimately show ?thesis
    by (auto simp: m PAGE_BYTES_def div_ceil_page copy_bytes_def write_bytes_def segment_image_def
        Let_def)
qed

lemma load_all_image:
  assumes "load_all fw segs st = Ok st'" and "list_all loadable segs"
    and "sorted_wrt (\<lambda>s t. segment_pages s \<inter> segment_pages t = {}) segs"
  shows "(\<forall>s \<in> set segs. \<forall>a \<in> segment_pages s. ld_mem st' a = segment_image s a) \<and>
    (\<forall>a. (\<forall>s \<in> set segs. a \<notin> segment_pages s) \<longrightarrow> ld_mem st' a = ld_mem st a)"
  using assms
proof (induction segs arbitrary: st)
  case Nil
  then show ?case by simp
next
  case (Cons s ss)
  then obtain st1 where st1: "load_segment_to fw s st = Ok st1" "load_all fw ss st1 = Ok st'"
    by (auto simp: outcome_simps)
  have s: "ld_mem st1 a = (if a \<in> segment_pages s then segment_image s a else ld_mem st a)" for a
    using Cons.prems(2) st1(1) by (intro load_segment_to_Ok) auto
  have IH: "\<And>t a. t \<in> set ss \<Longrightarrow> a \<in> segment_pages t \<Longrightarrow> ld_mem st' a = segment_image t a"
    "\<And>a. \<forall>t \<in> set ss. a \<notin> segment_pages t \<Longrightarrow> ld_mem st' a = ld_mem st1 a"
    using Cons.IH [OF st1(2)] Cons.prems(2,3) by auto
  have disj: "\<forall>t \<in> set ss. a \<notin> segment_pages t" if "a \<in> segment_pages s" for a
    using Cons.prems(3) that by auto
  show ?case
    using s IH disj by auto
qed

lemma elf_segments_loadable:
  assumes "elf_image_ok bytes"
  shows "list_all loadable (map (segment_of bytes) (indexed_loads bytes 0))"
    and "sorted_wrt (\<lambda>s t. segment_pages s \<inter> segment_pages t = {})
      (map (segment_of bytes) (indexed_loads bytes 0))"
proof -
  have "loadable (segment_of bytes p)" if "segment_ok (length bytes) (snd p)" for p
    using that by (cases p) (simp add: loadable_def segment_of_def segment_ok_def segment_end_def
        min.coboundedI2)
  then show "list_all loadable (map (segment_of bytes) (indexed_loads bytes 0))"
    using indexed_loads_ok(2) [OF assms] by (auto simp: list_all_iff)
  show "sorted_wrt (\<lambda>s t. segment_pages s \<inter> segment_pages t = {})
      (map (segment_of bytes) (indexed_loads bytes 0))"
    using segments_disjoint [OF assms refl] by (simp add: sorted_wrt_iff_nth_less)
qed

lemma load_elf_segments_eq:
  "elf_image_ok bytes \<Longrightarrow> load_elf_segments fw (elf_view bytes) st =
    load_all fw (map (segment_of bytes) (indexed_loads bytes 0)) st"
  unfolding load_elf_segments_def by (rule load_segments_loop_eq [OF collect_segments_eq])

text \<open>A firmware that grants fixed-address requests at the requested address.\<close>

definition grants_addresses :: "firmware \<Rightarrow> bool" where
  "grants_addresses fw \<longleftrightarrow> (\<forall>history a ty pages. fw_allocate fw history (Address a) ty pages = Some a)"

lemma load_segment_to_granted:
  assumes "grants_addresses fw" and "loadable s"
  shows "\<exists>st'. load_segment_to fw s st = Ok st'"
proof -
  have "page_up (unat (seg_memory_size s)) \<le> 0x40000000"
    using assms(2) by (intro page_up_bound) (simp add: loadable_def)
  then show ?thesis
    using assms(1)
    by (simp add: load_segment_to_def grants_addresses_def allocate_pages_def Let_def
        usize_checked_mul_def PAGE_BYTES_def div_ceil_page)
qed

lemma load_all_granted:
  "grants_addresses fw \<Longrightarrow> list_all loadable segs \<Longrightarrow> \<exists>st'. load_all fw segs st = Ok st'"
proof (induction segs arbitrary: st)
  case (Cons s ss)
  then show ?case using load_segment_to_granted [of fw s st] by fastforce
qed simp

lemma load_elf_segments_granted:
  "grants_addresses fw \<Longrightarrow> elf_image_ok bytes \<Longrightarrow>
    \<exists>st'. load_elf_segments fw (elf_view bytes) st = Ok st'"
  by (simp add: load_elf_segments_eq load_all_granted elf_segments_loadable(1))

text \<open>
  C16: loading an accepted kernel image gives exactly the memory image that the ELF file
  describes.  Every segment's file bytes stand at its physical address, the rest of its pages is
  zero, and no byte outside the pages of the segments changes.
\<close>

theorem loaded_kernel_image:
  assumes "elf_parse bytes = Ok v" and "load_elf_segments fw v st = Ok st'"
  shows "\<exists>segs. collect_segments (segments v) = Ok segs \<and>
    (\<forall>s \<in> set segs.
      memory_slice (ld_mem st') (unat (seg_physical_address s)) (unat (seg_file_size s)) =
        seg_file_data s \<and>
      (\<forall>a \<in> segment_pages s. unat (seg_physical_address s) + unat (seg_file_size s) \<le> a \<longrightarrow>
        ld_mem st' a = 0)) \<and>
    (\<forall>a. (\<forall>s \<in> set segs. a \<notin> segment_pages s) \<longrightarrow> ld_mem st' a = ld_mem st a)"
proof -
  let ?segs = "map (segment_of bytes) (indexed_loads bytes 0)"
  have ok: "elf_image_ok bytes" and v: "v = elf_view bytes"
    using assms by (simp_all add: elf_parse_Ok_iff)
  have load: "load_all fw ?segs st = Ok st'"
    using assms(2) by (simp add: v load_elf_segments_eq [OF ok])
  note img = load_all_image [OF load elf_segments_loadable [OF ok]]
  have "memory_slice (ld_mem st') (unat (seg_physical_address s)) (unat (seg_file_size s)) =
        seg_file_data s \<and>
      (\<forall>a \<in> segment_pages s. unat (seg_physical_address s) + unat (seg_file_size s) \<le> a \<longrightarrow>
        ld_mem st' a = 0)" if "s \<in> set ?segs" for s
  proof -
    have len: "length (seg_file_data s) = unat (seg_file_size s)"
      and le: "unat (seg_file_size s) \<le> unat (seg_memory_size s)"
      using that indexed_loads_ok(2) [OF ok]
      by (auto simp: segment_of_def segment_ok_def)
    have pages: "unat (seg_physical_address s) + i \<in> segment_pages s" if "i < unat (seg_file_size s)" for i
      using that le page_up_ge [of "unat (seg_physical_address s) + unat (seg_memory_size s)"]
      by (simp add: segment_pages_def)
    show ?thesis
      using img that len pages by (auto simp: memory_slice_eq_iff segment_image_def Let_def)
  qed
  then show ?thesis
    using collect_segments_eq [OF ok] img by (intro exI [of _ ?segs]) (simp add: v)
qed

theorem loaded_kernel_image_witness:
  "\<exists>st'. load_elf_segments (example_firmware example_elf []) (elf_view example_elf)
     \<lparr>ld_mem = (\<lambda>_. 0xFF), ld_allocations = []\<rparr> = Ok st' \<and> ld_mem st' 0x100 = 0xFF"
proof -
  let ?fw = "example_firmware example_elf []"
  let ?st = "\<lparr>ld_mem = (\<lambda>_. 0xFF), ld_allocations = []\<rparr> :: loader_state"
  have "grants_addresses ?fw" by (simp add: grants_addresses_def example_firmware_def)
  then obtain st' where st': "load_elf_segments ?fw (elf_view example_elf) ?st = Ok st'"
    using load_elf_segments_granted example_elf_ok by blast
  from loaded_kernel_image [OF elf_parse_ok [OF example_elf_ok] st'] obtain segs
    where segs: "collect_segments (segments (elf_view example_elf)) = Ok segs"
      and frame: "(\<forall>s \<in> set segs. 0x100 \<notin> segment_pages s) \<longrightarrow> ld_mem st' 0x100 = ld_mem ?st 0x100"
    by blast
  have "segs = map (segment_of example_elf) (indexed_loads example_elf 0)"
    using segs collect_segments_eq [OF example_elf_ok] by simp
  then have "0x100 \<notin> segment_pages s" if "s \<in> set segs" for s
    using that indexed_loads_ok(2) [OF example_elf_ok]
    by (auto simp: segment_pages_def segment_of_def segment_ok_def)
  then show ?thesis using frame st' by simp
qed

end
