(* ===== verification/Loader_Handoff.thy ===== *)
theory Loader_Handoff
  imports Uefi_Loader
begin

text \<open>
  The second half of \<^verbatim>\<open>crates/uefi-loader/src/main.rs\<close>: turning the firmware memory map into a boot
  contract, the failure paths, and \<^verbatim>\<open>main\<close> up to the jump into the kernel.  \<^verbatim>\<open>main\<close> ends in one of two
  ways: it stops the machine with a diagnostic, or it hands over an entry address, the address and
  length of the contract, the memory and the trace so far.
\<close>

section \<open>Building the contract\<close>

definition normalize_memory_kind :: "memory_types \<Rightarrow> memory_descriptor \<Rightarrow> memory_kind" where
  "normalize_memory_kind t d =
     (if md_ty d = STACK_GUARD_MEMORY_TYPE then KIND_RESERVED
      else if md_ty d = KERNEL_MEMORY_TYPE then KIND_KERNEL_IMAGE
      else if md_ty d = CONTRACT_MEMORY_TYPE then KIND_BOOT_CONTRACT
      else if md_ty d = mt_conventional t then KIND_USABLE
      else if md_ty d = mt_loader_code t \<or> md_ty d = mt_loader_data t \<or>
          md_ty d = mt_boot_services_code t \<or> md_ty d = mt_boot_services_data t
        then KIND_RECLAIMABLE
      else if md_ty d = mt_runtime_services_code t \<or> md_ty d = mt_runtime_services_data t
        then KIND_FIRMWARE_RUNTIME
      else if md_ty d = mt_acpi_reclaim t then KIND_ACPI_RECLAIMABLE
      else if md_ty d = mt_acpi_non_volatile t then KIND_ACPI_NVS
      else if md_ty d = mt_mmio t \<or> md_ty d = mt_mmio_port_space t then KIND_MMIO
      else KIND_RESERVED)"

primrec scenario_info_of :: "boot_scenario \<Rightarrow> scenario_info" where
  "scenario_info_of Normal = scenario_normal"
| "scenario_info_of IncompatibleVersion = scenario_test INCOMPATIBLE_VERSION 0"
| "scenario_info_of TruncatedContract = scenario_test MALFORMED_METADATA 0"
| "scenario_info_of DeliberatePanic = scenario_test DELIBERATE_PANIC 0"

text \<open>The loop over the memory map; \<open>index\<close> is \<^verbatim>\<open>region_index\<close>.\<close>

fun add_regions ::
    "memory_types \<Rightarrow> memory_descriptor list \<Rightarrow> usize \<Rightarrow> boot_info \<Rightarrow> (loader_error, boot_info) outcome" where
  "add_regions t [] index info = Ok info"
| "add_regions t (d # ds) index info =
     (if md_page_count d = 0 then add_regions t ds index info
      else
        and_then (ok_or (checked_mul (md_page_count d) CONTRACT_PAGE_SIZE) Contract) (\<lambda>len.
        let region = memory_region_new (md_phys_start d) len (normalize_memory_kind t d) (md_ty d)
              (md_att d) in
        and_then (map_err (\<lambda>_. Contract) (set_memory_region info index region)) (\<lambda>info.
        and_then (ok_or (usize_checked_add index 1) Contract) (\<lambda>index.
        add_regions t ds index info))))"

definition encode_contract ::
    "memory_types \<Rightarrow> memory_descriptor list \<Rightarrow> usize \<Rightarrow> boot_scenario
      \<Rightarrow> (loader_error, usize \<times> u8 list) outcome" where
  "encode_contract t entries storage_bytes scn =
     and_then (add_regions t entries 0 (boot_info_new (x86_64_uefi 0) (scenario_info_of scn))) (\<lambda>info.
     let output = replicate storage_bytes 0 in
     and_then (map_err (\<lambda>_. Contract) (contract_encode info output)) (\<lambda>(encoded, output).
     and_then
       (if scn = IncompatibleVersion then
          let version = ABI_MAJOR_OFFSET in
          if version + 2 \<le> length output
          then Ok (take version output @ to_le_bytes (ABI_MAJOR + 1) @ drop (version + 2) output)
          else Panic
        else Ok output) (\<lambda>output.
     if scn = TruncatedContract then
       (if 1 \<le> encoded then Ok (encoded - 1, output) else Err Contract)
     else Ok (encoded, output))))"

section \<open>Main\<close>

text \<open>
  The loader ends by writing the exit port, by the cold reset of the firmware library inside
  \<^verbatim>\<open>exit_boot_services\<close>, which writes nothing, or by entering the kernel.
\<close>

datatype loader_result =
    LoaderExit io_trace
  | LoaderReset io_trace
  | Handoff u64 usize usize "nat \<Rightarrow> u8" io_trace

definition loader_fail :: "device \<Rightarrow> early_console \<times> io_trace \<Rightarrow> loader_error \<Rightarrow> io_trace" where
  "loader_fail dev console error =
     qemu_exit LoaderFailure (snd (write_record dev (loader_error_marker error) console))"

text \<open>The panic handler reads the static \<^verbatim>\<open>NEXT_PANIC_SEQUENCE\<close>, an argument here.\<close>

definition loader_panic_handler :: "device \<Rightarrow> u8 \<Rightarrow> io_trace \<Rightarrow> io_trace" where
  "loader_panic_handler dev next_panic_sequence tr =
     (let marker = (if next_panic_sequence = 2 then LOADER_PANIC_SEQUENCE_2
          else if next_panic_sequence = 3 then LOADER_PANIC_SEQUENCE_3
          else LOADER_PANIC_SEQUENCE_4)
      in qemu_exit LoaderFailure (snd (write_record dev marker (console_new tr))))"

definition transfer_to_kernel ::
    "device \<Rightarrow> u64 \<Rightarrow> usize \<Rightarrow> usize \<Rightarrow> (nat \<Rightarrow> u8) \<Rightarrow> io_trace \<Rightarrow> loader_result" where
  "transfer_to_kernel dev entry_point contract len mem tr =
     (case usize_try_from_u64 entry_point of
        None \<Rightarrow> LoaderExit (loader_fail dev (console_new tr) ElfInvalid)
      | Some address \<Rightarrow> Handoff entry_point contract len mem tr)"

definition loader_main :: "firmware \<Rightarrow> device \<Rightarrow> loader_state \<Rightarrow> io_trace \<Rightarrow> loader_result" where
  "loader_main fw dev st tr =
     (let console = write_record dev LOADER_START (console_new tr) in
      case prepare_kernel fw st of
        Panic \<Rightarrow> LoaderExit (loader_panic_handler dev 2 (snd console))
      | Err error \<Rightarrow> LoaderExit (loader_fail dev console error)
      | Ok ((entry_point, storage, scn), st) \<Rightarrow>
          let console = write_record dev ELF_VALID console in
          (case fw_exit_boot_services fw (ld_allocations st) of
             ColdReset \<Rightarrow> LoaderReset (snd console)
           | ExitPanic \<Rightarrow> LoaderExit (loader_panic_handler dev 3 (snd console))
           | FinalMap memory_map \<Rightarrow>
               let memory_map = fw_sort_map fw memory_map in
               (case encode_contract (fw_types fw) memory_map (cs_byte_length storage) scn of
                  Panic \<Rightarrow> LoaderExit (loader_panic_handler dev 3 (snd console))
                | Err error \<Rightarrow> LoaderExit (loader_fail dev console error)
                | Ok (contract_length, output) \<Rightarrow>
                    let console = write_record dev HANDOFF_READY console;
                        mem = copy_bytes (unat (cs_base storage)) output (ld_mem st) in
                    transfer_to_kernel dev entry_point (unat (cs_base storage)) contract_length mem
                      (snd console))))"

section \<open>The regions of a memory map\<close>

definition region_of :: "memory_types \<Rightarrow> memory_descriptor \<Rightarrow> memory_region" where
  "region_of t d =
     memory_region_new (md_phys_start d) (md_page_count d * 4096) (normalize_memory_kind t d)
       (md_ty d) (md_att d)"

definition live_descriptors :: "memory_descriptor list \<Rightarrow> memory_descriptor list" where
  "live_descriptors ds = filter (\<lambda>d. md_page_count d \<noteq> 0) ds"

definition regions_of :: "memory_types \<Rightarrow> memory_descriptor list \<Rightarrow> memory_region list" where
  "regions_of t ds = map (region_of t) (live_descriptors ds)"

definition built :: "scenario_info \<Rightarrow> memory_region list \<Rightarrow> boot_info" where
  "built s rs =
     \<lparr>header = boot_header_current\<lparr>memory_region_count := of_nat (length rs)\<rparr>,
      platform = x86_64_uefi 0, scenario = s,
      memory_regions = rs @ replicate (128 - length rs) REGION_EMPTY\<rparr>"

lemma boot_info_new_built: "boot_info_new (x86_64_uefi 0) s = built s []"
  by (simp add: boot_info_new_def built_def boot_header_current_def MAX_MEMORY_REGIONS_def)

lemma set_memory_region_built:
  "set_memory_region (built s rs) (length rs) r =
    (if length rs < 128 then Ok (built s (rs @ [r])) else Err (RegionIndexOutOfBounds (length rs)))"
proof (cases "length rs < 128")
  case True
  have "replicate (128 - length rs) REGION_EMPTY =
      REGION_EMPTY # replicate (128 - Suc (length rs)) REGION_EMPTY"
    using True by (metis Suc_diff_Suc replicate_Suc)
  then show ?thesis
    using True
    by (simp add: set_memory_region_def built_def MAX_MEMORY_REGIONS_def u32_try_from_usize_def
        unat_of_nat Let_def)
qed (simp add: set_memory_region_def MAX_MEMORY_REGIONS_def)

definition map_fits :: "memory_descriptor list \<Rightarrow> bool" where
  "map_fits ds \<longleftrightarrow> list_all (\<lambda>d. unat (md_page_count d) * 4096 < 2 ^ 64) (live_descriptors ds)"

lemma add_regions_Ok_iff:
  assumes "length rs \<le> 128"
  shows "add_regions t ds (length rs) (built s rs) = Ok info \<longleftrightarrow>
    map_fits ds \<and> length rs + length (live_descriptors ds) \<le> 128 \<and>
    info = built s (rs @ regions_of t ds)"
  using assms
proof (induction ds arbitrary: rs)
  case Nil
  then show ?case by (auto simp: map_fits_def live_descriptors_def regions_of_def)
next
  case (Cons d ds)
  show ?case
  proof (cases "md_page_count d = 0")
    case True
    then show ?thesis using Cons by (simp add: map_fits_def live_descriptors_def regions_of_def)
  next
    case False
    have mul: "checked_mul (md_page_count d) CONTRACT_PAGE_SIZE =
        (if unat (md_page_count d) * 4096 < 2 ^ 64 then Some (md_page_count d * 4096) else None)"
      by (simp add: checked_mul_def CONTRACT_PAGE_SIZE_def)
    have "add_regions t (d # ds) (length rs) (built s rs) = Ok info \<longleftrightarrow>
        unat (md_page_count d) * 4096 < 2 ^ 64 \<and> length rs < 128 \<and>
        add_regions t ds (length (rs @ [region_of t d])) (built s (rs @ [region_of t d])) = Ok info"
      using False by (auto simp: mul set_memory_region_built Let_def usize_checked_add_def
          region_of_def)
    also have "\<dots> \<longleftrightarrow> map_fits (d # ds) \<and> length rs + length (live_descriptors (d # ds)) \<le> 128 \<and>
        info = built s (rs @ regions_of t (d # ds))"
      using Cons.IH [of "rs @ [region_of t d]"] False
      by (auto simp: map_fits_def live_descriptors_def regions_of_def)
    finally show ?thesis .
  qed
qed

lemma add_regions_not_Panic: "add_regions t ds index info \<noteq> Panic"
  by (induction t ds index info rule: add_regions.induct)
    (auto simp: outcome_simps Let_def set_memory_region_def)

section \<open>When the contract can be built\<close>

definition map_ok :: "memory_types \<Rightarrow> memory_descriptor list \<Rightarrow> bool" where
  "map_ok t ds \<longleftrightarrow>
     map_fits ds \<and> length (live_descriptors ds) \<le> 128 \<and> list_all region_ok (regions_of t ds) \<and>
     sorted_wrt region_before (regions_of t ds)"

lemma length_regions_of [simp]: "length (regions_of t ds) = length (live_descriptors ds)"
  by (simp add: regions_of_def)

lemma active_regions_built: "length rs \<le> 128 \<Longrightarrow> active_regions (built s rs) = rs"
  by (simp add: active_regions_def built_def unat_of_nat)

lemma built_typed: "length rs \<le> 128 \<Longrightarrow> boot_info_typed (built s rs)"
  by (simp add: boot_info_typed_def built_def boot_header_current_def abi_consts)

lemma valid_built_iff:
  assumes "length rs \<le> 128" and "scenario_ok s"
  shows "valid_contract (built s rs) \<longleftrightarrow> list_all region_ok rs \<and> sorted_wrt region_before rs"
proof -
  have "header_ok (header (built s rs))" "platform_ok (platform (built s rs))"
    using assms(1)
    by (simp_all add: built_def header_ok_def boot_header_current_def abi_consts unat_of_nat
        platform_ok_def x86_64_uefi_def)
  moreover have "regions_ok (built s rs) \<longleftrightarrow> list_all region_ok rs \<and> sorted_wrt region_before rs"
    unfolding regions_ok_def active_regions_built [OF assms(1)]
    using assms(1) by (simp add: built_def unat_of_nat list_all_iff)
  ultimately show ?thesis
    using assms built_typed [OF assms(1), of s] by (simp add: valid_contract_def built_def)
qed

lemma scenario_info_of_ok: "scenario_ok (scenario_info_of scn)"
  by (cases scn) (simp_all add: scenario_ok_def scenario_test_def abi_consts)

text \<open>The contract that the loader means to hand over, and the bytes it writes.\<close>

definition loader_contract :: "memory_types \<Rightarrow> memory_descriptor list \<Rightarrow> boot_scenario \<Rightarrow> boot_info" where
  "loader_contract t ds scn = built (scenario_info_of scn) (regions_of t ds)"

definition stored_contract :: "memory_types \<Rightarrow> memory_descriptor list \<Rightarrow> boot_scenario \<Rightarrow> boot_info" where
  "stored_contract t ds scn =
     (let info = loader_contract t ds scn in
      if scn = IncompatibleVersion
      then info\<lparr>header := (header info)\<lparr>abi_major := ABI_MAJOR + 1\<rparr>\<rparr> else info)"

definition handoff_length :: "boot_scenario \<Rightarrow> usize" where
  "handoff_length scn = (if scn = TruncatedContract then 4175 else 4176)"

lemma valid_loader_contract_iff:
  "map_fits ds \<Longrightarrow> length (live_descriptors ds) \<le> 128 \<Longrightarrow>
    valid_contract (loader_contract t ds scn) \<longleftrightarrow> map_ok t ds"
  by (simp add: loader_contract_def map_ok_def valid_built_iff scenario_info_of_ok)

lemma typed_stored_contract:
  "length (live_descriptors ds) \<le> 128 \<Longrightarrow> boot_info_typed (stored_contract t ds scn)"
  using built_typed [of "regions_of t ds" "scenario_info_of scn"]
  by (auto simp: stored_contract_def loader_contract_def boot_info_typed_def Let_def)

text \<open>Overwriting the two version bytes of an encoding is encoding the contract with that version.\<close>

lemma wire_patch_version:
  assumes "boot_info_typed info"
  shows "take 8 (wire_boot_info info @ xs) @ to_le_bytes v @ drop 10 (wire_boot_info info @ xs) =
    wire_boot_info (info\<lparr>header := (header info)\<lparr>abi_major := v\<rparr>\<rparr>) @ xs"
  using assms by (simp add: wire_boot_info_def wire_boot_header_def boot_info_typed_def)

lemma encode_contract_Ok_iff:
  assumes "BOOT_INFO_SIZE \<le> storage_bytes"
  shows "encode_contract t ds storage_bytes scn = Ok (n, output) \<longleftrightarrow>
    map_ok t ds \<and> n = handoff_length scn \<and>
    output = wire_boot_info (stored_contract t ds scn) @ replicate (storage_bytes - 4176) 0"
    and "encode_contract t ds storage_bytes scn \<noteq> Panic"
proof -
  let ?info = "loader_contract t ds scn" and ?zeros = "replicate storage_bytes (0::u8)"
  let ?add = "add_regions t ds 0 (boot_info_new (x86_64_uefi 0) (scenario_info_of scn))"
  have add: "?add = Ok info \<longleftrightarrow>
      map_fits ds \<and> length (live_descriptors ds) \<le> 128 \<and> info = ?info" for info
    using add_regions_Ok_iff [of "[]" t ds "scenario_info_of scn" info]
    by (simp add: boot_info_new_built loader_contract_def)
  have enc: "map_ok t ds \<Longrightarrow> contract_encode ?info ?zeros =
      Ok (4176, wire_boot_info ?info @ replicate (storage_bytes - 4176) 0)"
    "contract_encode ?info ?zeros \<noteq> Panic"
    "contract_encode ?info ?zeros = Ok r \<Longrightarrow> map_ok t ds \<and> snd r =
      wire_boot_info ?info @ replicate (storage_bytes - 4176) 0"
    if fits: "map_fits ds" "length (live_descriptors ds) \<le> 128" for r
  proof -
    have typed: "boot_info_typed ?info"
      using fits(2) by (simp add: loader_contract_def built_typed)
    have v: "validate_ref ?info = Ok u \<longleftrightarrow> map_ok t ds" for u
      using validate_ref_Ok_iff [OF typed] valid_loader_contract_iff [OF fits] by simp
    show "map_ok t ds \<Longrightarrow> contract_encode ?info ?zeros =
        Ok (4176, wire_boot_info ?info @ replicate (storage_bytes - 4176) 0)"
      using v assms by (simp add: contract_encode_eq [OF typed] BOOT_INFO_SIZE_def)
    show "contract_encode ?info ?zeros \<noteq> Panic"
      using validate_ref_not_Panic [OF typed] by (simp add: contract_encode_eq [OF typed] outcome_simps)
    show "contract_encode ?info ?zeros = Ok r \<Longrightarrow> map_ok t ds \<and> snd r =
        wire_boot_info ?info @ replicate (storage_bytes - 4176) 0"
      using v by (auto simp: contract_encode_eq [OF typed] outcome_simps BOOT_INFO_SIZE_def
          split: if_splits)
  qed
  have len: "length (wire_boot_info ?info) = 4176" if "length (live_descriptors ds) \<le> 128"
    using that wire_boot_info_length [of ?info] by (simp add: loader_contract_def built_typed abi_consts)
  show "encode_contract t ds storage_bytes scn \<noteq> Panic"
    using enc(2) enc(3) len
    by (auto simp: encode_contract_def outcome_simps add_regions_not_Panic add Let_def
        ABI_MAJOR_OFFSET_def split: if_splits)
  show "encode_contract t ds storage_bytes scn = Ok (n, output) \<longleftrightarrow>
    map_ok t ds \<and> n = handoff_length scn \<and>
    output = wire_boot_info (stored_contract t ds scn) @ replicate (storage_bytes - 4176) 0"
  proof (cases "map_ok t ds")
    case True
    then have fits: "map_fits ds" "length (live_descriptors ds) \<le> 128" by (simp_all add: map_ok_def)
    have "?add = Ok ?info" using add fits by simp
    moreover note patch = wire_patch_version [OF built_typed, of "regions_of t ds" "scenario_info_of scn"
        "replicate (storage_bytes - 4176) 0" "ABI_MAJOR + 1"]
    ultimately show ?thesis
      using fits enc(1) [OF fits True] len True
      by (auto simp: encode_contract_def stored_contract_def handoff_length_def Let_def
          ABI_MAJOR_OFFSET_def loader_contract_def)
  next
    case False
    then show ?thesis
      using enc(3) by (auto simp: encode_contract_def outcome_simps add)
  qed
qed

section \<open>What the kernel sees\<close>

lemma valid_stored_contract:
  "map_ok t ds \<Longrightarrow> scn \<noteq> IncompatibleVersion \<Longrightarrow> valid_contract (stored_contract t ds scn)"
  using valid_loader_contract_iff [of ds t scn] by (simp add: stored_contract_def map_ok_def)

lemma parse_stored_contract:
  assumes "map_ok t ds"
  shows "contract_parse (take (handoff_length scn) (wire_boot_info (stored_contract t ds scn) @ xs)) =
    (case scn of
       IncompatibleVersion \<Rightarrow> Err (UnsupportedVersion 2 0)
     | TruncatedContract \<Rightarrow> Err (Truncated 4175 4176)
     | _ \<Rightarrow> Ok (ValidatedBootInfo (loader_contract t ds scn)))"
proof -
  let ?info = "stored_contract t ds scn"
  have typed: "boot_info_typed ?info"
    using assms by (simp add: typed_stored_contract map_ok_def)
  have len: "length (wire_boot_info ?info) = 4176"
    using wire_boot_info_length [OF typed] by (simp add: BOOT_INFO_SIZE_def)
  have head: "wire_boot_header (header ?info) = take 32 (take k (wire_boot_info ?info))" if "32 \<le> k" for k
    using that typed by (simp add: wire_boot_info_def boot_info_typed_def codec_header.enc_width)
  have magic: "length (hdr_magic (header ?info)) = 8"
    using typed by (simp add: boot_info_typed_def)
  have valid: "valid_contract ?info" if "scn \<noteq> IncompatibleVersion"
    by (rule valid_stored_contract [OF assms that])
  have h: "validate_header (header ?info) = Ok ()" if "scn \<noteq> IncompatibleVersion"
    using valid [OF that] by (simp add: validate_header_Ok_iff valid_contract_def)
  have pre: "prevalidate (take k (wire_boot_info ?info)) =
      and_then (validate_header (header ?info)) (\<lambda>_. Err (Truncated k 4176))" if "32 \<le> k" "k < 4176" for k
    using prevalidate_eq [OF _ head [OF that(1)] magic] that len by simp
  have full: "take 4176 (wire_boot_info ?info @ xs) = wire_boot_info ?info" using len by simp
  show ?thesis
  proof (cases scn)
    case Normal
    then show ?thesis using valid full by (simp add: handoff_length_def parse_wire stored_contract_def)
  next
    case DeliberatePanic
    then show ?thesis using valid full by (simp add: handoff_length_def parse_wire stored_contract_def)
  next
    case TruncatedContract
    then show ?thesis
      using pre [of 4175] h len by (simp add: handoff_length_def contract_parse_def)
  next
    case IncompatibleVersion
    have "validate_header (header ?info) = Err (UnsupportedVersion 2 0)"
      by (simp add: IncompatibleVersion stored_contract_def loader_contract_def built_def
          boot_header_current_def validate_header_def abi_consts)
    then have "prevalidate (wire_boot_info ?info) = Err (UnsupportedVersion 2 0)"
      using prevalidate_eq [OF _ _ magic, of "wire_boot_info ?info"] head [of 4176] len by simp
    then show ?thesis
      using IncompatibleVersion full by (simp add: handoff_length_def contract_parse_def)
  qed
qed

lemma example_map_ok: "map_ok uefi_memory_types example_map"
proof -
  have m: "uefi_memory_types = \<lparr>mt_conventional = 7, mt_loader_code = 1, mt_loader_data = 2,
      mt_boot_services_code = 3, mt_boot_services_data = 4, mt_runtime_services_code = 5,
      mt_runtime_services_data = 6, mt_acpi_reclaim = 9, mt_acpi_non_volatile = 10, mt_mmio = 11,
      mt_mmio_port_space = 12\<rparr>" by (rule uefi_memory_types_def)
  show ?thesis
    by (simp add: map_ok_def map_fits_def live_descriptors_def example_map_def regions_of_def
        region_of_def memory_region_new_def normalize_memory_kind_def m STACK_GUARD_MEMORY_TYPE_def
        KERNEL_MEMORY_TYPE_def CONTRACT_MEMORY_TYPE_def region_ok_def region_end_def
        region_before_def is_known_def KIND_USABLE_def KIND_KERNEL_IMAGE_def)
qed

text \<open>
  C17: the contract handed to the kernel is the one the scenario asks for.  Whenever the loader
  builds a contract from a memory map, the kernel's decoder sees, at the announced length, the
  intended contract with all non-empty descriptors in order (normal and panic scenarios), an
  unsupported version, or a truncated contract; nothing else can result.
\<close>

theorem handoff_contract:
  assumes "encode_contract t ds storage_bytes scn = Ok (n, output)"
    and "BOOT_INFO_SIZE \<le> storage_bytes"
  shows "length output = storage_bytes \<and> n \<le> storage_bytes \<and>
    contract_parse (take n output) =
      (case scn of
         IncompatibleVersion \<Rightarrow> Err (UnsupportedVersion 2 0)
       | TruncatedContract \<Rightarrow> Err (Truncated 4175 4176)
       | _ \<Rightarrow> Ok (ValidatedBootInfo (loader_contract t ds scn))) \<and>
    scenario (loader_contract t ds scn) = scenario_info_of scn \<and>
    active_regions (loader_contract t ds scn) =
      map (region_of t) (filter (\<lambda>d. md_page_count d \<noteq> 0) ds)"
proof -
  have map_ok: "map_ok t ds" and n: "n = handoff_length scn"
    and out: "output = wire_boot_info (stored_contract t ds scn) @ replicate (storage_bytes - 4176) 0"
    using assms(1) unfolding encode_contract_Ok_iff(1) [OF assms(2)] by blast+
  have typed: "boot_info_typed (stored_contract t ds scn)"
    using map_ok by (simp add: typed_stored_contract map_ok_def)
  have "active_regions (loader_contract t ds scn) = regions_of t ds"
    using map_ok by (simp add: loader_contract_def active_regions_built map_ok_def)
  moreover have "length output = storage_bytes" "n \<le> storage_bytes"
    using assms(2) wire_boot_info_length [OF typed]
    by (simp_all add: n out BOOT_INFO_SIZE_def handoff_length_def)
  moreover have "scenario (loader_contract t ds scn) = scenario_info_of scn"
    by (simp add: loader_contract_def built_def)
  ultimately show ?thesis
    using parse_stored_contract [OF map_ok]
    by (simp only: n out regions_of_def live_descriptors_def)
qed

lemma example_encode:
  "encode_contract uefi_memory_types example_map 8192 scn =
    Ok (handoff_length scn,
        wire_boot_info (stored_contract uefi_memory_types example_map scn) @ replicate 4016 0)"
  using encode_contract_Ok_iff(1) [of 8192 uefi_memory_types example_map scn] example_map_ok
  by (simp add: BOOT_INFO_SIZE_def)

theorem handoff_contract_witness:
  "contract_parse (take 4176 (wire_boot_info (stored_contract uefi_memory_types example_map
      IncompatibleVersion) @ replicate 4016 0)) = Err (UnsupportedVersion 2 0)"
  using handoff_contract [OF example_encode [of IncompatibleVersion]]
  by (simp add: BOOT_INFO_SIZE_def handoff_length_def del: take_append)

text \<open>The condition on a memory map in terms of its descriptors alone.\<close>

definition descriptor_end :: "memory_descriptor \<Rightarrow> nat" where
  "descriptor_end d = unat (md_phys_start d) + unat (md_page_count d) * 4096"

definition firmware_map_ok :: "memory_descriptor list \<Rightarrow> bool" where
  "firmware_map_ok ds \<longleftrightarrow>
     length ds \<le> 128 \<and>
     list_all (\<lambda>d. 4096 dvd unat (md_phys_start d) \<and> descriptor_end d < 2 ^ 64) ds \<and>
     sorted_wrt (\<lambda>a b. descriptor_end a \<le> unat (md_phys_start b)) ds"

lemma normalize_is_known: "is_known (normalize_memory_kind t d)"
  by (simp add: normalize_memory_kind_def is_known_def KIND_RESERVED_def KIND_KERNEL_IMAGE_def
      KIND_BOOT_CONTRACT_def KIND_USABLE_def KIND_RECLAIMABLE_def KIND_FIRMWARE_RUNTIME_def
      KIND_ACPI_RECLAIMABLE_def KIND_ACPI_NVS_def KIND_MMIO_def)

lemma region_of_end:
  "unat (md_page_count d) * 4096 < 2 ^ 64 \<Longrightarrow> region_end (region_of t d) = descriptor_end d"
  by (simp add: region_end_def region_of_def memory_region_new_def descriptor_end_def unat_word_ariths)

lemma region_of_ok:
  assumes "md_page_count d \<noteq> 0" and "unat (md_page_count d) * 4096 < 2 ^ 64"
  shows "region_ok (region_of t d) \<longleftrightarrow>
    4096 dvd unat (md_phys_start d) \<and> descriptor_end d < 2 ^ 64"
proof -
  have "unat (rg_length (region_of t d)) = unat (md_page_count d) * 4096"
    using assms(2) by (simp add: region_of_def memory_region_new_def unat_word_ariths)
  then show ?thesis
    using assms(1) region_of_end [OF assms(2), of t]
    by (auto simp: region_ok_def region_of_def memory_region_new_def normalize_is_known unat_gt_0)
qed

lemma map_ok_iff: "map_ok t ds \<longleftrightarrow> firmware_map_ok (live_descriptors ds)"
proof (cases "map_fits ds")
  case True
  have live: "md_page_count d \<noteq> 0" "unat (md_page_count d) * 4096 < 2 ^ 64"
    if "d \<in> set (live_descriptors ds)" for d
    using that True by (auto simp: map_fits_def live_descriptors_def list_all_iff)
  have "list_all region_ok (regions_of t ds) \<longleftrightarrow>
      list_all (\<lambda>d. 4096 dvd unat (md_phys_start d) \<and> descriptor_end d < 2 ^ 64) (live_descriptors ds)"
    using live by (auto simp: regions_of_def list_all_iff region_of_ok)
  moreover have "sorted_wrt region_before (regions_of t ds) \<longleftrightarrow>
      sorted_wrt (\<lambda>a b. descriptor_end a \<le> unat (md_phys_start b)) (live_descriptors ds)"
  proof -
    have "region_end (region_of t (live_descriptors ds ! i)) = descriptor_end (live_descriptors ds ! i)"
      if "i < length (live_descriptors ds)" for i
      using live(2) [OF nth_mem [OF that]] by (rule region_of_end)
    moreover have "rg_start (region_of t d) = md_phys_start d" for d
      by (simp add: region_of_def memory_region_new_def)
    ultimately show ?thesis
      by (simp add: regions_of_def sorted_wrt_iff_nth_less region_before_def)
  qed
  ultimately show ?thesis using True by (simp add: map_ok_def firmware_map_ok_def)
next
  case False
  then show ?thesis
    by (auto simp: map_ok_def firmware_map_ok_def map_fits_def list_all_iff descriptor_end_def)
qed

text \<open>
  C18: contract construction never panics and succeeds exactly when the memory map has at most 128
  non-empty descriptors and these are page-aligned, sorted, disjoint and end below $2^{64}$.
  Otherwise the loader reports a contract failure.
\<close>

theorem encode_contract_succeeds_iff:
  assumes "BOOT_INFO_SIZE \<le> storage_bytes"
  shows "encode_contract t ds storage_bytes scn \<noteq> Panic \<and>
    ((\<exists>r. encode_contract t ds storage_bytes scn = Ok r) \<longleftrightarrow>
      firmware_map_ok (filter (\<lambda>d. md_page_count d \<noteq> 0) ds))"
proof -
  have "(\<exists>r. encode_contract t ds storage_bytes scn = Ok r) \<longleftrightarrow> map_ok t ds"
    using encode_contract_Ok_iff(1) [OF assms, of t ds scn] by auto
  then show ?thesis
    using encode_contract_Ok_iff(2) [OF assms] by (simp add: map_ok_iff live_descriptors_def)
qed

theorem encode_contract_succeeds_iff_witness:
  "\<exists>r. encode_contract uefi_memory_types example_map 8192 Normal = Ok r"
proof -
  have "firmware_map_ok (filter (\<lambda>d. md_page_count d \<noteq> 0) example_map)"
    using example_map_ok by (simp add: map_ok_iff live_descriptors_def)
  then show ?thesis
    using encode_contract_succeeds_iff [of 8192 uefi_memory_types example_map Normal]
    by (simp add: BOOT_INFO_SIZE_def)
qed

section \<open>The records of a boot\<close>

definition record_lines :: "u8 list list \<Rightarrow> u8 list" where
  "record_lines ms = concat (map (\<lambda>m. m @ [0x0A]) ms)"

lemma record_lines_append [simp]: "record_lines (a @ b) = record_lines a @ record_lines b"
  by (simp add: record_lines_def)

lemma record_lines_Cons: "record_lines (m # ms) = m @ [0x0A] @ record_lines ms"
  by (simp add: record_lines_def)

text \<open>\<open>emitted tr tr' ms\<close>: between the two traces exactly the lines \<open>ms\<close> reached the debug console.\<close>

definition emitted :: "io_trace \<Rightarrow> io_trace \<Rightarrow> u8 list list \<Rightarrow> bool" where
  "emitted tr tr' ms \<longleftrightarrow> debugcon_stream tr' = debugcon_stream tr @ record_lines ms"

lemma emitted_trans: "emitted a b ms \<Longrightarrow> emitted b c ns \<Longrightarrow> emitted a c (ms @ ns)"
  by (simp add: emitted_def)

lemma loader_marker_length:
  "length LOADER_START \<le> 256" "length ELF_VALID \<le> 256" "length HANDOFF_READY \<le> 256"
  "length (loader_error_marker e) \<le> 256" "length LOADER_PANIC_SEQUENCE_2 \<le> 256"
  "length LOADER_PANIC_SEQUENCE_3 \<le> 256" "length LOADER_PANIC_SEQUENCE_4 \<le> 256"
  by (cases e; simp add: loader_marker_defs)+

lemma emit_record:
  assumes "console_ready st" and "length marker \<le> 256"
  shows "console_ready (write_record dev marker st)"
    and "emitted (snd st) (snd (write_record dev marker st)) [marker]"
    and "exit_codes (snd (write_record dev marker st)) = exit_codes (snd st)"
  using write_record_effect [OF assms(1), where dev = dev and line = marker] assms(2)
  by (simp_all add: emitted_def record_lines_def MAX_RECORD_BYTES_def)

lemma emit_then_exit:
  assumes "console_ready st" and "length marker \<le> 256"
  shows "emitted (snd st) (qemu_exit code (snd (write_record dev marker st))) [marker]"
    and "exit_codes (qemu_exit code (snd (write_record dev marker st))) =
      exit_codes (snd st) @ [exit_code_value code]"
  using emit_record [OF assms, of dev]
  by (simp_all add: emitted_def qemu_exit_def out_u32_def QEMU_EXIT_def)

lemma console_new_silent:
  "emitted tr (snd (console_new tr)) []" "exit_codes (snd (console_new tr)) = exit_codes tr"
  by (simp_all add: emitted_def record_lines_def console_new_streams)

text \<open>Which errors the steps before the contract can raise: never \<^verbatim>\<open>Contract\<close>.\<close>

lemma read_bounded_file_error:
  "read_bounded_file fw p m l = Err e \<Longrightarrow> e \<in> {FileRead, Allocation, l}"
  by (auto simp: read_bounded_file_def Let_def dest!: boot_file.loop_Err
      split: option.splits if_splits)

lemma load_segment_to_error: "load_segment_to fw s st = Err e \<Longrightarrow> e \<in> {KernelAddress, Allocation}"
  by (auto simp: load_segment_to_def and_then_Err_iff Let_def ok_or_def split: option.splits if_splits)

lemma load_segments_loop_error:
  "load_segments_loop fw it st = Err e \<Longrightarrow> e \<in> {KernelAddress, Allocation}"
proof (induction fw it st rule: load_segments_loop.induct)
  case (1 fw it st)
  then show ?case
    using load_segment_to_error [of fw _ st e]
    by (subst (asm) (2) load_segments_loop.simps)
      (auto simp: and_then_Err_iff split: outcome.splits option.splits)
qed

lemma prepare_kernel_error: "prepare_kernel fw st = Err e \<Longrightarrow> e \<noteq> Contract"
  by (auto simp: prepare_kernel_def and_then_Err_iff load_elf_segments_def reserve_stack_guard_def
      contract_storage_allocate_def ensure_def ok_or_def map_err_Err_iff Let_def
      dest!: read_bounded_file_error load_segments_loop_error split: if_splits option.splits)

lemma encode_contract_error: "encode_contract t ds n scn = Err e \<Longrightarrow> e = Contract"
proof -
  have "add_regions t ds i info = Err e \<Longrightarrow> e = Contract" for i info
    by (induction t ds i info rule: add_regions.induct)
      (auto simp: and_then_Err_iff ok_or_def map_err_Err_iff Let_def split: if_splits option.splits)
  then show "encode_contract t ds n scn = Err e \<Longrightarrow> e = Contract"
    by (auto simp: encode_contract_def and_then_Err_iff map_err_Err_iff Let_def split: if_splits)
qed

section \<open>Properties of main\<close>

lemma prepare_kernel_storage:
  "prepare_kernel fw st = Ok ((entry, storage, scn), st') \<Longrightarrow> cs_byte_length storage = 8192"
  by (auto simp: prepare_kernel_def outcome_simps contract_storage_allocate_def Let_def div_ceil_def
      BOOT_INFO_SIZE_def PAGE_BYTES_def usize_checked_mul_def)

lemma loader_fail_emits:
  assumes "console_ready st"
  shows "emitted (snd st) (loader_fail dev st e) [loader_error_marker e]"
    and "exit_codes (loader_fail dev st e) = exit_codes (snd st) @ [0x22]"
  using emit_then_exit [OF assms loader_marker_length(4), where dev = dev and code = LoaderFailure]
  by (simp_all add: loader_fail_def)

lemma loader_panic_emits:
  "emitted tr (loader_panic_handler dev 2 tr) [LOADER_PANIC_SEQUENCE_2]"
  "emitted tr (loader_panic_handler dev 3 tr) [LOADER_PANIC_SEQUENCE_3]"
  "exit_codes (loader_panic_handler dev n tr) = exit_codes tr @ [0x22]"
  using emit_then_exit [OF console_new_ready [of tr] loader_marker_length(5),
      where dev = dev and code = LoaderFailure]
    emit_then_exit [OF console_new_ready [of tr] loader_marker_length(6),
      where dev = dev and code = LoaderFailure]
    emit_then_exit [OF console_new_ready [of tr] loader_marker_length(7),
      where dev = dev and code = LoaderFailure] console_new_silent [of tr]
  by (simp_all add: loader_panic_handler_def emitted_def record_lines_def)

lemma loader_start_emits:
  "console_ready (write_record dev LOADER_START (console_new tr))"
  "emitted tr (snd (write_record dev LOADER_START (console_new tr))) [LOADER_START]"
  "exit_codes (snd (write_record dev LOADER_START (console_new tr))) = exit_codes tr"
  using emit_record [OF console_new_ready [of tr] loader_marker_length(1), of dev]
    console_new_silent [of tr] emitted_trans
  by (auto simp: emitted_def record_lines_def)

definition first_stage_markers :: "u8 list list" where
  "first_stage_markers =
     [FILE_READ_FAILURE, CONFIG_INVALID_FAILURE, ELF_INVALID_FAILURE, ALLOCATION_FAILURE,
      KERNEL_ADDRESS_FAILURE, CONTRACT_STORAGE_FAILURE, LOADER_PANIC_SEQUENCE_2]"

lemma first_stage_error: "e \<noteq> Contract \<Longrightarrow> loader_error_marker e \<in> set first_stage_markers"
  by (cases e) (simp_all add: first_stage_markers_def)

definition second_stage_markers :: "u8 list list" where
  "second_stage_markers = [CONTRACT_FAILURE, LOADER_PANIC_SEQUENCE_3]"

lemma loader_main_cases:
  "case loader_main fw dev st tr of
     Handoff entry contract len mem tr' \<Rightarrow>
       emitted tr tr' [LOADER_START, ELF_VALID, HANDOFF_READY] \<and> exit_codes tr' = exit_codes tr
   | LoaderReset tr' \<Rightarrow>
       emitted tr tr' [LOADER_START, ELF_VALID] \<and> exit_codes tr' = exit_codes tr \<and>
       (\<exists>prepared st'. prepare_kernel fw st = Ok (prepared, st') \<and>
          fw_exit_boot_services fw (ld_allocations st') = ColdReset)
   | LoaderExit tr' \<Rightarrow>
       exit_codes tr' = exit_codes tr @ [0x22] \<and>
       ((\<exists>m. m \<in> set second_stage_markers \<and> emitted tr tr' [LOADER_START, ELF_VALID, m]) \<or>
        (\<exists>m. m \<in> set first_stage_markers \<and> emitted tr tr' [LOADER_START, m]))"
proof -
  define c1 where "c1 = write_record dev LOADER_START (console_new tr)"
  have c1: "console_ready c1" "emitted tr (snd c1) [LOADER_START]" "exit_codes (snd c1) = exit_codes tr"
    using loader_start_emits [where dev = dev and tr = tr] by (simp_all add: c1_def)
  note c2 = emit_record [OF c1(1) loader_marker_length(2), of dev]
  note c3 = emit_record [OF c2(1) loader_marker_length(3), of dev]
  note chain = emitted_trans [OF c1(2)]
  show ?thesis
  proof (cases "prepare_kernel fw st")
    case Panic
    then show ?thesis
      using chain [OF loader_panic_emits(1) [where dev = dev]]
        loader_panic_emits(3) [where dev = dev and tr = "snd c1"] c1(3)
      by (auto simp: loader_main_def c1_def [symmetric] first_stage_markers_def)
  next
    case (Err e)
    then show ?thesis
      using chain [OF loader_fail_emits(1) [OF c1(1), where dev = dev and e = e]]
        loader_fail_emits(2) [OF c1(1), where dev = dev and e = e]
        c1(3) first_stage_error [OF prepare_kernel_error [OF Err]]
      by (auto simp: loader_main_def c1_def [symmetric])
  next
    case (Ok r)
    obtain entry storage scn st' where r: "r = ((entry, storage, scn), st')" by (metis prod.exhaust)
    have size: "BOOT_INFO_SIZE \<le> cs_byte_length storage"
      using prepare_kernel_storage [OF Ok [unfolded r]] by (simp add: BOOT_INFO_SIZE_def)
    show ?thesis
    proof (cases "fw_exit_boot_services fw (ld_allocations st')")
      case ColdReset
      then show ?thesis
        using chain [OF c2(2)] c2(3) c1(3) Ok r by (simp add: loader_main_def c1_def [symmetric])
    next
      case ExitPanic
      then show ?thesis
        using chain [OF emitted_trans [OF c2(2) loader_panic_emits(2) [where dev = dev]]]
          loader_panic_emits(3) [where dev = dev and tr = "snd (write_record dev ELF_VALID c1)"]
          c2(3) c1(3) Ok r
        by (auto simp: loader_main_def c1_def [symmetric] second_stage_markers_def)
    next
      case (FinalMap memory_map)
      note ebs = FinalMap
      let ?enc = "encode_contract (fw_types fw) (fw_sort_map fw memory_map) (cs_byte_length storage) scn"
      show ?thesis
      proof (cases ?enc)
        case Panic
        then show ?thesis using encode_contract_Ok_iff(2) [OF size] by simp
      next
        case (Err e)
        have "e = Contract" using encode_contract_error [OF Err] .
        then show ?thesis
          using chain [OF emitted_trans [OF c2(2) loader_fail_emits(1)
              [OF c2(1), where dev = dev and e = Contract]]]
            loader_fail_emits(2) [OF c2(1), where dev = dev and e = Contract] c2(3) c1(3) Ok Err ebs r
          by (auto simp: loader_main_def c1_def [symmetric] second_stage_markers_def)
      next
        case enc: (Ok p)
        obtain n bytes where p: "p = (n, bytes)" by (cases p)
        show ?thesis
          using chain [OF emitted_trans [OF c2(2) c3(2)]] c3(3) c2(3) c1(3) Ok enc ebs r p
          by (simp add: loader_main_def c1_def [symmetric] transfer_to_kernel_def Let_def)
      qed
    qed
  qed
qed

text \<open>
  C19: the loader's diagnostics are complete and in sequence.  For every firmware behaviour it hands
  over after exactly the records 1 to 3 and without touching the exit port; or stops once, with the
  loader-failure code, after record 1 and one error record of sequence 2, or after records 1 and 2
  and the contract error or the panic record of sequence 3; or is cold-reset after exactly the
  records 1 and 2, with nothing written to the exit port, and this only when the kernel was prepared
  and the firmware library's transition out of the boot services gave up.
\<close>

theorem loader_main_outcomes:
  "case loader_main fw dev st tr of
     Handoff entry contract len mem tr' \<Rightarrow>
       emitted tr tr' [LOADER_START, ELF_VALID, HANDOFF_READY] \<and> exit_codes tr' = exit_codes tr
   | LoaderReset tr' \<Rightarrow>
       emitted tr tr' [LOADER_START, ELF_VALID] \<and> exit_codes tr' = exit_codes tr \<and>
       (\<exists>prepared st'. prepare_kernel fw st = Ok (prepared, st') \<and>
          fw_exit_boot_services fw (ld_allocations st') = ColdReset)
   | LoaderExit tr' \<Rightarrow>
       exit_codes tr' = exit_codes tr @ [0x22] \<and>
       ((\<exists>m. m \<in> set second_stage_markers \<and> emitted tr tr' [LOADER_START, ELF_VALID, m]) \<or>
        (\<exists>m. m \<in> set first_stage_markers \<and> emitted tr tr' [LOADER_START, m]))"
  by (rule loader_main_cases)

end
