(* ===== verification/Xtask_Protocol.thy ===== *)
theory Xtask_Protocol
  imports Boot_Scenario
begin

text \<open>
  The diagnostic protocol of \<^verbatim>\<open>crates/xtask/src/qemu.rs\<close>: splitting the debug-console log into
  records, checking grammar, sequence numbers and order, and classifying a boot from the trace and
  the exit status of the emulator.  Rust byte slices are byte lists; the \<^verbatim>\<open>&'static str\<close> reasons and
  codes are HOL strings.
\<close>

section \<open>Markers and results\<close>

definition READY_MARKER :: "u8 list" where
  "READY_MARKER =
     bytes_of ''POLYTOPE_BOOT schema=1 seq=0004 phase=kernel_entry level=info code=KERNEL_READY''"
definition BAD_VERSION_MARKER :: "u8 list" where
  "BAD_VERSION_MARKER =
     bytes_of ''POLYTOPE_BOOT schema=1 seq=0004 phase=kernel_entry level=error code=ABI_VERSION''"
definition TRUNCATED_MARKER :: "u8 list" where
  "TRUNCATED_MARKER =
     bytes_of ''POLYTOPE_BOOT schema=1 seq=0004 phase=kernel_entry level=error code=CONTRACT_LENGTH''"
definition PANIC_MARKER :: "u8 list" where
  "PANIC_MARKER =
     bytes_of ''POLYTOPE_BOOT schema=1 seq=0005 phase=panic level=fatal code=KERNEL_PANIC''"
definition CONTRACT_INVALID_MARKER :: "u8 list" where
  "CONTRACT_INVALID_MARKER =
     bytes_of ''POLYTOPE_BOOT schema=1 seq=0004 phase=kernel_entry level=error code=CONTRACT_INVALID''"
definition LOADER_START_MARKER :: "u8 list" where
  "LOADER_START_MARKER =
     bytes_of ''POLYTOPE_BOOT schema=1 seq=0001 phase=loader level=info code=LOADER_START''"
definition ELF_VALID_MARKER :: "u8 list" where
  "ELF_VALID_MARKER =
     bytes_of ''POLYTOPE_BOOT schema=1 seq=0002 phase=loader level=info code=ELF_VALID''"
definition HANDOFF_READY_MARKER :: "u8 list" where
  "HANDOFF_READY_MARKER =
     bytes_of ''POLYTOPE_BOOT schema=1 seq=0003 phase=handoff level=info code=HANDOFF_READY''"

definition READY_EXIT_STATUS :: int where "READY_EXIT_STATUS = 33"
definition REJECT_EXIT_STATUS :: int where "REJECT_EXIT_STATUS = 65"
definition PANIC_EXIT_STATUS :: int where "PANIC_EXIT_STATUS = 67"
definition MAX_DIAGNOSTIC_RECORD_BYTES :: usize where "MAX_DIAGNOSTIC_RECORD_BYTES = 256"

datatype boot_classification =
    ClassReady | ClassRejected | ClassPanic | ClassTimeout | ClassUnexpectedExit
  | ClassMissingMarker | ClassLoaderFailure

datatype boot_mode = Scenario | TimeoutProbe

record marker_evidence =
  ev_ready :: bool
  ev_rejected :: bool
  ev_panic :: bool
  ev_terminal_code :: "string option"

record protocol_trace =
  pt_markers :: marker_evidence
  pt_violation :: "string option"

datatype trace_state = Start | LoaderStarted | ElfValidated | HandoffReady | Terminal

datatype record_kind =
    KLoaderStart | KElfValid | KHandoffReady | KReady | KAbiVersion | KContractLength
  | KContractInvalid | KPanic | KLoaderFailureSequence2 | KLoaderFailureSequence3
  | KLoaderFailureSequence4

definition no_evidence :: marker_evidence where
  "no_evidence = \<lparr>ev_ready = False, ev_rejected = False, ev_panic = False, ev_terminal_code = None\<rparr>"

definition protocol_trace_new :: "bool \<Rightarrow> protocol_trace" where
  "protocol_trace_new log_truncated =
     \<lparr>pt_markers = no_evidence,
      pt_violation = (if log_truncated then Some ''debugcon exceeded the bounded protocol log size''
        else None)\<rparr>"

definition trace_reject :: "string \<Rightarrow> protocol_trace \<Rightarrow> protocol_trace" where
  "trace_reject reason trace =
     (if pt_violation trace = None then trace\<lparr>pt_violation := Some reason\<rparr> else trace)"

section \<open>Byte-string helpers\<close>

definition starts_with :: "u8 list \<Rightarrow> u8 list \<Rightarrow> bool" where
  "starts_with line p \<longleftrightarrow> take (length p) line = p"

definition strip_prefix :: "u8 list \<Rightarrow> u8 list \<Rightarrow> u8 list option" where
  "strip_prefix line p = (if starts_with line p then Some (drop (length p) line) else None)"

text \<open>\<^verbatim>\<open>line.strip_suffix(b"\r").unwrap_or(line)\<close>\<close>

definition strip_cr :: "u8 list \<Rightarrow> u8 list" where
  "strip_cr line = (if line \<noteq> [] \<and> last line = 0x0D then butlast line else line)"

text \<open>\<^verbatim>\<open>slice::split\<close>: the pieces between the separators, at least one.\<close>

fun split_bytes :: "u8 \<Rightarrow> u8 list \<Rightarrow> u8 list list" where
  "split_bytes s [] = [[]]"
| "split_bytes s (b # bs) =
     (if b = s then [] # split_bytes s bs
      else case split_bytes s bs of [] \<Rightarrow> [[b]] | f # fs \<Rightarrow> (b # f) # fs)"

definition is_ascii_digit :: "u8 \<Rightarrow> bool" where
  "is_ascii_digit b \<longleftrightarrow> 0x30 \<le> b \<and> b \<le> 0x39"
definition is_ascii_lowercase :: "u8 \<Rightarrow> bool" where
  "is_ascii_lowercase b \<longleftrightarrow> 0x61 \<le> b \<and> b \<le> 0x7A"
definition is_ascii_uppercase :: "u8 \<Rightarrow> bool" where
  "is_ascii_uppercase b \<longleftrightarrow> 0x41 \<le> b \<and> b \<le> 0x5A"

text \<open>\<^verbatim>\<open>str::parse::<u16>\<close>: an optional plus sign, then at least one digit, without overflow.\<close>

fun digits_value :: "nat \<Rightarrow> u8 list \<Rightarrow> nat option" where
  "digits_value acc [] = Some acc"
| "digits_value acc (b # bs) =
     (if is_ascii_digit b then
        let acc = 10 * acc + (unat b - 48) in
        if acc < 2 ^ 16 then digits_value acc bs else None
      else None)"

definition parse_u16 :: "u8 list \<Rightarrow> nat option" where
  "parse_u16 text =
     (let digits = (case text of b # rest \<Rightarrow> if b = 0x2B then rest else text | [] \<Rightarrow> []) in
      if digits = [] then None else digits_value 0 digits)"

section \<open>Records\<close>

definition record_sequence :: "u8 list \<Rightarrow> nat option" where
  "record_sequence line =
     (let fields = split_bytes 0x20 line in
      if 2 < length fields then
        (case strip_prefix (fields ! 2) (bytes_of ''seq='') of
           None \<Rightarrow> None
         | Some digits \<Rightarrow> if utf8_valid digits then parse_u16 digits else None)
      else None)"

definition valid_record_grammar :: "u8 list \<Rightarrow> bool" where
  "valid_record_grammar line =
     (if \<not> is_ascii line then False
      else
        let fields = split_bytes 0x20 line in
        if length fields \<noteq> 6 \<or> fields ! 0 \<noteq> bytes_of ''POLYTOPE_BOOT'' \<or>
           fields ! 1 \<noteq> bytes_of ''schema=1'' \<or> \<not> starts_with (fields ! 2) (bytes_of ''seq='') \<or>
           \<not> starts_with (fields ! 3) (bytes_of ''phase='') \<or>
           \<not> starts_with (fields ! 4) (bytes_of ''level='') \<or>
           \<not> starts_with (fields ! 5) (bytes_of ''code='')
        then False
        else
          let sequence = drop 4 (fields ! 2); phase = drop 6 (fields ! 3);
              level = drop 6 (fields ! 4); code = drop 5 (fields ! 5)
          in length sequence = 4 \<and> list_all is_ascii_digit sequence \<and> phase \<noteq> [] \<and>
             list_all (\<lambda>b. is_ascii_lowercase b \<or> is_ascii_digit b \<or> b = 0x5F) phase \<and>
             (level = bytes_of ''info'' \<or> level = bytes_of ''error'' \<or> level = bytes_of ''fatal'') \<and>
             code \<noteq> [] \<and>
             list_all (\<lambda>b. is_ascii_uppercase b \<or> is_ascii_digit b \<or> b = 0x5F) code)"

definition SEQUENCE_2_RECORDS :: "u8 list list" where
  "SEQUENCE_2_RECORDS =
     [bytes_of ''POLYTOPE_BOOT schema=1 seq=0002 phase=loader level=error code=FILE_READ'',
      bytes_of ''POLYTOPE_BOOT schema=1 seq=0002 phase=loader level=error code=CONFIG_INVALID'',
      bytes_of ''POLYTOPE_BOOT schema=1 seq=0002 phase=loader level=error code=ELF_INVALID'',
      bytes_of ''POLYTOPE_BOOT schema=1 seq=0002 phase=loader level=error code=ALLOCATION'',
      bytes_of ''POLYTOPE_BOOT schema=1 seq=0002 phase=loader level=error code=KERNEL_ADDRESS'',
      bytes_of ''POLYTOPE_BOOT schema=1 seq=0002 phase=loader level=error code=CONTRACT_STORAGE'',
      bytes_of ''POLYTOPE_BOOT schema=1 seq=0002 phase=loader level=fatal code=LOADER_PANIC'']"
definition SEQUENCE_3_RECORDS :: "u8 list list" where
  "SEQUENCE_3_RECORDS =
     [bytes_of ''POLYTOPE_BOOT schema=1 seq=0003 phase=handoff level=error code=CONTRACT_BUILD'',
      bytes_of ''POLYTOPE_BOOT schema=1 seq=0003 phase=handoff level=fatal code=LOADER_PANIC'']"
definition SEQUENCE_4_RECORDS :: "u8 list list" where
  "SEQUENCE_4_RECORDS =
     [bytes_of ''POLYTOPE_BOOT schema=1 seq=0004 phase=handoff level=fatal code=LOADER_PANIC'']"

definition loader_failure_kind :: "u8 list \<Rightarrow> record_kind option" where
  "loader_failure_kind line =
     (if List.member SEQUENCE_2_RECORDS line then Some KLoaderFailureSequence2
      else if List.member SEQUENCE_3_RECORDS line then Some KLoaderFailureSequence3
      else if List.member SEQUENCE_4_RECORDS line then Some KLoaderFailureSequence4
      else None)"

definition record_kind_of :: "u8 list \<Rightarrow> record_kind option" where
  "record_kind_of line =
     (if line = LOADER_START_MARKER then Some KLoaderStart
      else if line = ELF_VALID_MARKER then Some KElfValid
      else if line = HANDOFF_READY_MARKER then Some KHandoffReady
      else if line = READY_MARKER then Some KReady
      else if line = BAD_VERSION_MARKER then Some KAbiVersion
      else if line = TRUNCATED_MARKER then Some KContractLength
      else if line = CONTRACT_INVALID_MARKER then Some KContractInvalid
      else if line = PANIC_MARKER then Some KPanic
      else loader_failure_kind line)"

section \<open>The trace automaton\<close>

record protocol_state =
  ps_state :: trace_state
  ps_last_sequence :: "nat option"
  ps_trace :: protocol_trace

definition protocol_reject :: "string \<Rightarrow> protocol_state \<Rightarrow> protocol_state" where
  "protocol_reject reason ps = ps\<lparr>ps_trace := trace_reject reason (ps_trace ps)\<rparr>"

definition set_markers :: "marker_evidence \<Rightarrow> protocol_trace \<Rightarrow> protocol_trace" where
  "set_markers m trace = trace\<lparr>pt_markers := m\<rparr>"

text \<open>The \<^verbatim>\<open>match\<close> on the current state and the record: the next state and the updated evidence.\<close>

fun trace_transition ::
    "trace_state \<Rightarrow> record_kind \<Rightarrow> marker_evidence \<Rightarrow> (trace_state \<times> marker_evidence) option" where
  "trace_transition Start KLoaderStart m = Some (LoaderStarted, m)"
| "trace_transition LoaderStarted KElfValid m = Some (ElfValidated, m)"
| "trace_transition LoaderStarted KLoaderFailureSequence2 m = Some (Terminal, m)"
| "trace_transition ElfValidated KLoaderFailureSequence3 m = Some (Terminal, m)"
| "trace_transition HandoffReady KLoaderFailureSequence4 m = Some (Terminal, m)"
| "trace_transition ElfValidated KHandoffReady m = Some (HandoffReady, m)"
| "trace_transition HandoffReady KReady m =
     Some (Terminal, m\<lparr>ev_ready := True, ev_terminal_code := Some ''KERNEL_READY''\<rparr>)"
| "trace_transition HandoffReady KAbiVersion m =
     Some (Terminal, m\<lparr>ev_rejected := True, ev_terminal_code := Some ''ABI_VERSION''\<rparr>)"
| "trace_transition HandoffReady KContractLength m =
     Some (Terminal, m\<lparr>ev_rejected := True, ev_terminal_code := Some ''CONTRACT_LENGTH''\<rparr>)"
| "trace_transition HandoffReady KContractInvalid m =
     Some (Terminal, m\<lparr>ev_rejected := True, ev_terminal_code := Some ''CONTRACT_INVALID''\<rparr>)"
| "trace_transition HandoffReady KPanic m =
     Some (Terminal, m\<lparr>ev_panic := True, ev_terminal_code := Some ''KERNEL_PANIC''\<rparr>)"
| "trace_transition _ _ m = None"

definition process_protocol_line :: "u8 list \<Rightarrow> protocol_state \<Rightarrow> protocol_state" where
  "process_protocol_line line ps =
     (if \<not> starts_with line (bytes_of ''POLYTOPE_BOOT'') then ps
      else if length line > MAX_DIAGNOSTIC_RECORD_BYTES
        then protocol_reject ''overlong diagnostic record'' ps
      else if \<not> valid_record_grammar line then protocol_reject ''malformed diagnostic record'' ps
      else
        (case record_sequence line of
           None \<Rightarrow> protocol_reject ''malformed diagnostic sequence'' ps
         | Some sequence \<Rightarrow>
             if (case ps_last_sequence ps of None \<Rightarrow> False | Some previous \<Rightarrow> sequence \<le> previous)
             then protocol_reject ''duplicate or out-of-order diagnostic sequence'' ps
             else
               let ps = ps\<lparr>ps_last_sequence := Some sequence\<rparr> in
               (case record_kind_of line of
                  None \<Rightarrow> protocol_reject ''unknown schema-1 diagnostic record'' ps
                | Some kind \<Rightarrow>
                    (case trace_transition (ps_state ps) kind (pt_markers (ps_trace ps)) of
                       Some (following, m) \<Rightarrow>
                         ps\<lparr>ps_state := following, ps_trace := set_markers m (ps_trace ps)\<rparr>
                     | None \<Rightarrow>
                         protocol_reject ''duplicate or out-of-order diagnostic record'' ps))))"

text \<open>The loop over the bytes: the list argument is what is left, \<open>index\<close> its position.\<close>

fun protocol_loop ::
    "u8 list \<Rightarrow> u8 list \<Rightarrow> usize \<Rightarrow> usize \<Rightarrow> protocol_state \<Rightarrow> ('e, usize \<times> protocol_state) outcome" where
  "protocol_loop bytes [] index line_start ps = Ok (line_start, ps)"
| "protocol_loop bytes (byte # rest) index line_start ps =
     (if byte \<noteq> 0x0A then protocol_loop bytes rest (index + 1) line_start ps
      else
        and_then (slice_at bytes line_start index) (\<lambda>line.
        protocol_loop bytes rest (index + 1) (index + 1)
          (process_protocol_line (strip_cr line) ps)))"

definition parse_protocol_stream :: "u8 list \<Rightarrow> bool \<Rightarrow> ('e, protocol_trace) outcome" where
  "parse_protocol_stream bytes log_truncated =
     and_then (protocol_loop bytes bytes 0 0
         \<lparr>ps_state = Start, ps_last_sequence = None, ps_trace = protocol_trace_new log_truncated\<rparr>)
       (\<lambda>(line_start, ps).
     if line_start < length bytes then
       and_then (slice_at bytes line_start (length bytes)) (\<lambda>partial.
       if starts_with partial (bytes_of ''POLYTOPE_BOOT'')
       then Ok (trace_reject ''truncated diagnostic record'' (ps_trace ps))
       else Ok (ps_trace ps))
     else Ok (ps_trace ps))"

definition classify_boot ::
    "bool \<Rightarrow> int option \<Rightarrow> protocol_trace \<Rightarrow> boot_classification" where
  "classify_boot timed_out exit_status trace =
     (if timed_out then ClassTimeout
      else if pt_violation trace \<noteq> None then ClassUnexpectedExit
      else
        let m = pt_markers trace in
        case (ev_ready m, ev_rejected m, ev_panic m, exit_status) of
          (True, False, False, Some s) \<Rightarrow>
            if s = READY_EXIT_STATUS then ClassReady else ClassUnexpectedExit
        | (False, True, False, Some s) \<Rightarrow>
            if s = REJECT_EXIT_STATUS then ClassRejected else ClassUnexpectedExit
        | (False, False, True, Some s) \<Rightarrow>
            if s = PANIC_EXIT_STATUS then ClassPanic else ClassUnexpectedExit
        | (False, False, False, Some s) \<Rightarrow>
            if s = 69 then ClassLoaderFailure
            else if s = READY_EXIT_STATUS \<or> s = REJECT_EXIT_STATUS \<or> s = PANIC_EXIT_STATUS
            then ClassMissingMarker else ClassUnexpectedExit
        | _ \<Rightarrow> ClassUnexpectedExit)"

section \<open>Splitting and joining\<close>

fun join_bytes :: "u8 \<Rightarrow> u8 list list \<Rightarrow> u8 list" where
  "join_bytes s [] = []"
| "join_bytes s [f] = f"
| "join_bytes s (f # g # fs) = f @ s # join_bytes s (g # fs)"

lemma split_bytes_not_Nil [simp]: "split_bytes s bs \<noteq> []"
  by (induction bs) (auto split: list.splits)

lemma split_bytes_plain: "s \<notin> set f \<Longrightarrow> split_bytes s f = [f]"
  by (induction f) auto

lemma split_bytes_append: "s \<notin> set f \<Longrightarrow> split_bytes s (f @ s # bs) = f # split_bytes s bs"
  by (induction f) auto

lemma split_bytes_join:
  "fs \<noteq> [] \<Longrightarrow> (\<And>f. f \<in> set fs \<Longrightarrow> s \<notin> set f) \<Longrightarrow> split_bytes s (join_bytes s fs) = fs"
  by (induction s fs rule: join_bytes.induct) (auto simp: split_bytes_plain split_bytes_append)

lemma join_bytes_Cons: "fs \<noteq> [] \<Longrightarrow> join_bytes s ((b # f) # fs) = b # join_bytes s (f # fs)"
  by (cases fs) auto

lemma join_bytes_split: "join_bytes s (split_bytes s bs) = bs"
proof (induction bs)
  case (Cons b bs)
  obtain f fs where fs: "split_bytes s bs = f # fs" by (cases "split_bytes s bs") auto
  then show ?case using Cons by (cases fs) auto
qed simp

lemma split_bytes_pieces: "f \<in> set (split_bytes s bs) \<Longrightarrow> s \<notin> set f"
proof (induction bs arbitrary: f)
  case (Cons b bs)
  obtain g gs where gs: "split_bytes s bs = g # gs" by (cases "split_bytes s bs") auto
  then show ?case using Cons by (auto split: if_splits)
qed simp

section \<open>The grammar of a record\<close>

definition record_text :: "u8 list \<Rightarrow> u8 list \<Rightarrow> u8 list \<Rightarrow> u8 list \<Rightarrow> u8 list" where
  "record_text sequence phase level code =
     bytes_of ''POLYTOPE_BOOT schema=1 seq='' @ sequence @ bytes_of '' phase='' @ phase @
     bytes_of '' level='' @ level @ bytes_of '' code='' @ code"

definition record_fields_ok :: "u8 list \<Rightarrow> u8 list \<Rightarrow> u8 list \<Rightarrow> u8 list \<Rightarrow> bool" where
  "record_fields_ok sequence phase level code \<longleftrightarrow>
     length sequence = 4 \<and> list_all is_ascii_digit sequence \<and> phase \<noteq> [] \<and>
     list_all (\<lambda>b. is_ascii_lowercase b \<or> is_ascii_digit b \<or> b = 0x5F) phase \<and>
     level \<in> {bytes_of ''info'', bytes_of ''error'', bytes_of ''fatal''} \<and> code \<noteq> [] \<and>
     list_all (\<lambda>b. is_ascii_uppercase b \<or> is_ascii_digit b \<or> b = 0x5F) code"

definition record_fields :: "u8 list \<Rightarrow> u8 list \<Rightarrow> u8 list \<Rightarrow> u8 list \<Rightarrow> u8 list list" where
  "record_fields sequence phase level code =
     [bytes_of ''POLYTOPE_BOOT'', bytes_of ''schema=1'', bytes_of ''seq='' @ sequence,
      bytes_of ''phase='' @ phase, bytes_of ''level='' @ level, bytes_of ''code='' @ code]"

lemma record_text_join: "record_text q p l c = join_bytes 0x20 (record_fields q p l c)"
  by (simp add: record_text_def record_fields_def bytes_of_def byte_of_char_bytes)

definition plain :: "u8 \<Rightarrow> bool" where
  "plain b \<longleftrightarrow> b \<noteq> 0x20 \<and> b < 0x80"

lemma plain_class:
  "is_ascii_digit b \<Longrightarrow> plain b" "is_ascii_lowercase b \<Longrightarrow> plain b" "is_ascii_uppercase b \<Longrightarrow> plain b"
  by (auto simp: is_ascii_digit_def is_ascii_lowercase_def is_ascii_uppercase_def plain_def
      word_le_nat_alt word_less_nat_alt)

lemma plain_literals:
  "list_all plain (bytes_of ''POLYTOPE_BOOT'')" "list_all plain (bytes_of ''schema=1'')"
  "list_all plain (bytes_of ''seq='')" "list_all plain (bytes_of ''phase='')"
  "list_all plain (bytes_of ''level='')" "list_all plain (bytes_of ''code='')"
  "list_all plain (bytes_of ''info'')" "list_all plain (bytes_of ''error'')"
  "list_all plain (bytes_of ''fatal'')"
  by (simp_all add: bytes_of_def byte_of_char_bytes plain_def)

lemma record_fields_plain:
  assumes "record_fields_ok q p l c"
  shows "list_all (list_all plain) (record_fields q p l c)"
proof -
  have "list_all plain q" "list_all plain p" "list_all plain l" "list_all plain c"
    using assms plain_literals by (auto simp: record_fields_ok_def plain_def [of "0x5F"] elim!: list.pred_mono_strong
        dest: plain_class)
  then show ?thesis by (simp add: record_fields_def plain_literals)
qed

lemma join_bytes_ascii: "list_all (list_all plain) fs \<Longrightarrow> is_ascii (join_bytes 0x20 fs)"
  by (induction "0x20 :: u8" fs rule: join_bytes.induct)
    (auto simp: is_ascii_def plain_def list_all_iff)

lemma split_record_text:
  assumes "record_fields_ok q p l c"
  shows "split_bytes 0x20 (record_text q p l c) = record_fields q p l c"
  unfolding record_text_join using record_fields_plain [OF assms]
  by (intro split_bytes_join) (auto simp: list_all_iff plain_def record_fields_def)

lemma starts_with_append [simp]: "starts_with (p @ xs) p"
  by (simp add: starts_with_def)

lemma starts_withD: "starts_with xs p \<Longrightarrow> n = length p \<Longrightarrow> xs = p @ drop n xs"
  by (metis append_take_drop_id starts_with_def)

lemma valid_record_text:
  assumes "record_fields_ok q p l c"
  shows "valid_record_grammar (record_text q p l c)"
proof -
  have "is_ascii (record_text q p l c)"
    unfolding record_text_join by (rule join_bytes_ascii [OF record_fields_plain [OF assms]])
  then show ?thesis
    unfolding valid_record_grammar_def Let_def split_record_text [OF assms]
    using assms by (auto simp: record_fields_def record_fields_ok_def)
qed

lemma length_six: "length xs = 6 \<Longrightarrow> xs = [xs ! 0, xs ! 1, xs ! 2, xs ! 3, xs ! 4, xs ! 5]"
  by (auto simp: numeral_eq_Suc length_Suc_conv)

lemma valid_record_grammarE:
  assumes "valid_record_grammar line"
  obtains q p l c where "line = record_text q p l c" "record_fields_ok q p l c"
proof -
  define fs where "fs = split_bytes 0x20 line"
  define q p l c where "q = drop 4 (fs ! 2)" and "p = drop 6 (fs ! 3)" and "l = drop 6 (fs ! 4)"
    and "c = drop 5 (fs ! 5)"
  have ok: "length fs = 6" "fs ! 0 = bytes_of ''POLYTOPE_BOOT''" "fs ! 1 = bytes_of ''schema=1''"
    "starts_with (fs ! 2) (bytes_of ''seq='')" "starts_with (fs ! 3) (bytes_of ''phase='')"
    "starts_with (fs ! 4) (bytes_of ''level='')" "starts_with (fs ! 5) (bytes_of ''code='')"
    "record_fields_ok q p l c"
    using assms unfolding valid_record_grammar_def Let_def fs_def [symmetric] record_fields_ok_def
      q_def p_def l_def c_def by (auto split: if_splits)
  have "fs ! 2 = bytes_of ''seq='' @ q" unfolding q_def by (rule starts_withD [OF ok(4)]) simp
  moreover have "fs ! 3 = bytes_of ''phase='' @ p"
    unfolding p_def by (rule starts_withD [OF ok(5)]) simp
  moreover have "fs ! 4 = bytes_of ''level='' @ l"
    unfolding l_def by (rule starts_withD [OF ok(6)]) simp
  moreover have "fs ! 5 = bytes_of ''code='' @ c"
    unfolding c_def by (rule starts_withD [OF ok(7)]) simp
  ultimately have "fs = record_fields q p l c"
    unfolding record_fields_def using length_six [OF ok(1)] ok(2,3) by metis
  then have "line = record_text q p l c"
    unfolding record_text_join by (metis fs_def join_bytes_split)
  then show ?thesis using ok(8) that by blast
qed

lemma digits_value_bound:
  "list_all is_ascii_digit ds \<Longrightarrow> (acc + 1) * 10 ^ length ds \<le> 2 ^ 16 \<Longrightarrow>
    digits_value acc ds = Some (foldl (\<lambda>a d. 10 * a + (unat d - 48)) acc ds)"
proof (induction ds arbitrary: acc)
  case (Cons d ds)
  let ?a = "10 * acc + (unat d - 48)"
  have d: "unat d \<le> 57" using Cons.prems(1) by (simp add: is_ascii_digit_def word_le_nat_alt)
  have "(?a + 1) * 10 ^ length ds \<le> (10 * (acc + 1)) * 10 ^ length ds"
    using d by (intro mult_right_mono) auto
  also have "\<dots> \<le> 2 ^ 16" using Cons.prems(2) by (simp add: algebra_simps)
  finally have le: "(?a + 1) * 10 ^ length ds \<le> 2 ^ 16" .
  have "(?a + 1) * 1 \<le> (?a + 1) * 10 ^ length ds" by (intro mult_left_mono) auto
  from order.trans [OF this le] have "?a + 1 \<le> 2 ^ 16" by (simp only: mult_1_right)
  then have "?a < 2 ^ 16" by (simp only: Suc_eq_plus1 [symmetric] Suc_le_eq)
  then show ?case using Cons.IH [of ?a] le Cons.prems(1) by (simp add: Let_def)
qed simp

definition decimal_value :: "u8 list \<Rightarrow> nat" where
  "decimal_value ds = foldl (\<lambda>a d. 10 * a + (unat d - 48)) 0 ds"

lemma record_sequence_text:
  assumes "record_fields_ok q p l c"
  shows "record_sequence (record_text q p l c) = Some (decimal_value q)"
proof -
  have q: "list_all is_ascii_digit q" "length q = 4" using assms by (auto simp: record_fields_ok_def)
  then obtain d ds where ds: "q = d # ds" by (cases q) auto
  have "d \<noteq> 0x2B" using q ds by (auto simp: is_ascii_digit_def)
  then have "parse_u16 q = Some (decimal_value q)"
    using q digits_value_bound [of q 0] by (simp add: parse_u16_def ds decimal_value_def)
  moreover have "utf8_valid q"
    by (rule utf8_valid_ascii) (use q(1) in \<open>auto elim!: list.pred_mono_strong dest: plain_class simp: plain_def\<close>)
  ultimately show ?thesis
    by (simp add: record_sequence_def split_record_text [OF assms] record_fields_def strip_prefix_def)
qed

section \<open>Known records\<close>

primrec kind_sequence :: "record_kind \<Rightarrow> nat" where
  "kind_sequence KLoaderStart = 1"
| "kind_sequence KElfValid = 2"
| "kind_sequence KHandoffReady = 3"
| "kind_sequence KReady = 4"
| "kind_sequence KAbiVersion = 4"
| "kind_sequence KContractLength = 4"
| "kind_sequence KContractInvalid = 4"
| "kind_sequence KPanic = 5"
| "kind_sequence KLoaderFailureSequence2 = 2"
| "kind_sequence KLoaderFailureSequence3 = 3"
| "kind_sequence KLoaderFailureSequence4 = 4"

definition well_formed_record :: "u8 list \<Rightarrow> nat \<Rightarrow> bool" where
  "well_formed_record line n \<longleftrightarrow>
     length line \<le> MAX_DIAGNOSTIC_RECORD_BYTES \<and> valid_record_grammar line \<and>
     record_sequence line = Some n"

lemmas marker_defs = READY_MARKER_def BAD_VERSION_MARKER_def TRUNCATED_MARKER_def PANIC_MARKER_def
  CONTRACT_INVALID_MARKER_def LOADER_START_MARKER_def ELF_VALID_MARKER_def HANDOFF_READY_MARKER_def

lemmas failure_records = SEQUENCE_2_RECORDS_def SEQUENCE_3_RECORDS_def SEQUENCE_4_RECORDS_def

text \<open>The text of a record from its four variable fields, as strings.\<close>

definition marker_text :: "string \<Rightarrow> string \<Rightarrow> string \<Rightarrow> string \<Rightarrow> u8 list" where
  "marker_text q p l c = record_text (bytes_of q) (bytes_of p) (bytes_of l) (bytes_of c)"

lemma marker_text_bytes:
  "marker_text q p l c = bytes_of (''POLYTOPE_BOOT schema=1 seq='' @ q @ '' phase='' @ p @
     '' level='' @ l @ '' code='' @ c)"
  by (simp add: marker_text_def record_text_def bytes_of_append [symmetric])

lemmas field_evals = record_fields_ok_def decimal_value_def bytes_of_def byte_of_char_bytes
  is_ascii_digit_def is_ascii_lowercase_def is_ascii_uppercase_def

lemma well_formed_text:
  assumes "record_fields_ok (bytes_of q) (bytes_of p) (bytes_of l) (bytes_of c)"
    and "length q + length p + length l + length c \<le> 200" and "decimal_value (bytes_of q) = n"
  shows "well_formed_record (marker_text q p l c) n"
  using assms valid_record_text record_sequence_text
  by (simp add: well_formed_record_def MAX_DIAGNOSTIC_RECORD_BYTES_def marker_text_def)
    (simp add: record_text_def)

lemma marker_texts:
  "LOADER_START_MARKER = marker_text ''0001'' ''loader'' ''info'' ''LOADER_START''"
  "ELF_VALID_MARKER = marker_text ''0002'' ''loader'' ''info'' ''ELF_VALID''"
  "HANDOFF_READY_MARKER = marker_text ''0003'' ''handoff'' ''info'' ''HANDOFF_READY''"
  "READY_MARKER = marker_text ''0004'' ''kernel_entry'' ''info'' ''KERNEL_READY''"
  "BAD_VERSION_MARKER = marker_text ''0004'' ''kernel_entry'' ''error'' ''ABI_VERSION''"
  "TRUNCATED_MARKER = marker_text ''0004'' ''kernel_entry'' ''error'' ''CONTRACT_LENGTH''"
  "CONTRACT_INVALID_MARKER = marker_text ''0004'' ''kernel_entry'' ''error'' ''CONTRACT_INVALID''"
  "PANIC_MARKER = marker_text ''0005'' ''panic'' ''fatal'' ''KERNEL_PANIC''"
  by (simp_all add: marker_defs marker_text_bytes)

lemma failure_texts:
  "SEQUENCE_2_RECORDS = map (\<lambda>(l, c). marker_text ''0002'' ''loader'' l c)
     [(''error'', ''FILE_READ''), (''error'', ''CONFIG_INVALID''), (''error'', ''ELF_INVALID''),
      (''error'', ''ALLOCATION''), (''error'', ''KERNEL_ADDRESS''), (''error'', ''CONTRACT_STORAGE''),
      (''fatal'', ''LOADER_PANIC'')]"
  "SEQUENCE_3_RECORDS = map (\<lambda>(l, c). marker_text ''0003'' ''handoff'' l c)
     [(''error'', ''CONTRACT_BUILD''), (''fatal'', ''LOADER_PANIC'')]"
  "SEQUENCE_4_RECORDS = [marker_text ''0004'' ''handoff'' ''fatal'' ''LOADER_PANIC'']"
  by (simp_all add: failure_records marker_text_bytes)

lemma well_formed_markers:
  "well_formed_record LOADER_START_MARKER 1" "well_formed_record ELF_VALID_MARKER 2"
  "well_formed_record HANDOFF_READY_MARKER 3" "well_formed_record READY_MARKER 4"
  "well_formed_record BAD_VERSION_MARKER 4" "well_formed_record TRUNCATED_MARKER 4"
  "well_formed_record CONTRACT_INVALID_MARKER 4" "well_formed_record PANIC_MARKER 5"
  by (simp_all add: marker_texts well_formed_text field_evals)

lemma well_formed_failures:
  "line \<in> set SEQUENCE_2_RECORDS \<Longrightarrow> well_formed_record line 2"
  "line \<in> set SEQUENCE_3_RECORDS \<Longrightarrow> well_formed_record line 3"
  "line \<in> set SEQUENCE_4_RECORDS \<Longrightarrow> well_formed_record line 4"
  by (auto simp: failure_texts intro!: well_formed_text) (simp_all add: field_evals)

lemma known_record:
  assumes "record_kind_of line = Some k"
  shows "well_formed_record line (kind_sequence k)"
  using assms well_formed_markers well_formed_failures
  by (auto simp: record_kind_of_def loader_failure_kind_def split: if_splits)

lemma kind_of_markers [simp]:
  "record_kind_of LOADER_START_MARKER = Some KLoaderStart"
  "record_kind_of ELF_VALID_MARKER = Some KElfValid"
  "record_kind_of HANDOFF_READY_MARKER = Some KHandoffReady"
  "record_kind_of READY_MARKER = Some KReady"
  "record_kind_of BAD_VERSION_MARKER = Some KAbiVersion"
  "record_kind_of TRUNCATED_MARKER = Some KContractLength"
  "record_kind_of CONTRACT_INVALID_MARKER = Some KContractInvalid"
  "record_kind_of PANIC_MARKER = Some KPanic"
  by (simp_all add: record_kind_of_def marker_defs)

lemma kind_of_failures:
  "list_all (\<lambda>line. record_kind_of line = Some KLoaderFailureSequence2) SEQUENCE_2_RECORDS"
  "list_all (\<lambda>line. record_kind_of line = Some KLoaderFailureSequence3) SEQUENCE_3_RECORDS"
  "list_all (\<lambda>line. record_kind_of line = Some KLoaderFailureSequence4) SEQUENCE_4_RECORDS"
  by (simp_all add: record_kind_of_def loader_failure_kind_def marker_defs failure_records)

lemma record_kind_of_cases:
  assumes "record_kind_of line = Some k"
  shows "(case k of KLoaderStart \<Rightarrow> line = LOADER_START_MARKER | KElfValid \<Rightarrow> line = ELF_VALID_MARKER
    | KHandoffReady \<Rightarrow> line = HANDOFF_READY_MARKER | KReady \<Rightarrow> line = READY_MARKER
    | KAbiVersion \<Rightarrow> line = BAD_VERSION_MARKER | KContractLength \<Rightarrow> line = TRUNCATED_MARKER
    | KContractInvalid \<Rightarrow> line = CONTRACT_INVALID_MARKER | KPanic \<Rightarrow> line = PANIC_MARKER
    | KLoaderFailureSequence2 \<Rightarrow> line \<in> set SEQUENCE_2_RECORDS
    | KLoaderFailureSequence3 \<Rightarrow> line \<in> set SEQUENCE_3_RECORDS
    | KLoaderFailureSequence4 \<Rightarrow> line \<in> set SEQUENCE_4_RECORDS)"
  using assms unfolding record_kind_of_def loader_failure_kind_def by (auto split: if_splits)

lemma record_kind_of_iff:
  "record_kind_of line = Some KLoaderStart \<longleftrightarrow> line = LOADER_START_MARKER"
  "record_kind_of line = Some KElfValid \<longleftrightarrow> line = ELF_VALID_MARKER"
  "record_kind_of line = Some KHandoffReady \<longleftrightarrow> line = HANDOFF_READY_MARKER"
  "record_kind_of line = Some KReady \<longleftrightarrow> line = READY_MARKER"
  "record_kind_of line = Some KAbiVersion \<longleftrightarrow> line = BAD_VERSION_MARKER"
  "record_kind_of line = Some KContractLength \<longleftrightarrow> line = TRUNCATED_MARKER"
  "record_kind_of line = Some KContractInvalid \<longleftrightarrow> line = CONTRACT_INVALID_MARKER"
  "record_kind_of line = Some KPanic \<longleftrightarrow> line = PANIC_MARKER"
  "record_kind_of line = Some KLoaderFailureSequence2 \<longleftrightarrow> line \<in> set SEQUENCE_2_RECORDS"
  "record_kind_of line = Some KLoaderFailureSequence3 \<longleftrightarrow> line \<in> set SEQUENCE_3_RECORDS"
  "record_kind_of line = Some KLoaderFailureSequence4 \<longleftrightarrow> line \<in> set SEQUENCE_4_RECORDS"
  using kind_of_failures by (auto dest: record_kind_of_cases simp: list_all_iff)

section \<open>Streams\<close>

definition whole_lines :: "u8 list \<Rightarrow> u8 list list" where
  "whole_lines bytes = map strip_cr (butlast (split_bytes 0x0A bytes))"

definition is_record :: "u8 list \<Rightarrow> bool" where
  "is_record line \<longleftrightarrow> starts_with line (bytes_of ''POLYTOPE_BOOT'')"

definition stream_records :: "u8 list \<Rightarrow> u8 list list" where
  "stream_records bytes = filter is_record (whole_lines bytes)"

definition cut_record :: "u8 list \<Rightarrow> bool" where
  "cut_record bytes \<longleftrightarrow> is_record (last (split_bytes 0x0A bytes))"

lemma protocol_loop_lines:
  assumes "bytes = pre @ rest" "line_start \<le> length pre" "0x0A \<notin> set (drop line_start pre)"
  shows "protocol_loop bytes rest (length pre) line_start ps =
    Ok (length bytes - length (last (split_bytes 0x0A (drop line_start bytes))),
        fold process_protocol_line (whole_lines (drop line_start bytes)) ps)"
  using assms
proof (induction rest arbitrary: pre line_start ps)
  case Nil
  then show ?case by (simp add: split_bytes_plain whole_lines_def)
next
  case (Cons b rest)
  define cur where "cur = drop line_start pre"
  have bytes: "bytes = (pre @ [b]) @ rest" using Cons.prems by simp
  show ?case
  proof (cases "b = 0x0A")
    case True
    have cur: "drop line_start bytes = cur @ 0x0A # rest" using Cons.prems True cur_def by simp
    have sl: "slice_at bytes line_start (length pre) = (Ok cur :: ('a, _) outcome)"
      using Cons.prems by (simp add: slice_at_simp cur_def)
    have split: "split_bytes 0x0A (drop line_start bytes) = cur # split_bytes 0x0A rest"
      unfolding cur using Cons.prems by (intro split_bytes_append) (simp add: cur_def)
    have d: "drop (Suc (length pre)) bytes = rest" using Cons.prems by simp
    show ?thesis
      using Cons.IH [OF bytes, of "length pre + 1" "process_protocol_line (strip_cr cur) ps"] True sl
      by (simp add: split whole_lines_def d outcome_simps)
  next
    case False
    then show ?thesis
      using Cons.IH [OF bytes, of line_start ps] Cons.prems by auto
  qed
qed

lemma split_bytes_last_suffix: "\<exists>pre. bs = pre @ last (split_bytes s bs)"
proof (induction bs)
  case (Cons b bs)
  obtain f fs where fs: "split_bytes s bs = f # fs" by (cases "split_bytes s bs") auto
  from Cons obtain pre where p: "bs = pre @ last (f # fs)" by (auto simp: fs)
  show ?case
  proof (cases "b = s \<or> fs \<noteq> []")
    case True
    then have "last (split_bytes s (b # bs)) = last (f # fs)" using fs by auto
    then show ?thesis using p by (metis append_Cons)
  next
    case False
    then have "split_bytes s (b # bs) = [b # f]" by (simp add: fs)
    then show ?thesis using join_bytes_split [of s "b # bs"] by auto
  qed
qed simp

lemma process_skips: "\<not> is_record line \<Longrightarrow> process_protocol_line line ps = ps"
  by (simp add: process_protocol_line_def is_record_def)

lemma fold_process_records:
  "fold process_protocol_line lines ps = fold process_protocol_line (filter is_record lines) ps"
  by (induction lines arbitrary: ps) (simp_all add: process_skips)

definition protocol_start :: "bool \<Rightarrow> protocol_state" where
  "protocol_start log_truncated =
     \<lparr>ps_state = Start, ps_last_sequence = None, ps_trace = protocol_trace_new log_truncated\<rparr>"

lemma parse_protocol_stream_records:
  "parse_protocol_stream bytes log_truncated =
    Ok (let trace = ps_trace (fold process_protocol_line (stream_records bytes)
               (protocol_start log_truncated))
        in if cut_record bytes then trace_reject ''truncated diagnostic record'' trace else trace)"
proof -
  let ?tail = "last (split_bytes 0x0A bytes)"
  have loop: "protocol_loop bytes bytes 0 0 (protocol_start log_truncated) =
      (Ok (length bytes - length ?tail,
        fold process_protocol_line (stream_records bytes) (protocol_start log_truncated)) :: ('a, _) outcome)"
    using protocol_loop_lines [of bytes "[]" bytes 0 "protocol_start log_truncated"]
    by (simp add: stream_records_def fold_process_records [symmetric])
  obtain pre where pre: "bytes = pre @ ?tail" using split_bytes_last_suffix by blast
  have "\<not> is_record []" by (simp add: is_record_def starts_with_def bytes_of_def)
  moreover have "length bytes = length pre + length ?tail" using pre by (metis length_append)
  moreover have "drop (length pre) bytes = ?tail" using pre by (metis append_eq_conv_conj)
  ultimately show ?thesis
    unfolding parse_protocol_stream_def protocol_start_def [symmetric] loop
    by (auto simp: outcome_simps slice_at_simp cut_record_def is_record_def Let_def)
qed

section \<open>Acceptance\<close>

lemma record_text_is_record: "is_record (record_text q p l c)"
  by (simp add: is_record_def record_text_def starts_with_def bytes_of_def byte_of_char_bytes)

lemma known_is_record: "record_kind_of line = Some k \<Longrightarrow> is_record line"
  using known_record valid_record_grammarE record_text_is_record
  unfolding well_formed_record_def by metis

primrec state_sequence :: "trace_state \<Rightarrow> nat" where
  "state_sequence Start = 0"
| "state_sequence LoaderStarted = 1"
| "state_sequence ElfValidated = 2"
| "state_sequence HandoffReady = 3"
| "state_sequence Terminal = 5"

lemma transition_sequence:
  "trace_transition s k m = Some (s', m') \<Longrightarrow>
    state_sequence s < kind_sequence k \<and> kind_sequence k \<le> state_sequence s'"
  by (induction s k m rule: trace_transition.induct) auto

definition sequence_ok :: "protocol_state \<Rightarrow> bool" where
  "sequence_ok ps \<longleftrightarrow>
     (case ps_last_sequence ps of None \<Rightarrow> True | Some n \<Rightarrow> n \<le> state_sequence (ps_state ps))"

lemma reject_violation [simp]:
  "pt_violation (trace_reject reason trace) \<noteq> None"
  "pt_violation (ps_trace (protocol_reject reason ps)) \<noteq> None"
  by (simp_all add: trace_reject_def protocol_reject_def)

lemma violation_stays:
  "pt_violation (ps_trace ps) \<noteq> None \<Longrightarrow>
    pt_violation (ps_trace (process_protocol_line line ps)) \<noteq> None"
  unfolding process_protocol_line_def Let_def
  by (auto split: option.splits prod.splits simp: set_markers_def simp del: not_None_eq)

lemma violation_stays_fold:
  "pt_violation (ps_trace ps) \<noteq> None \<Longrightarrow>
    pt_violation (ps_trace (fold process_protocol_line lines ps)) \<noteq> None"
  by (induction lines arbitrary: ps) (simp_all add: violation_stays del: not_None_eq)

text \<open>The step on a record, without the checks that a known record passes anyway.\<close>

definition record_step :: "u8 list \<Rightarrow> trace_state \<times> marker_evidence \<Rightarrow> (trace_state \<times> marker_evidence) option" where
  "record_step line sm = (case record_kind_of line of None \<Rightarrow> None
     | Some k \<Rightarrow> trace_transition (fst sm) k (snd sm))"

lemma process_record_ok:
  assumes "record_step line (ps_state ps, pt_markers (ps_trace ps)) = Some (s', m')"
    and "sequence_ok ps"
  shows "\<exists>n. process_protocol_line line ps =
      ps\<lparr>ps_last_sequence := Some n, ps_state := s', ps_trace := set_markers m' (ps_trace ps)\<rparr> \<and>
      n \<le> state_sequence s'"
proof -
  obtain k where k: "record_kind_of line = Some k"
    and t: "trace_transition (ps_state ps) k (pt_markers (ps_trace ps)) = Some (s', m')"
    using assms(1) by (auto simp: record_step_def split: option.splits)
  note wf = known_record [OF k, unfolded well_formed_record_def] known_is_record [OF k]
  note seq = transition_sequence [OF t]
  have "\<not> (case ps_last_sequence ps of None \<Rightarrow> False | Some previous \<Rightarrow> kind_sequence k \<le> previous)"
    using assms(2) seq by (auto simp: sequence_ok_def split: option.splits)
  then show ?thesis
    using wf k t seq unfolding process_protocol_line_def is_record_def
    by (intro exI [of _ "kind_sequence k"]) (simp add: Let_def)
qed

lemma process_record_bad:
  assumes "is_record line" "record_step line (ps_state ps, pt_markers (ps_trace ps)) = None"
  shows "pt_violation (ps_trace (process_protocol_line line ps)) \<noteq> None"
  using assms unfolding process_protocol_line_def is_record_def record_step_def Let_def
  by (auto split: option.splits simp del: not_None_eq)

fun run_records :: "u8 list list \<Rightarrow> trace_state \<times> marker_evidence \<Rightarrow> (trace_state \<times> marker_evidence) option" where
  "run_records [] sm = Some sm"
| "run_records (line # lines) sm =
     (case record_step line sm of None \<Rightarrow> None | Some sm' \<Rightarrow> run_records lines sm')"

lemma fold_process_run:
  assumes "list_all is_record lines" "sequence_ok ps" "pt_violation (ps_trace ps) = None"
  shows "case run_records lines (ps_state ps, pt_markers (ps_trace ps)) of
      None \<Rightarrow> pt_violation (ps_trace (fold process_protocol_line lines ps)) \<noteq> None
    | Some (s, m) \<Rightarrow> ps_trace (fold process_protocol_line lines ps) = \<lparr>pt_markers = m, pt_violation = None\<rparr>"
  using assms
proof (induction lines arbitrary: ps)
  case Nil
  then show ?case by simp
next
  case (Cons line lines)
  show ?case
  proof (cases "record_step line (ps_state ps, pt_markers (ps_trace ps))")
    case None
    have "pt_violation (ps_trace (process_protocol_line line ps)) \<noteq> None"
      using process_record_bad [OF _ None] Cons.prems(1) by simp
    then show ?thesis using violation_stays_fold None by simp
  next
    case (Some sm)
    obtain s m where sm: "sm = (s, m)" by (cases sm)
    obtain n where n: "process_protocol_line line ps =
        ps\<lparr>ps_last_sequence := Some n, ps_state := s, ps_trace := set_markers m (ps_trace ps)\<rparr>"
      "n \<le> state_sequence s"
      using process_record_ok [OF Some [unfolded sm] Cons.prems(2)] by blast
    show ?thesis
      using Cons.IH [of "process_protocol_line line ps"] Cons.prems n Some sm
      by (simp add: sequence_ok_def set_markers_def split: option.splits prod.splits)
  qed
qed

section \<open>The accepted traces\<close>

definition loader_run :: "u8 list list" where
  "loader_run = [LOADER_START_MARKER, ELF_VALID_MARKER, HANDOFF_READY_MARKER]"

definition kernel_verdicts :: "u8 list list" where
  "kernel_verdicts = [READY_MARKER, BAD_VERSION_MARKER, TRUNCATED_MARKER, CONTRACT_INVALID_MARKER,
     PANIC_MARKER]"

definition legal_loader_run :: "u8 list list \<Rightarrow> bool" where
  "legal_loader_run lines \<longleftrightarrow> (\<exists>n. lines = take n loader_run) \<or>
     (\<exists>f \<in> set SEQUENCE_2_RECORDS. lines = take 1 loader_run @ [f]) \<or>
     (\<exists>f \<in> set SEQUENCE_3_RECORDS. lines = take 2 loader_run @ [f]) \<or>
     (\<exists>f \<in> set SEQUENCE_4_RECORDS. lines = loader_run @ [f])"

definition legal_records :: "u8 list list \<Rightarrow> bool" where
  "legal_records lines \<longleftrightarrow> legal_loader_run lines \<or>
     (\<exists>v \<in> set kernel_verdicts. lines = loader_run @ [v])"

fun verdict_evidence :: "u8 list list \<Rightarrow> marker_evidence" where
  "verdict_evidence lines =
     (if lines = loader_run @ [READY_MARKER]
        then no_evidence\<lparr>ev_ready := True, ev_terminal_code := Some ''KERNEL_READY''\<rparr>
      else if lines = loader_run @ [BAD_VERSION_MARKER]
        then no_evidence\<lparr>ev_rejected := True, ev_terminal_code := Some ''ABI_VERSION''\<rparr>
      else if lines = loader_run @ [TRUNCATED_MARKER]
        then no_evidence\<lparr>ev_rejected := True, ev_terminal_code := Some ''CONTRACT_LENGTH''\<rparr>
      else if lines = loader_run @ [CONTRACT_INVALID_MARKER]
        then no_evidence\<lparr>ev_rejected := True, ev_terminal_code := Some ''CONTRACT_INVALID''\<rparr>
      else if lines = loader_run @ [PANIC_MARKER]
        then no_evidence\<lparr>ev_panic := True, ev_terminal_code := Some ''KERNEL_PANIC''\<rparr>
      else no_evidence)"

declare verdict_evidence.simps [simp del]

lemma marker_distinct: "distinct (loader_run @ kernel_verdicts)"
  by (simp add: loader_run_def kernel_verdicts_def marker_defs)

lemma run_Terminal: "run_records lines (Terminal, m) = (if lines = [] then Some (Terminal, m) else None)"
  by (cases lines) (auto simp: record_step_def split: option.splits)

lemma verdict_evidence_verdict:
  "verdict_evidence (loader_run @ [READY_MARKER]) =
     no_evidence\<lparr>ev_ready := True, ev_terminal_code := Some ''KERNEL_READY''\<rparr>"
  "verdict_evidence (loader_run @ [BAD_VERSION_MARKER]) =
     no_evidence\<lparr>ev_rejected := True, ev_terminal_code := Some ''ABI_VERSION''\<rparr>"
  "verdict_evidence (loader_run @ [TRUNCATED_MARKER]) =
     no_evidence\<lparr>ev_rejected := True, ev_terminal_code := Some ''CONTRACT_LENGTH''\<rparr>"
  "verdict_evidence (loader_run @ [CONTRACT_INVALID_MARKER]) =
     no_evidence\<lparr>ev_rejected := True, ev_terminal_code := Some ''CONTRACT_INVALID''\<rparr>"
  "verdict_evidence (loader_run @ [PANIC_MARKER]) =
     no_evidence\<lparr>ev_panic := True, ev_terminal_code := Some ''KERNEL_PANIC''\<rparr>"
  by (simp_all add: verdict_evidence.simps marker_defs)

lemma verdict_evidence_failure:
  "line \<notin> set kernel_verdicts \<Longrightarrow> verdict_evidence (loader_run @ [line]) = no_evidence"
  by (simp add: verdict_evidence.simps kernel_verdicts_def)

lemma verdict_kind_iff:
  "line \<in> set kernel_verdicts \<longleftrightarrow>
     record_kind_of line \<in> Some ` {KReady, KAbiVersion, KContractLength, KContractInvalid, KPanic}"
  by (simp add: kernel_verdicts_def record_kind_of_iff)

lemma record_step_Handoff:
  "record_step line (HandoffReady, no_evidence) =
     (if line \<in> set SEQUENCE_4_RECORDS \<union> set kernel_verdicts
      then Some (Terminal, verdict_evidence (loader_run @ [line])) else None)"
proof (cases "record_kind_of line")
  case None
  then show ?thesis
    by (simp add: record_step_def verdict_kind_iff flip: record_kind_of_iff)
next
  case (Some k)
  have mem: "line \<in> set SEQUENCE_4_RECORDS \<longleftrightarrow> k = KLoaderFailureSequence4"
    "line \<in> set kernel_verdicts \<longleftrightarrow>
      k \<in> {KReady, KAbiVersion, KContractLength, KContractInvalid, KPanic}"
    using Some by (auto simp: verdict_kind_iff simp flip: record_kind_of_iff)
  show ?thesis
    unfolding Un_iff mem record_step_def Some
    using record_kind_of_cases [OF Some] verdict_evidence_failure [of line, unfolded mem]
    by (cases k) (simp_all add: verdict_evidence_verdict)
qed

lemma run_Handoff:
  "run_records lines (HandoffReady, no_evidence) =
     (if lines = [] then Some (HandoffReady, no_evidence)
      else if (\<exists>f \<in> set SEQUENCE_4_RECORDS \<union> set kernel_verdicts. lines = [f])
      then Some (Terminal, verdict_evidence (loader_run @ lines)) else None)"
  by (cases lines) (auto simp: record_step_Handoff run_Terminal)

lemma record_step_early:
  "record_step line (Start, m) = (if line = LOADER_START_MARKER then Some (LoaderStarted, m) else None)"
  "record_step line (LoaderStarted, m) =
     (if line = ELF_VALID_MARKER then Some (ElfValidated, m)
      else if line \<in> set SEQUENCE_2_RECORDS then Some (Terminal, m) else None)"
  "record_step line (ElfValidated, m) =
     (if line = HANDOFF_READY_MARKER then Some (HandoffReady, m)
      else if line \<in> set SEQUENCE_3_RECORDS then Some (Terminal, m) else None)"
proof -
  have "record_step line (Start, m) =
      (if record_kind_of line = Some KLoaderStart then Some (LoaderStarted, m) else None)"
    by (cases "record_kind_of line"; simp add: record_step_def; rename_tac k; case_tac k; simp)
  then show "record_step line (Start, m) =
      (if line = LOADER_START_MARKER then Some (LoaderStarted, m) else None)"
    by (simp only: record_kind_of_iff)
  have "record_step line (LoaderStarted, m) =
      (if record_kind_of line = Some KElfValid then Some (ElfValidated, m)
       else if record_kind_of line = Some KLoaderFailureSequence2 then Some (Terminal, m) else None)"
    by (cases "record_kind_of line"; simp add: record_step_def; rename_tac k; case_tac k; simp)
  then show "record_step line (LoaderStarted, m) =
     (if line = ELF_VALID_MARKER then Some (ElfValidated, m)
      else if line \<in> set SEQUENCE_2_RECORDS then Some (Terminal, m) else None)"
    by (simp only: record_kind_of_iff)
  have "record_step line (ElfValidated, m) =
      (if record_kind_of line = Some KHandoffReady then Some (HandoffReady, m)
       else if record_kind_of line = Some KLoaderFailureSequence3 then Some (Terminal, m) else None)"
    by (cases "record_kind_of line"; simp add: record_step_def; rename_tac k; case_tac k; simp)
  then show "record_step line (ElfValidated, m) =
     (if line = HANDOFF_READY_MARKER then Some (HandoffReady, m)
      else if line \<in> set SEQUENCE_3_RECORDS then Some (Terminal, m) else None)"
    by (simp only: record_kind_of_iff)
qed

lemma legal_loader_run_cases:
  "legal_loader_run lines \<longleftrightarrow>
     lines = [] \<or> lines = [LOADER_START_MARKER] \<or> lines = [LOADER_START_MARKER, ELF_VALID_MARKER] \<or>
     lines = loader_run \<or>
     (\<exists>f \<in> set SEQUENCE_2_RECORDS. lines = [LOADER_START_MARKER, f]) \<or>
     (\<exists>f \<in> set SEQUENCE_3_RECORDS. lines = [LOADER_START_MARKER, ELF_VALID_MARKER, f]) \<or>
     (\<exists>f \<in> set SEQUENCE_4_RECORDS. lines = loader_run @ [f])"
proof -
  have "(\<exists>n. lines = take n loader_run) \<longleftrightarrow>
      lines = [] \<or> lines = [LOADER_START_MARKER] \<or> lines = [LOADER_START_MARKER, ELF_VALID_MARKER] \<or>
      lines = loader_run"
  proof
    assume "\<exists>n. lines = take n loader_run"
    then obtain n where n: "lines = take n loader_run" by blast
    then show "lines = [] \<or> lines = [LOADER_START_MARKER] \<or>
        lines = [LOADER_START_MARKER, ELF_VALID_MARKER] \<or> lines = loader_run"
      unfolding n loader_run_def by (auto simp: take_Cons' )
  next
    assume "lines = [] \<or> lines = [LOADER_START_MARKER] \<or>
        lines = [LOADER_START_MARKER, ELF_VALID_MARKER] \<or> lines = loader_run"
    then have "lines \<in> {take 0 loader_run, take 1 loader_run, take 2 loader_run, take 3 loader_run}"
      by (auto simp: loader_run_def)
    then show "\<exists>n. lines = take n loader_run" by blast
  qed
  then show ?thesis unfolding legal_loader_run_def by (simp add: loader_run_def)
qed

lemma verdict_evidence_loader:
  "legal_loader_run lines \<Longrightarrow> verdict_evidence lines = no_evidence"
  using verdict_evidence_failure verdict_kind_iff
  unfolding legal_loader_run_cases verdict_evidence.simps
  by (auto simp: loader_run_def kernel_verdicts_def failure_records marker_defs)

lemma run_Elf:
  "run_records lines (ElfValidated, m) =
     (case lines of [] \<Rightarrow> Some (ElfValidated, m)
      | l # rest \<Rightarrow> if l = HANDOFF_READY_MARKER then run_records rest (HandoffReady, m)
          else if l \<in> set SEQUENCE_3_RECORDS \<and> rest = [] then Some (Terminal, m) else None)"
  by (cases lines) (auto simp: record_step_early run_Terminal)

lemma run_LoaderStarted:
  "run_records lines (LoaderStarted, m) =
     (case lines of [] \<Rightarrow> Some (LoaderStarted, m)
      | l # rest \<Rightarrow> if l = ELF_VALID_MARKER then run_records rest (ElfValidated, m)
          else if l \<in> set SEQUENCE_2_RECORDS \<and> rest = [] then Some (Terminal, m) else None)"
  by (cases lines) (auto simp: record_step_early run_Terminal)

lemma run_Start:
  "run_records lines (Start, m) =
     (case lines of [] \<Rightarrow> Some (Start, m)
      | l # rest \<Rightarrow> if l = LOADER_START_MARKER then run_records rest (LoaderStarted, m) else None)"
  by (cases lines) (auto simp: record_step_early)

lemma failure_not_marker:
  "ELF_VALID_MARKER \<notin> set SEQUENCE_2_RECORDS" "HANDOFF_READY_MARKER \<notin> set SEQUENCE_3_RECORDS"
  by (simp_all flip: record_kind_of_iff)

lemma loader_run_append: "loader_run @ x = LOADER_START_MARKER # ELF_VALID_MARKER # HANDOFF_READY_MARKER # x"
  by (simp add: loader_run_def)

lemma run_records_evidence:
  "map_option snd (run_records lines (Start, no_evidence)) =
     (if legal_records lines then Some (verdict_evidence lines) else None)"
proof (cases "\<exists>rest. lines = loader_run @ rest")
  case True
  then obtain rest where l: "lines = loader_run @ rest" by blast
  have run: "run_records lines (Start, no_evidence) = run_records rest (HandoffReady, no_evidence)"
    by (simp add: l loader_run_append record_step_early)
  have legal: "legal_records lines \<longleftrightarrow>
      rest = [] \<or> (\<exists>f \<in> set SEQUENCE_4_RECORDS \<union> set kernel_verdicts. rest = [f])"
    unfolding legal_records_def legal_loader_run_cases l
    using failure_not_marker by (auto simp: loader_run_append loader_run_def)
  have "verdict_evidence loader_run = no_evidence"
    by (rule verdict_evidence_loader) (simp add: legal_loader_run_cases)
  then show ?thesis unfolding run legal run_Handoff by (auto simp: l)
next
  case False
  then have no: "lines \<noteq> LOADER_START_MARKER # ELF_VALID_MARKER # HANDOFF_READY_MARKER # rest" for rest
    by (simp add: loader_run_append)
  then have legal: "legal_records lines \<longleftrightarrow> lines = [] \<or> lines = [LOADER_START_MARKER] \<or>
      lines = [LOADER_START_MARKER, ELF_VALID_MARKER] \<or>
      (\<exists>f \<in> set SEQUENCE_2_RECORDS. lines = [LOADER_START_MARKER, f]) \<or>
      (\<exists>f \<in> set SEQUENCE_3_RECORDS. lines = [LOADER_START_MARKER, ELF_VALID_MARKER, f])"
    by (simp add: legal_records_def legal_loader_run_cases loader_run_def)
  then have "legal_records lines \<Longrightarrow> verdict_evidence lines = no_evidence"
    by (intro verdict_evidence_loader) (auto simp: legal_loader_run_cases)
  moreover have "map_option snd (run_records lines (Start, no_evidence)) =
      (if legal_records lines then Some no_evidence else None)"
    unfolding legal run_Start run_LoaderStarted run_Elf using no failure_not_marker
    by (auto split: list.splits)
  ultimately show ?thesis by simp
qed

definition clean_stream :: "u8 list \<Rightarrow> bool \<Rightarrow> bool" where
  "clean_stream bytes log_truncated \<longleftrightarrow>
     \<not> log_truncated \<and> \<not> cut_record bytes \<and> legal_records (stream_records bytes)"

lemma parse_protocol_stream_verdict:
  "\<exists>trace. parse_protocol_stream bytes log_truncated = Ok trace \<and>
    (clean_stream bytes log_truncated \<longrightarrow>
      trace = \<lparr>pt_markers = verdict_evidence (stream_records bytes), pt_violation = None\<rparr>) \<and>
    (\<not> clean_stream bytes log_truncated \<longrightarrow> pt_violation trace \<noteq> None)"
proof -
  let ?ps = "protocol_start log_truncated"
  let ?final = "ps_trace (fold process_protocol_line (stream_records bytes) ?ps)"
  let ?trace = "if cut_record bytes then trace_reject ''truncated diagnostic record'' ?final else ?final"
  have recs: "list_all is_record (stream_records bytes)"
    by (simp add: stream_records_def list_all_iff)
  have tr: "pt_violation ?final \<noteq> None" if "log_truncated"
    by (rule violation_stays_fold) (simp add: protocol_start_def protocol_trace_new_def that)
  have run: "case run_records (stream_records bytes) (Start, no_evidence) of
      None \<Rightarrow> pt_violation ?final \<noteq> None
    | Some (s, m) \<Rightarrow> ?final = \<lparr>pt_markers = m, pt_violation = None\<rparr>" if "\<not> log_truncated"
    using fold_process_run [OF recs, of ?ps] that
    by (simp add: protocol_start_def protocol_trace_new_def sequence_ok_def)
  have good: "?final = \<lparr>pt_markers = verdict_evidence (stream_records bytes), pt_violation = None\<rparr>"
    if "clean_stream bytes log_truncated"
    using run run_records_evidence [of "stream_records bytes"] that
    by (auto simp: clean_stream_def split: option.splits)
  have bad: "pt_violation ?trace \<noteq> None" if "\<not> clean_stream bytes log_truncated"
  proof (cases "log_truncated \<or> cut_record bytes")
    case True
    then show ?thesis using tr reject_violation(1) by (auto simp del: not_None_eq)
  next
    case False
    then have "run_records (stream_records bytes) (Start, no_evidence) = None"
      using that run_records_evidence [of "stream_records bytes"] by (simp add: clean_stream_def)
    then show ?thesis using run False by simp
  qed
  show ?thesis
    unfolding parse_protocol_stream_records Let_def using good bad
    by (intro exI [of _ ?trace]) (auto simp: clean_stream_def simp del: not_None_eq)
qed

section \<open>Properties\<close>

text \<open>
  C20: the record checker accepts exactly the boot protocol.  Parsing a debug-console log never
  panics, and it reports no violation exactly when the log was not cut off, does not end inside a
  record, and its records are a prefix of the three loader records, or a loader run ended by a
  failure record of the matching sequence, or the three loader records followed by one kernel
  verdict.  Lines that are not records are ignored and carriage returns before a newline are not
  significant.
\<close>

theorem protocol_accepts_exactly:
  "\<exists>trace. parse_protocol_stream bytes log_truncated = Ok trace \<and>
     (pt_violation trace = None \<longleftrightarrow>
        \<not> log_truncated \<and> \<not> cut_record bytes \<and> legal_records (stream_records bytes))"
  using parse_protocol_stream_verdict [of bytes log_truncated] unfolding clean_stream_def
  by (metis protocol_trace.select_convs(2))

lemma classify_clean:
  assumes "legal_records lines"
  shows "classify_boot False status \<lparr>pt_markers = verdict_evidence lines, pt_violation = None\<rparr> = ClassReady
      \<longleftrightarrow> lines = loader_run @ [READY_MARKER] \<and> status = Some 33"
    "classify_boot False status \<lparr>pt_markers = verdict_evidence lines, pt_violation = None\<rparr> = ClassRejected
      \<longleftrightarrow> (\<exists>v \<in> {BAD_VERSION_MARKER, TRUNCATED_MARKER, CONTRACT_INVALID_MARKER}.
            lines = loader_run @ [v]) \<and> status = Some 65"
    "classify_boot False status \<lparr>pt_markers = verdict_evidence lines, pt_violation = None\<rparr> = ClassPanic
      \<longleftrightarrow> lines = loader_run @ [PANIC_MARKER] \<and> status = Some 67"
    "classify_boot False status \<lparr>pt_markers = verdict_evidence lines, pt_violation = None\<rparr> = ClassLoaderFailure
      \<longleftrightarrow> legal_loader_run lines \<and> status = Some 69"
proof -
  note st = READY_EXIT_STATUS_def REJECT_EXIT_STATUS_def PANIC_EXIT_STATUS_def
  have "legal_loader_run lines \<longleftrightarrow> lines \<notin> (\<lambda>v. loader_run @ [v]) ` set kernel_verdicts"
  proof
    assume l: "legal_loader_run lines"
    show "lines \<notin> (\<lambda>v. loader_run @ [v]) ` set kernel_verdicts"
      using verdict_evidence_loader [OF l] verdict_evidence_verdict
      by (auto simp: kernel_verdicts_def no_evidence_def)
  qed (use assms in \<open>auto simp: legal_records_def\<close>)
  then show "classify_boot False status \<lparr>pt_markers = verdict_evidence lines, pt_violation = None\<rparr> = ClassReady
      \<longleftrightarrow> lines = loader_run @ [READY_MARKER] \<and> status = Some 33"
    "classify_boot False status \<lparr>pt_markers = verdict_evidence lines, pt_violation = None\<rparr> = ClassRejected
      \<longleftrightarrow> (\<exists>v \<in> {BAD_VERSION_MARKER, TRUNCATED_MARKER, CONTRACT_INVALID_MARKER}.
            lines = loader_run @ [v]) \<and> status = Some 65"
    "classify_boot False status \<lparr>pt_markers = verdict_evidence lines, pt_violation = None\<rparr> = ClassPanic
      \<longleftrightarrow> lines = loader_run @ [PANIC_MARKER] \<and> status = Some 67"
    "classify_boot False status \<lparr>pt_markers = verdict_evidence lines, pt_violation = None\<rparr> = ClassLoaderFailure
      \<longleftrightarrow> legal_loader_run lines \<and> status = Some 69"
    using marker_distinct unfolding verdict_evidence.simps
    by (auto simp: classify_boot_def st no_evidence_def Let_def kernel_verdicts_def
        split: option.splits if_splits)
qed

lemma boot_class_cases:
  "\<exists>trace. parse_protocol_stream bytes log_truncated = Ok trace \<and>
     classify_boot True status trace = ClassTimeout \<and>
     (classify_boot False status trace = ClassReady \<longleftrightarrow>
        clean_stream bytes log_truncated \<and> status = Some 33 \<and>
        stream_records bytes = loader_run @ [READY_MARKER]) \<and>
     (classify_boot False status trace = ClassRejected \<longleftrightarrow>
        clean_stream bytes log_truncated \<and> status = Some 65 \<and>
        (\<exists>v \<in> {BAD_VERSION_MARKER, TRUNCATED_MARKER, CONTRACT_INVALID_MARKER}.
           stream_records bytes = loader_run @ [v])) \<and>
     (classify_boot False status trace = ClassPanic \<longleftrightarrow>
        clean_stream bytes log_truncated \<and> status = Some 67 \<and>
        stream_records bytes = loader_run @ [PANIC_MARKER]) \<and>
     (classify_boot False status trace = ClassLoaderFailure \<longleftrightarrow>
        clean_stream bytes log_truncated \<and> status = Some 69 \<and>
        legal_loader_run (stream_records bytes))"
proof -
  obtain trace where t: "parse_protocol_stream bytes log_truncated = (Ok trace :: ('a, _) outcome)"
    "clean_stream bytes log_truncated \<longrightarrow>
      trace = \<lparr>pt_markers = verdict_evidence (stream_records bytes), pt_violation = None\<rparr>"
    "\<not> clean_stream bytes log_truncated \<longrightarrow> pt_violation trace \<noteq> None"
    using parse_protocol_stream_verdict [of bytes log_truncated] by blast
  show ?thesis
  proof (cases "clean_stream bytes log_truncated")
    case True
    then have "legal_records (stream_records bytes)" by (simp add: clean_stream_def)
    from classify_clean [OF this, of status] show ?thesis
      using t(1,2) True by (intro exI [of _ trace]) (auto simp: classify_boot_def [of True])
  next
    case False
    then show ?thesis using t(1,3) by (intro exI [of _ trace]) (auto simp: classify_boot_def)
  qed
qed

text \<open>
  C21: a boot is classified by its complete evidence only.  Without a timeout the classes ready,
  rejected, panic and loader failure are given exactly for a clean log with the records of that
  ending together with the matching emulator exit status; with a timeout the class is always
  timeout.
\<close>

theorem boot_classified_exactly:
  "\<exists>trace. parse_protocol_stream bytes log_truncated = Ok trace \<and>
     classify_boot True status trace = ClassTimeout \<and>
     (classify_boot False status trace = ClassReady \<longleftrightarrow>
        clean_stream bytes log_truncated \<and> status = Some 33 \<and>
        stream_records bytes = loader_run @ [READY_MARKER]) \<and>
     (classify_boot False status trace = ClassRejected \<longleftrightarrow>
        clean_stream bytes log_truncated \<and> status = Some 65 \<and>
        (\<exists>v \<in> {BAD_VERSION_MARKER, TRUNCATED_MARKER, CONTRACT_INVALID_MARKER}.
           stream_records bytes = loader_run @ [v])) \<and>
     (classify_boot False status trace = ClassPanic \<longleftrightarrow>
        clean_stream bytes log_truncated \<and> status = Some 67 \<and>
        stream_records bytes = loader_run @ [PANIC_MARKER]) \<and>
     (classify_boot False status trace = ClassLoaderFailure \<longleftrightarrow>
        clean_stream bytes log_truncated \<and> status = Some 69 \<and>
        legal_loader_run (stream_records bytes))"
  by (rule boot_class_cases)

text \<open>
  C22: the grammar of a diagnostic record.  A line is accepted exactly when it is the fixed
  schema-1 text around four fields of the documented character classes, and its sequence number
  is then the decimal value of the sequence field.
\<close>

theorem record_grammar_exact:
  "(valid_record_grammar line \<longleftrightarrow>
     (\<exists>sequence phase level code. line = record_text sequence phase level code \<and>
        record_fields_ok sequence phase level code \<and>
        record_sequence line = Some (decimal_value sequence)))"
  using valid_record_text record_sequence_text valid_record_grammarE by metis

end
