(* ===== verification/Boot_System.thy ===== *)
theory Boot_System
  imports Kernel Loader_Handoff Xtask_Protocol
begin

text \<open>
  One boot of the machine, end to end: the loader runs, hands the contract to the kernel or stops,
  and the harness classifies the debug-console log together with the exit status of the emulator.
\<close>

section \<open>The machine\<close>

definition boot_machine :: "firmware \<Rightarrow> device \<Rightarrow> loader_state \<Rightarrow> io_trace" where
  "boot_machine fw dev st =
     (case loader_main fw dev st [] of
        LoaderExit tr \<Rightarrow> tr
      | LoaderReset tr \<Rightarrow> tr
      | Handoff entry contract len mem tr \<Rightarrow> polytope_kernel_main dev mem contract len tr)"

section \<open>The two sides use the same records\<close>

lemma loader_markers:
  "LOADER_START = LOADER_START_MARKER" "ELF_VALID = ELF_VALID_MARKER"
  "HANDOFF_READY = HANDOFF_READY_MARKER"
  by (simp_all add: LOADER_START_def LOADER_START_MARKER_def ELF_VALID_def ELF_VALID_MARKER_def
      HANDOFF_READY_def HANDOFF_READY_MARKER_def)

lemma kernel_markers:
  "KERNEL_READY = READY_MARKER" "ABI_VERSION_REJECTED = BAD_VERSION_MARKER"
  "CONTRACT_LENGTH_REJECTED = TRUNCATED_MARKER" "CONTRACT_INVALID = CONTRACT_INVALID_MARKER"
  "KERNEL_PANIC = PANIC_MARKER"
  by (simp_all add: kernel_marker_defs READY_MARKER_def BAD_VERSION_MARKER_def TRUNCATED_MARKER_def
      CONTRACT_INVALID_MARKER_def PANIC_MARKER_def)

definition plain_record :: "u8 list \<Rightarrow> bool" where
  "plain_record m \<longleftrightarrow> is_record m \<and> 0x0A \<notin> set m \<and> last m \<noteq> 0x0D"

lemma record_lines_split:
  "list_all plain_record ms \<Longrightarrow> split_bytes 0x0A (record_lines ms) = ms @ [[]]"
proof (induction ms)
  case Nil
  then show ?case by (simp add: record_lines_def)
next
  case (Cons m ms)
  then show ?case
    using split_bytes_append [of "0x0A" m "record_lines ms"]
    by (simp add: record_lines_Cons plain_record_def)
qed

lemma record_lines_stream:
  assumes "list_all plain_record ms"
  shows "stream_records (record_lines ms) = ms" and "\<not> cut_record (record_lines ms)"
proof -
  have "strip_cr m = m" "is_record m" if "m \<in> set ms" for m
    using assms that by (auto simp: list_all_iff plain_record_def strip_cr_def)
  then show "stream_records (record_lines ms) = ms"
    using record_lines_split [OF assms]
    by (simp add: stream_records_def whole_lines_def map_idI)
  have "\<not> is_record []" by code_simp
  then show "\<not> cut_record (record_lines ms)"
    using record_lines_split [OF assms] by (simp add: cut_record_def)
qed

lemma plain_loader_run: "list_all plain_record loader_run"
  by code_simp

lemma plain_verdicts: "list_all plain_record kernel_verdicts"
  by code_simp

lemma plain_failures:
  "list_all plain_record (SEQUENCE_2_RECORDS @ SEQUENCE_3_RECORDS @ SEQUENCE_4_RECORDS)"
  by code_simp

lemma first_stage_records: "set first_stage_markers \<subseteq> set SEQUENCE_2_RECORDS"
  by (simp add: first_stage_markers_def SEQUENCE_2_RECORDS_def loader_marker_defs)

lemma second_stage_records: "set second_stage_markers \<subseteq> set SEQUENCE_3_RECORDS"
  by (simp add: second_stage_markers_def SEQUENCE_3_RECORDS_def loader_marker_defs)

section \<open>What a boot leaves behind\<close>

text \<open>The debug-console log holds exactly the given records and the exit port was written once.\<close>

definition boot_left :: "io_trace \<Rightarrow> u8 list list \<Rightarrow> qemu_exit_code \<Rightarrow> bool" where
  "boot_left tr ms code \<longleftrightarrow>
     debugcon_stream tr = record_lines ms \<and> exit_codes tr = [exit_code_value code]"

text \<open>
  The host status of the emulator's exit device for a guest write \<open>g\<close>: \<^verbatim>\<open>(g << 1) | 1\<close>, as
  \<^verbatim>\<open>docs/boot/DIAGNOSTICS.md\<close> states it.
\<close>

definition host_status :: "u32 \<Rightarrow> int" where
  "host_status g = 2 * uint g + 1"

definition harness_class :: "io_trace \<Rightarrow> boot_classification \<Rightarrow> bool" where
  "harness_class tr c \<longleftrightarrow> (\<exists>g trace. exit_codes tr = [g] \<and>
     parse_protocol_stream (debugcon_stream tr) False = (Ok trace :: (unit, _) outcome) \<and>
     classify_boot False (Some (host_status g)) trace = c)"

lemma host_statuses:
  "range (\<lambda>code. Some (host_status (exit_code_value code))) = {Some 33, Some 65, Some 67, Some 69, Some 71}"
proof -
  have codes: "(UNIV :: qemu_exit_code set) = {Success, ContractRejected, KernelPanic, LoaderFailure, KernelReturned}"
    using qemu_exit_code.exhaust by blast
  show ?thesis unfolding codes by (simp add: host_status_def)
qed

text \<open>
  A boot that ends without a write to the exit port, after the records \<open>LOADER_START\<close> and
  \<open>ELF_VALID\<close>.  The emulator runs with \<^verbatim>\<open>-no-reboot\<close>, so it ends with a status that belongs to none of
  the project's exit values, which is an unexpected exit, or it is still there at the deadline, which
  is a timeout.
\<close>

definition unreported :: "io_trace \<Rightarrow> bool" where
  "unreported tr \<longleftrightarrow> exit_codes tr = [] \<and>
     debugcon_stream tr = record_lines [LOADER_START, ELF_VALID] \<and>
     (\<exists>trace. parse_protocol_stream (debugcon_stream tr) False = (Ok trace :: (unit, _) outcome) \<and>
       (\<forall>status. classify_boot True status trace = ClassTimeout) \<and>
       (\<forall>status. status \<notin> range (\<lambda>code. Some (host_status (exit_code_value code))) \<longrightarrow>
          classify_boot False status trace = ClassUnexpectedExit))"

lemma plain_legal:
  assumes "legal_records ms"
  shows "list_all plain_record ms"
proof -
  have run: "list_all plain_record (take n loader_run)" for n
    using plain_loader_run by (auto simp: list_all_iff dest: in_set_takeD)
  have "plain_record f"
    if "f \<in> set (SEQUENCE_2_RECORDS @ SEQUENCE_3_RECORDS @ SEQUENCE_4_RECORDS) \<or> f \<in> set kernel_verdicts" for f
    using that plain_failures plain_verdicts unfolding list_all_iff by blast
  then show ?thesis
    using assms run plain_loader_run by (auto simp: legal_records_def legal_loader_run_def)
qed

lemma boot_left_class:
  assumes left: "boot_left tr ms code" and legal: "legal_records ms"
  shows "code = Success \<Longrightarrow> ms = loader_run @ [READY_MARKER] \<Longrightarrow> harness_class tr ClassReady"
    and "code = ContractRejected \<Longrightarrow>
      ms \<in> {loader_run @ [BAD_VERSION_MARKER], loader_run @ [TRUNCATED_MARKER],
        loader_run @ [CONTRACT_INVALID_MARKER]} \<Longrightarrow> harness_class tr ClassRejected"
    and "code = KernelPanic \<Longrightarrow> ms = loader_run @ [PANIC_MARKER] \<Longrightarrow> harness_class tr ClassPanic"
    and "code = LoaderFailure \<Longrightarrow> legal_loader_run ms \<Longrightarrow> harness_class tr ClassLoaderFailure"
proof -
  note stream = record_lines_stream [OF plain_legal [OF legal]]
  have clean: "clean_stream (record_lines ms) False"
    using legal stream by (simp add: clean_stream_def)
  have tr: "exit_codes tr = [exit_code_value code]" "debugcon_stream tr = record_lines ms"
    using left by (simp_all add: boot_left_def)
  obtain trace where t: "parse_protocol_stream (record_lines ms) False = (Ok trace :: (unit, _) outcome)"
    and c: "classify_boot False (Some (host_status (exit_code_value code))) trace = ClassReady \<longleftrightarrow>
        host_status (exit_code_value code) = 33 \<and> ms = loader_run @ [READY_MARKER]"
      "classify_boot False (Some (host_status (exit_code_value code))) trace = ClassRejected \<longleftrightarrow>
        host_status (exit_code_value code) = 65 \<and>
        (\<exists>v \<in> {BAD_VERSION_MARKER, TRUNCATED_MARKER, CONTRACT_INVALID_MARKER}. ms = loader_run @ [v])"
      "classify_boot False (Some (host_status (exit_code_value code))) trace = ClassPanic \<longleftrightarrow>
        host_status (exit_code_value code) = 67 \<and> ms = loader_run @ [PANIC_MARKER]"
      "classify_boot False (Some (host_status (exit_code_value code))) trace = ClassLoaderFailure \<longleftrightarrow>
        host_status (exit_code_value code) = 69 \<and> legal_loader_run ms"
    using boot_class_cases [of "record_lines ms" False "Some (host_status (exit_code_value code))"]
    by (simp only: clean stream(1) option.inject simp_thms) blast
  have cls: "harness_class tr
      (classify_boot False (Some (host_status (exit_code_value code))) trace)"
    using t by (auto simp: harness_class_def tr)
  show "code = Success \<Longrightarrow> ms = loader_run @ [READY_MARKER] \<Longrightarrow> harness_class tr ClassReady"
    using cls c(1) by (simp add: host_status_def)
  show "code = ContractRejected \<Longrightarrow>
      ms \<in> {loader_run @ [BAD_VERSION_MARKER], loader_run @ [TRUNCATED_MARKER],
        loader_run @ [CONTRACT_INVALID_MARKER]} \<Longrightarrow> harness_class tr ClassRejected"
    using cls c(2) by (auto simp: host_status_def)
  show "code = KernelPanic \<Longrightarrow> ms = loader_run @ [PANIC_MARKER] \<Longrightarrow> harness_class tr ClassPanic"
    using cls c(3) by (simp add: host_status_def)
  show "code = LoaderFailure \<Longrightarrow> legal_loader_run ms \<Longrightarrow> harness_class tr ClassLoaderFailure"
    using cls c(4) by (simp add: host_status_def)
qed

lemma kernel_boot_left:
  assumes "emitted [] tr loader_run" and "exit_codes tr = []"
  shows "boot_left (polytope_kernel_main dev mem contract len tr)
    (loader_run @ [fst (kernel_verdict mem contract len)]) (snd (kernel_verdict mem contract len))"
  using assms kernel_main_reports [of tr dev mem contract len]
  by (simp add: boot_left_def reports_def emitted_def record_lines_def)

lemma loader_stop_class:
  assumes "loader_main fw dev st [] = LoaderExit tr"
  shows "harness_class tr ClassLoaderFailure"
proof -
  have "\<exists>ms. boot_left tr ms LoaderFailure \<and> legal_loader_run ms"
  proof -
    have run: "take 1 loader_run = [LOADER_START]" "take 2 loader_run = [LOADER_START, ELF_VALID]"
      by (simp_all add: loader_run_def loader_markers)
    consider m where "exit_codes tr = [0x22]" "m \<in> set second_stage_markers" "emitted [] tr (take 2 loader_run @ [m])"
      | m where "exit_codes tr = [0x22]" "m \<in> set first_stage_markers" "emitted [] tr (take 1 loader_run @ [m])"
      using assms loader_main_cases [where fw = fw and dev = dev and st = st and tr = "[]"]
      unfolding run by auto
    then show ?thesis
    proof cases
      case (1 m)
      have "legal_loader_run (take 2 loader_run @ [m])"
        unfolding legal_loader_run_def using 1(2) second_stage_records by blast
      then show ?thesis
        using 1 by (intro exI conjI) (simp_all add: boot_left_def emitted_def del: record_lines_append)
    next
      case (2 m)
      have "legal_loader_run (take 1 loader_run @ [m])"
        unfolding legal_loader_run_def using 2(2) first_stage_records by blast
      then show ?thesis
        using 2 by (intro exI conjI) (simp_all add: boot_left_def emitted_def del: record_lines_append)
    qed
  qed
  then show ?thesis
    using boot_left_class(4) unfolding legal_records_def by blast
qed

lemma loader_reset_unreported:
  assumes "loader_main fw dev st [] = LoaderReset tr"
  shows "unreported tr"
proof -
  have run: "take 2 loader_run = [LOADER_START, ELF_VALID]"
    by (simp add: loader_run_def loader_markers)
  have left: "exit_codes tr = []" "debugcon_stream tr = record_lines (take 2 loader_run)"
    using assms loader_main_cases [where fw = fw and dev = dev and st = st and tr = "[]"]
    unfolding run by (simp_all add: emitted_def)
  have legal: "legal_loader_run (take 2 loader_run)" unfolding legal_loader_run_def by blast
  then have records: "legal_records (take 2 loader_run)" by (simp add: legal_records_def)
  note stream = record_lines_stream [OF plain_legal [OF records]]
  have clean: "clean_stream (record_lines (take 2 loader_run)) False"
    using records stream by (simp add: clean_stream_def)
  obtain trace where t: "parse_protocol_stream (record_lines (take 2 loader_run)) False = (Ok trace :: (unit, _) outcome)"
    "trace = \<lparr>pt_markers = no_evidence, pt_violation = None\<rparr>"
    using parse_protocol_stream_verdict [of "record_lines (take 2 loader_run)" False, where 'a = unit]
      clean stream(1) verdict_evidence_loader [OF legal] by auto
  show ?thesis
    unfolding unreported_def using left t
    by (auto simp: run [symmetric] host_statuses classify_boot_def no_evidence_def
        READY_EXIT_STATUS_def REJECT_EXIT_STATUS_def PANIC_EXIT_STATUS_def split: option.splits)
qed

section \<open>The outcome of a boot\<close>

text \<open>
  What a boot is to end as, from what the loader finds and is given by the firmware: with a class of
  the harness, or with the reset of a firmware that did not let the loader leave its boot services.
\<close>

datatype boot_end = Classified boot_classification | ResetByFirmware

definition boot_outcome :: "firmware \<Rightarrow> loader_state \<Rightarrow> boot_end" where
  "boot_outcome fw st =
     (case prepare_kernel fw st of
        Ok ((entry, storage, scn), st') \<Rightarrow>
          (case fw_exit_boot_services fw (ld_allocations st') of
             ColdReset \<Rightarrow> ResetByFirmware
           | ExitPanic \<Rightarrow> Classified ClassLoaderFailure
           | FinalMap memory_map \<Rightarrow> Classified
               (if \<not> map_ok (fw_types fw) (fw_sort_map fw memory_map) then ClassLoaderFailure
                else if scn \<noteq> TruncatedContract \<and> \<not> pointer_ok (unat (cs_base storage)) 4176
                then ClassRejected
                else
                  (case scn of
                     Normal \<Rightarrow> ClassReady
                   | DeliberatePanic \<Rightarrow> ClassPanic
                   | _ \<Rightarrow> ClassRejected)))
      | _ \<Rightarrow> Classified ClassLoaderFailure)"

lemma memory_slice_copied:
  "n \<le> length data \<Longrightarrow> memory_slice (copy_bytes base data mem) base n = take n data"
  by (auto simp: memory_slice_eq_iff copy_bytes_def)

lemma loader_stops:
  assumes "prepare_kernel fw st = Ok ((entry, storage, scn), st')"
    and "fw_exit_boot_services fw (ld_allocations st') = FinalMap memory_map"
    and "\<not> map_ok (fw_types fw) (fw_sort_map fw memory_map)"
  shows "\<exists>tr'. loader_main fw dev st tr = LoaderExit tr'"
proof -
  have size: "BOOT_INFO_SIZE \<le> cs_byte_length storage"
    using prepare_kernel_storage [OF assms(1)] by (simp add: BOOT_INFO_SIZE_def)
  have "encode_contract (fw_types fw) (fw_sort_map fw memory_map) (cs_byte_length storage) scn \<noteq> Ok p" for p
    using assms(3) encode_contract_Ok_iff(1) [OF size] by (cases p) auto
  then show ?thesis
    using assms(1,2) by (auto simp: loader_main_def Let_def split: outcome.splits)
qed

lemma loader_hands_over:
  assumes "prepare_kernel fw st = Ok ((entry, storage, scn), st')"
    and "map_ok (fw_types fw) ds" and "ds = fw_sort_map fw memory_map"
    and "fw_exit_boot_services fw (ld_allocations st') = FinalMap memory_map"
  obtains mem tr where
    "loader_main fw dev st [] = Handoff entry (unat (cs_base storage)) (handoff_length scn) mem tr"
    "memory_slice mem (unat (cs_base storage)) (handoff_length scn) =
      take (handoff_length scn) (wire_boot_info (stored_contract (fw_types fw) ds scn) @ replicate 4016 0)"
    "emitted [] tr loader_run" "exit_codes tr = []"
proof -
  have size: "cs_byte_length storage = 8192" using prepare_kernel_storage [OF assms(1)] .
  let ?out = "wire_boot_info (stored_contract (fw_types fw) ds scn) @ replicate 4016 0"
  have enc: "encode_contract (fw_types fw) ds 8192 scn = Ok (handoff_length scn, ?out)"
    using assms(2) encode_contract_Ok_iff(1) [of 8192 "fw_types fw" ds scn] by (simp add: BOOT_INFO_SIZE_def)
  define mem where "mem = copy_bytes (unat (cs_base storage)) ?out (ld_mem st')"
  obtain tr where run:
    "loader_main fw dev st [] = Handoff entry (unat (cs_base storage)) (handoff_length scn) mem tr"
    using assms(1) enc size by (simp add: loader_main_def Let_def transfer_to_kernel_def assms(3,4) mem_def)
  have "handoff_length scn \<le> length ?out"
    using assms(2) wire_boot_info_length [of "stored_contract (fw_types fw) ds scn"]
    by (simp add: handoff_length_def typed_stored_contract map_ok_def BOOT_INFO_SIZE_def)
  then have "memory_slice mem (unat (cs_base storage)) (handoff_length scn) = take (handoff_length scn) ?out"
    unfolding mem_def by (rule memory_slice_copied)
  moreover have "emitted [] tr loader_run" "exit_codes tr = []"
    using run loader_main_cases [where fw = fw and dev = dev and st = st and tr = "[]"]
    by (simp_all add: loader_run_def loader_markers)
  ultimately show ?thesis using that run by blast
qed

lemma handoff_verdict:
  assumes "map_ok t ds"
    and "memory_slice mem base (handoff_length scn) =
      take (handoff_length scn) (wire_boot_info (stored_contract t ds scn) @ xs)"
  shows "kernel_verdict mem base (handoff_length scn) =
    (if scn = TruncatedContract then (TRUNCATED_MARKER, ContractRejected)
     else if \<not> pointer_ok base 4176 then (CONTRACT_INVALID_MARKER, ContractRejected)
     else (case scn of
         Normal \<Rightarrow> (READY_MARKER, Success)
       | DeliberatePanic \<Rightarrow> (PANIC_MARKER, KernelPanic)
       | _ \<Rightarrow> (BAD_VERSION_MARKER, ContractRejected)))"
proof (cases "scn = TruncatedContract")
  case True
  then show ?thesis by (simp add: kernel_verdict_def handoff_length_def kernel_markers)
next
  case False
  have "contract_verdict (memory_slice mem base 4176) =
      (case scn of
         Normal \<Rightarrow> (READY_MARKER, Success)
       | DeliberatePanic \<Rightarrow> (PANIC_MARKER, KernelPanic)
       | _ \<Rightarrow> (BAD_VERSION_MARKER, ContractRejected))"
    using parse_stored_contract [OF assms(1), of scn xs] assms(2) False
    by (cases scn) (simp_all add: contract_verdict_def handoff_length_def kernel_markers
        loader_contract_def built_def scenario_normal_def scenario_test_def scenario_kind_defs)
  then show ?thesis
    using False by (simp add: kernel_verdict_def handoff_length_def kernel_markers)
qed

lemma handed_over_class:
  assumes prep: "prepare_kernel fw st = Ok ((entry, storage, scn), st')"
    and ebs: "fw_exit_boot_services fw (ld_allocations st') = FinalMap memory_map"
    and ok: "map_ok (fw_types fw) (fw_sort_map fw memory_map)"
  shows "harness_class (boot_machine fw dev st)
    (if scn \<noteq> TruncatedContract \<and> \<not> pointer_ok (unat (cs_base storage)) 4176 then ClassRejected
     else (case scn of Normal \<Rightarrow> ClassReady | DeliberatePanic \<Rightarrow> ClassPanic | _ \<Rightarrow> ClassRejected))"
proof -
  let ?ds = "fw_sort_map fw memory_map"
  obtain mem tr where run:
    "loader_main fw dev st [] = Handoff entry (unat (cs_base storage)) (handoff_length scn) mem tr"
    "memory_slice mem (unat (cs_base storage)) (handoff_length scn) =
      take (handoff_length scn) (wire_boot_info (stored_contract (fw_types fw) ?ds scn) @ replicate 4016 0)"
    "emitted [] tr loader_run" "exit_codes tr = []"
    by (rule loader_hands_over [OF prep ok refl ebs])
  let ?v = "kernel_verdict mem (unat (cs_base storage)) (handoff_length scn)"
  have left: "boot_left (boot_machine fw dev st) (loader_run @ [fst ?v]) (snd ?v)"
    using kernel_boot_left [OF run(3,4)] by (simp add: boot_machine_def run(1))
  note v = handoff_verdict [OF ok run(2)]
  have legal: "legal_records (loader_run @ [fst ?v])"
    unfolding v by (cases scn) (simp_all add: legal_records_def kernel_verdicts_def)
  show ?thesis
    using boot_left_class [OF left [unfolded v] legal [unfolded v]]
    by (cases scn; cases "pointer_ok (unat (cs_base storage)) 4176") simp_all
qed

text \<open>
  C1: one boot, end to end.  Whatever the firmware and the serial port do, the boot ends in one of
  two ways.  Either loader and kernel together write the exit port exactly once, and the harness,
  given their debug-console log and the host status that belongs to the exit value, assigns exactly
  the class that the boot scenario, the memory map and the contract pointer call for, never an
  unexpected exit or a missing marker.  Or, exactly when the firmware library cold-resets the machine
  instead of leaving the boot services, the log holds the first two records, the exit port is not
  written, and the harness reports an unexpected exit for every status that is not one of the
  project's, and a timeout when the deadline passes.  The assembly entry is taken to reach the kernel's
  entry function.
\<close>

theorem boot_refines_outcome:
  "case boot_outcome fw st of
     Classified c \<Rightarrow> harness_class (boot_machine fw dev st) c \<and>
       c \<notin> {ClassUnexpectedExit, ClassMissingMarker, ClassTimeout}
   | ResetByFirmware \<Rightarrow> unreported (boot_machine fw dev st)"
proof (cases "prepare_kernel fw st")
  case (Ok r)
  obtain entry storage scn st' where prep: "prepare_kernel fw st = Ok ((entry, storage, scn), st')"
    using Ok by (metis prod.exhaust)
  show ?thesis
  proof (cases "fw_exit_boot_services fw (ld_allocations st')")
    case (FinalMap memory_map)
    show ?thesis
    proof (cases "map_ok (fw_types fw) (fw_sort_map fw memory_map)")
      case True
      show ?thesis
        using handed_over_class [OF prep FinalMap True, of dev] True
        by (auto simp: boot_outcome_def prep FinalMap split: boot_scenario.splits)
    next
      case False
      obtain tr where "loader_main fw dev st [] = LoaderExit tr"
        using loader_stops [OF prep FinalMap False] by blast
      then show ?thesis
        using loader_stop_class False by (simp add: boot_outcome_def prep FinalMap boot_machine_def)
    qed
  next
    case ColdReset
    then obtain tr where "loader_main fw dev st [] = LoaderReset tr"
      by (simp add: loader_main_def prep)
    then show ?thesis
      using loader_reset_unreported by (simp add: boot_outcome_def prep ColdReset boot_machine_def)
  next
    case ExitPanic
    then obtain tr where "loader_main fw dev st [] = LoaderExit tr"
      by (simp add: loader_main_def prep)
    then show ?thesis
      using loader_stop_class by (simp add: boot_outcome_def prep ExitPanic boot_machine_def)
  qed
next
  case Panic
  then obtain tr where "loader_main fw dev st [] = LoaderExit tr" by (simp add: loader_main_def)
  then show ?thesis using loader_stop_class by (simp add: boot_outcome_def Panic boot_machine_def)
next
  case (Err e)
  then obtain tr where "loader_main fw dev st [] = LoaderExit tr" by (simp add: loader_main_def)
  then show ?thesis using loader_stop_class by (simp add: boot_outcome_def Err boot_machine_def)
qed

end
