(* ===== verification/Compiler_Lexer.thy ===== *)
theory Compiler_Lexer
  imports Prelude
begin

text \<open>
  The bootstrap lexer (\<^verbatim>\<open>crates/compiler/src/lib.rs\<close>).  Source text is the list of its Unicode scalar
  values; offsets count bytes of its UTF-8 form, and slicing at an offset inside a character panics,
  as it does for \<^verbatim>\<open>str\<close>.  The properties: the lexer never panics, always advances, and its tokens
  spell the text of their spans.
\<close>

section \<open>Characters and slices\<close>

type_synonym scalar = nat

definition len_utf8 :: "scalar \<Rightarrow> usize" where
  "len_utf8 c = (if c < 0x80 then 1 else if c < 0x800 then 2 else if c < 0x10000 then 3 else 4)"

definition text_length :: "scalar list \<Rightarrow> usize" where
  "text_length cs = sum_list (map len_utf8 cs)"

fun chars_at :: "scalar list \<Rightarrow> usize \<Rightarrow> (unit, scalar list) outcome" where
  "chars_at cs 0 = Ok cs"
| "chars_at [] (Suc n) = Panic"
| "chars_at (c # cs) (Suc n) = (if len_utf8 c \<le> Suc n then chars_at cs (Suc n - len_utf8 c) else Panic)"

fun chars_until :: "scalar list \<Rightarrow> usize \<Rightarrow> (unit, scalar list) outcome" where
  "chars_until cs 0 = Ok []"
| "chars_until [] (Suc n) = Panic"
| "chars_until (c # cs) (Suc n) =
     (if len_utf8 c \<le> Suc n
      then and_then (chars_until cs (Suc n - len_utf8 c)) (\<lambda>rest. Ok (c # rest)) else Panic)"

definition text_slice :: "scalar list \<Rightarrow> usize \<Rightarrow> usize \<Rightarrow> (unit, scalar list) outcome" where
  "text_slice cs start stop =
     (if start \<le> stop then and_then (chars_at cs start) (\<lambda>rest. chars_until rest (stop - start)) else Panic)"

definition code_points :: "string \<Rightarrow> scalar list" where
  "code_points s = map of_char s"

definition is_whitespace :: "scalar \<Rightarrow> bool" where
  "is_whitespace c \<longleftrightarrow> (0x09 \<le> c \<and> c \<le> 0x0D) \<or> c = 0x20 \<or> c = 0x85 \<or> c = 0xA0 \<or> c = 0x1680 \<or>
     (0x2000 \<le> c \<and> c \<le> 0x200A) \<or> c = 0x2028 \<or> c = 0x2029 \<or> c = 0x202F \<or> c = 0x205F \<or> c = 0x3000"

definition is_digit :: "scalar \<Rightarrow> bool" where
  "is_digit c \<longleftrightarrow> 0x30 \<le> c \<and> c \<le> 0x39"

definition is_alphabetic :: "scalar \<Rightarrow> bool" where
  "is_alphabetic c \<longleftrightarrow> (0x41 \<le> c \<and> c \<le> 0x5A) \<or> (0x61 \<le> c \<and> c \<le> 0x7A)"

definition is_ident_start :: "scalar \<Rightarrow> bool" where
  "is_ident_start c \<longleftrightarrow> is_alphabetic c \<or> c = 0x5F"

definition is_ident_char :: "scalar \<Rightarrow> bool" where
  "is_ident_char c \<longleftrightarrow> is_alphabetic c \<or> is_digit c \<or> c = 0x5F"

definition to_digit :: "scalar \<Rightarrow> nat option" where
  "to_digit c = (if is_digit c then Some (c - 0x30) else None)"

section \<open>Tokens\<close>

record span =
  sp_start :: usize
  sp_end :: usize

datatype token_kind =
    Function | Identifier "scalar list" | Integer u64 | LeftParen | RightParen | LeftBrace | RightBrace

record token =
  tk_kind :: token_kind
  tk_span :: span

record lex_error =
  le_character :: scalar
  le_offset :: usize

record lexer =
  lx_source :: "scalar list"
  lx_offset :: usize

definition lexer_new :: "scalar list \<Rightarrow> lexer" where
  "lexer_new source = \<lparr>lx_source = source, lx_offset = 0\<rparr>"

section \<open>Progress through the source\<close>

lemma len_utf8_pos: "0 < len_utf8 c"
  by (simp add: len_utf8_def)

lemma text_length_simps [simp]:
  "text_length [] = 0" "text_length (c # cs) = len_utf8 c + text_length cs"
  "text_length (as @ bs) = text_length as + text_length bs"
  by (simp_all add: text_length_def)

lemma chars_at_length: "chars_at cs n = Ok rest \<Longrightarrow> n + text_length rest = text_length cs"
  by (induction cs n arbitrary: rest rule: chars_at.induct) (auto split: if_splits)

lemma chars_at_Cons_less: "chars_at cs n = Ok (c # rest) \<Longrightarrow> n < text_length cs"
  using chars_at_length [of cs n "c # rest"] len_utf8_pos [of c] by simp

section \<open>The iterator\<close>

text \<open>Each loop looks at the next character of the rest of the source, as the code does.\<close>

function skip_whitespace :: "scalar list \<Rightarrow> usize \<Rightarrow> (unit, usize) outcome" where
  "skip_whitespace source offset =
     (case chars_at source offset of
        Ok (character # _) \<Rightarrow>
          if is_whitespace character then skip_whitespace source (offset + len_utf8 character)
          else Ok offset
      | Ok [] \<Rightarrow> Ok offset
      | _ \<Rightarrow> Panic)"
  by pat_completeness auto
termination
  by (relation "measure (\<lambda>(source, offset). text_length source - offset)")
    (auto simp: len_utf8_pos dest!: chars_at_Cons_less intro: diff_less_mono2)

function ident_loop :: "scalar list \<Rightarrow> usize \<Rightarrow> (unit, usize) outcome" where
  "ident_loop source offset =
     (case chars_at source offset of
        Ok (following # _) \<Rightarrow>
          if \<not> is_ident_char following then Ok offset
          else ident_loop source (offset + len_utf8 following)
      | Ok [] \<Rightarrow> Ok offset
      | _ \<Rightarrow> Panic)"
  by pat_completeness auto
termination
  by (relation "measure (\<lambda>(source, offset). text_length source - offset)")
    (auto simp: len_utf8_pos dest!: chars_at_Cons_less intro: diff_less_mono2)

text \<open>The digits of an integer: the value and the offset after it, or the overflowing digit.\<close>

function integer_loop :: "scalar list \<Rightarrow> u64 \<Rightarrow> usize \<Rightarrow> (unit, (lex_error + u64) \<times> usize) outcome" where
  "integer_loop source v offset =
     (case chars_at source offset of
        Ok (following # _) \<Rightarrow>
          (case to_digit following of
             None \<Rightarrow> Ok (Inr v, offset)
           | Some digit \<Rightarrow>
               (case Option.bind (checked_mul v 10) (\<lambda>current. checked_add current (of_nat digit)) of
                  None \<Rightarrow> Ok (Inl \<lparr>le_character = following, le_offset = offset\<rparr>, offset)
                | Some updated \<Rightarrow> integer_loop source updated (offset + len_utf8 following)))
      | Ok [] \<Rightarrow> Ok (Inr v, offset)
      | _ \<Rightarrow> Panic)"
  by pat_completeness auto
termination
  by (relation "measure (\<lambda>(source, v, offset). text_length source - offset)")
    (auto simp: len_utf8_pos dest!: chars_at_Cons_less intro: diff_less_mono2)

declare skip_whitespace.simps [simp del] ident_loop.simps [simp del] integer_loop.simps [simp del]

definition punctuation :: "scalar \<Rightarrow> token_kind option" where
  "punctuation character =
     (if character = 0x28 then Some LeftParen
      else if character = 0x29 then Some RightParen
      else if character = 0x7B then Some LeftBrace
      else if character = 0x7D then Some RightBrace
      else None)"

definition lexer_next :: "lexer \<Rightarrow> (unit, (lex_error + token) option \<times> lexer) outcome" where
  "lexer_next lx =
     (let source = lx_source lx in
      and_then (skip_whitespace source (lx_offset lx)) (\<lambda>start.
      and_then (chars_at source start) (\<lambda>rest.
      case rest of
        [] \<Rightarrow> Ok (None, lx\<lparr>lx_offset := start\<rparr>)
      | character # _ \<Rightarrow>
          (case punctuation character of
             Some kind \<Rightarrow>
               Ok (Some (Inr \<lparr>tk_kind = kind, tk_span = \<lparr>sp_start = start, sp_end = start + 1\<rparr>\<rparr>),
                 lx\<lparr>lx_offset := start + 1\<rparr>)
           | None \<Rightarrow>
               if is_ident_start character then
                 and_then (ident_loop source (start + len_utf8 character)) (\<lambda>stop.
                 and_then (text_slice source start stop) (\<lambda>text.
                 let kind = (if text = code_points ''fn'' then Function else Identifier text) in
                 Ok (Some (Inr \<lparr>tk_kind = kind, tk_span = \<lparr>sp_start = start, sp_end = stop\<rparr>\<rparr>),
                   lx\<lparr>lx_offset := stop\<rparr>)))
               else if is_digit character then
                 and_then (integer_loop source 0 start) (\<lambda>(result, stop).
                 Ok (Some (case result of
                       Inl error \<Rightarrow> Inl error
                     | Inr v \<Rightarrow>
                         Inr \<lparr>tk_kind = Integer v, tk_span = \<lparr>sp_start = start, sp_end = stop\<rparr>\<rparr>),
                   lx\<lparr>lx_offset := stop\<rparr>))
               else
                 Ok (Some (Inl \<lparr>le_character = character, le_offset = start\<rparr>),
                   lx\<lparr>lx_offset := start + len_utf8 character\<rparr>)))))"

section \<open>The loops on a split source\<close>

lemma chars_at_split [simp]: "chars_at (pre @ rest) (text_length pre) = Ok rest"
proof (induction pre)
  case (Cons c pre)
  obtain n where n: "len_utf8 c + text_length pre = Suc n"
    using len_utf8_pos [of c] by (cases "len_utf8 c + text_length pre") simp_all
  have "len_utf8 c \<le> Suc n" "Suc n - len_utf8 c = text_length pre" using n by linarith+
  then show ?case using Cons by (simp add: n)
qed simp

lemma chars_until_split [simp]: "chars_until (mid @ rest) (text_length mid) = Ok mid"
proof (induction mid)
  case (Cons c mid)
  obtain n where n: "len_utf8 c + text_length mid = Suc n"
    using len_utf8_pos [of c] by (cases "len_utf8 c + text_length mid") simp_all
  have "len_utf8 c \<le> Suc n" "Suc n - len_utf8 c = text_length mid" using n by linarith+
  then show ?case using Cons by (simp add: n)
qed simp

lemma text_slice_split:
  "text_slice (pre @ mid @ rest) (text_length pre) (text_length pre + text_length mid) = Ok mid"
  by (simp add: text_slice_def)

lemma skip_whitespace_split:
  "skip_whitespace (pre @ rest) (text_length pre) =
    Ok (text_length pre + text_length (takeWhile is_whitespace rest))"
proof (induction rest arbitrary: pre)
  case Nil
  then show ?case using chars_at_split [of pre "[]"] by (subst skip_whitespace.simps) simp
next
  case (Cons c rest)
  then show ?case
    using Cons [of "pre @ [c]"] by (subst skip_whitespace.simps) (simp add: add.assoc)
qed

lemma ident_loop_split:
  "ident_loop (pre @ rest) (text_length pre) =
    Ok (text_length pre + text_length (takeWhile is_ident_char rest))"
proof (induction rest arbitrary: pre)
  case Nil
  then show ?case using chars_at_split [of pre "[]"] by (subst ident_loop.simps) simp
next
  case (Cons c rest)
  then show ?case
    using Cons [of "pre @ [c]"] by (subst ident_loop.simps) (simp add: add.assoc)
qed

definition digits_value :: "nat \<Rightarrow> scalar list \<Rightarrow> nat" where
  "digits_value v ds = foldl (\<lambda>v d. v * 10 + (d - 0x30)) v ds"

lemma digits_value_simps [simp]:
  "digits_value v [] = v" "digits_value v (d # ds) = digits_value (v * 10 + (d - 0x30)) ds"
  by (simp_all add: digits_value_def)

lemma integer_step:
  fixes v :: u64
  assumes "is_digit d"
  shows "Option.bind (checked_mul v 10) (\<lambda>current. checked_add current (of_nat (d - 0x30))) =
    (if unat v * 10 + (d - 0x30) < 2 ^ 64 then Some (of_nat (unat v * 10 + (d - 0x30))) else None)"
proof -
  have d: "d - 0x30 < 10" using assms by (auto simp: is_digit_def)
  then have "unat (of_nat (d - 0x30) :: u64) = d - 0x30" by (simp add: unat_of_nat)
  moreover have "unat (v * 10) = unat v * 10" if "unat v * 10 < 2 ^ 64"
    using that by (simp add: unat_word_ariths)
  ultimately show ?thesis
    by (auto simp: checked_mul_def checked_add_def bind_eq_Some_conv)
qed

text \<open>The digits before the first overflow: all of them, or those before the digit that overflows.\<close>

lemma integer_loop_split:
  "\<exists>ds rest'. rest = ds @ rest' \<and> list_all is_digit ds \<and> digits_value (unat v) ds < 2 ^ 64 \<and>
    ((rest' = [] \<or> \<not> is_digit (hd rest')) \<and>
       integer_loop (pre @ rest) v (text_length pre) =
         Ok (Inr (of_nat (digits_value (unat v) ds)), text_length pre + text_length ds) \<or>
     rest' \<noteq> [] \<and> is_digit (hd rest') \<and> 2 ^ 64 \<le> digits_value (unat v) (ds @ [hd rest']) \<and>
       integer_loop (pre @ rest) v (text_length pre) =
         Ok (Inl \<lparr>le_character = hd rest', le_offset = text_length pre + text_length ds\<rparr>,
           text_length pre + text_length ds))"
proof (induction rest arbitrary: pre v)
  case Nil
  have "integer_loop (pre @ []) v (text_length pre) = Ok (Inr v, text_length pre)"
    using chars_at_split [of pre "[]"] by (subst integer_loop.simps) simp
  then show ?case using unsigned_less [of v, where 'a = nat] by (intro exI [of _ "[]"]) simp
next
  case (Cons c rest)
  have at: "chars_at (pre @ c # rest) (text_length pre) = Ok (c # rest)" by simp
  consider (other) "\<not> is_digit c" | (overflow) "is_digit c" "2 ^ 64 \<le> unat v * 10 + (c - 0x30)"
    | (digit) "is_digit c" "unat v * 10 + (c - 0x30) < 2 ^ 64"
    by linarith
  then show ?case
  proof cases
    case other
    then have "integer_loop (pre @ c # rest) v (text_length pre) = Ok (Inr v, text_length pre)"
      using at by (subst integer_loop.simps) (simp add: to_digit_def)
    then show ?thesis
      using other unsigned_less [of v, where 'a = nat]
      by (intro exI [of _ "[]"] exI [of _ "c # rest"]) simp
  next
    case overflow
    then have "integer_loop (pre @ c # rest) v (text_length pre) =
        Ok (Inl \<lparr>le_character = c, le_offset = text_length pre\<rparr>, text_length pre)"
      using at integer_step [OF overflow(1), of v] by (subst integer_loop.simps) (simp add: to_digit_def)
    then show ?thesis
      using overflow unsigned_less [of v, where 'a = nat]
      by (intro exI [of _ "[]"] exI [of _ "c # rest"]) simp
  next
    case digit
    define w :: u64 where "w = of_nat (unat v * 10 + (c - 0x30))"
    have w: "unat w = unat v * 10 + (c - 0x30)" unfolding w_def unat_of_nat using digit(2) by simp
    have step: "integer_loop (pre @ c # rest) v (text_length pre) =
        integer_loop ((pre @ [c]) @ rest) w (text_length (pre @ [c]))"
      using at integer_step [OF digit(1), of v] digit
      by (subst integer_loop.simps) (simp add: to_digit_def w_def)
    from Cons [of w "pre @ [c]"] obtain ds rest' where
      ih: "rest = ds @ rest'" "list_all is_digit ds" "digits_value (unat w) ds < 2 ^ 64"
      "(rest' = [] \<or> \<not> is_digit (hd rest')) \<and>
         integer_loop ((pre @ [c]) @ rest) w (text_length (pre @ [c])) =
           Ok (Inr (of_nat (digits_value (unat w) ds)), text_length (pre @ [c]) + text_length ds) \<or>
       rest' \<noteq> [] \<and> is_digit (hd rest') \<and> 2 ^ 64 \<le> digits_value (unat w) (ds @ [hd rest']) \<and>
         integer_loop ((pre @ [c]) @ rest) w (text_length (pre @ [c])) =
           Ok (Inl \<lparr>le_character = hd rest', le_offset = text_length (pre @ [c]) + text_length ds\<rparr>,
             text_length (pre @ [c]) + text_length ds)"
      by blast
    have "integer_loop (pre @ c # ds @ rest') v (text_length pre) =
        integer_loop (pre @ c # ds @ rest') w (text_length pre + len_utf8 c)"
      using step ih(1) by simp
    note loop = this
    show ?thesis
      by (rule exI [of _ "c # ds"], rule exI [of _ rest'])
        (use ih digit(1) in \<open>simp add: loop w add.assoc\<close>)
  qed
qed

section \<open>What the iterator yields\<close>

text \<open>The text of a token of each kind.\<close>

fun spells :: "token_kind \<Rightarrow> scalar list \<Rightarrow> bool" where
  "spells Function text \<longleftrightarrow> text = code_points ''fn''"
| "spells (Identifier name) text \<longleftrightarrow> text = name \<and> name \<noteq> [] \<and> is_ident_start (hd name) \<and>
     list_all is_ident_char name \<and> name \<noteq> code_points ''fn''"
| "spells (Integer v) text \<longleftrightarrow> text \<noteq> [] \<and> list_all is_digit text \<and> digits_value 0 text = unat v"
| "spells LeftParen text \<longleftrightarrow> text = code_points ''(''"
| "spells RightParen text \<longleftrightarrow> text = code_points '')''"
| "spells LeftBrace text \<longleftrightarrow> text = code_points ''{''"
| "spells RightBrace text \<longleftrightarrow> text = code_points ''}''"

text \<open>A word or number ends only where the next character cannot continue it.\<close>

fun ends_before :: "token_kind \<Rightarrow> scalar list \<Rightarrow> bool" where
  "ends_before Function rest \<longleftrightarrow> rest = [] \<or> \<not> is_ident_char (hd rest)"
| "ends_before (Identifier _) rest \<longleftrightarrow> rest = [] \<or> \<not> is_ident_char (hd rest)"
| "ends_before (Integer _) rest \<longleftrightarrow> rest = [] \<or> \<not> is_digit (hd rest)"
| "ends_before _ rest \<longleftrightarrow> True"

definition lexer_at :: "scalar list \<Rightarrow> scalar list \<Rightarrow> lexer" where
  "lexer_at pre rest = \<lparr>lx_source = pre @ rest, lx_offset = text_length pre\<rparr>"

definition starts_token :: "scalar \<Rightarrow> bool" where
  "starts_token c \<longleftrightarrow> punctuation c \<noteq> None \<or> is_ident_start c \<or> is_digit c"

definition token_at :: "scalar list \<Rightarrow> scalar list \<Rightarrow> token_kind \<Rightarrow> token" where
  "token_at pre text kind =
     \<lparr>tk_kind = kind, tk_span = \<lparr>sp_start = text_length pre, sp_end = text_length (pre @ text)\<rparr>\<rparr>"

lemma punctuation_spells: "punctuation c = Some k \<Longrightarrow> spells k [c] \<and> len_utf8 c = 1 \<and> ends_before k rest"
  by (auto simp: punctuation_def code_points_def len_utf8_def split: if_splits)

lemma ident_start_char: "is_ident_start c \<Longrightarrow> is_ident_char c"
  by (auto simp: is_ident_start_def is_ident_char_def)

lemma lexer_next_body:
  fixes pre rest :: "scalar list"
  defines "ws \<equiv> takeWhile is_whitespace rest" and "body \<equiv> dropWhile is_whitespace rest"
  shows "lexer_next (lexer_at pre rest) = lexer_next (lexer_at (pre @ ws) body)"
proof -
  have rest: "rest = ws @ body" by (simp add: ws_def body_def)
  have none: "takeWhile is_whitespace body = []"
    unfolding body_def by (induction rest) simp_all
  have skip: "skip_whitespace (lx_source (lexer_at pre rest)) (lx_offset (lexer_at pre rest)) =
      skip_whitespace (lx_source (lexer_at (pre @ ws) body)) (lx_offset (lexer_at (pre @ ws) body))"
    using skip_whitespace_split [of pre rest] skip_whitespace_split [of "pre @ ws" body] none
    by (simp add: lexer_at_def ws_def [symmetric])
  have source: "lx_source (lexer_at pre rest) = lx_source (lexer_at (pre @ ws) body)"
    by (simp add: lexer_at_def rest)
  have upd: "lexer_at pre rest\<lparr>lx_offset := n\<rparr> = lexer_at (pre @ ws) body\<lparr>lx_offset := n\<rparr>" for n
    by (simp add: lexer_at_def rest)
  show ?thesis
    unfolding lexer_next_def Let_def skip unfolding source upd by (rule refl)
qed

lemma lexer_next_end: "lexer_next (lexer_at pre []) = Ok (None, lexer_at pre [])"
  using skip_whitespace_split [of pre "[]"] chars_at_split [of pre "[]"]
  by (simp add: lexer_next_def lexer_at_def)

lemma lexer_next_start:
  assumes "\<not> is_whitespace c"
  shows "skip_whitespace (pre @ c # cs) (text_length pre) = Ok (text_length pre)"
  using skip_whitespace_split [of pre "c # cs"] assms by simp

lemma lexer_next_punctuation:
  assumes "\<not> is_whitespace c" and "punctuation c = Some k"
  shows "lexer_next (lexer_at pre (c # cs)) = Ok (Some (Inr (token_at pre [c] k)), lexer_at (pre @ [c]) cs)"
  using punctuation_spells [OF assms(2)] assms(2) lexer_next_start [OF assms(1), of pre cs]
  by (simp add: lexer_next_def lexer_at_def token_at_def)

lemma lexer_next_word:
  fixes cs :: "scalar list"
  assumes "\<not> is_whitespace c" and "punctuation c = None" and "is_ident_start c"
  defines "text \<equiv> takeWhile is_ident_char (c # cs)" and "rest \<equiv> dropWhile is_ident_char (c # cs)"
  shows "lexer_next (lexer_at pre (c # cs)) =
    Ok (Some (Inr (token_at pre text (if text = code_points ''fn'' then Function else Identifier text))),
      lexer_at (pre @ text) rest)"
proof -
  have tx: "text = c # takeWhile is_ident_char cs"
    using ident_start_char [OF assms(3)] by (simp add: text_def)
  have all: "pre @ c # cs = pre @ text @ rest" by (simp add: text_def rest_def)
  have "ident_loop (pre @ c # cs) (text_length pre + len_utf8 c) = Ok (text_length pre + text_length text)"
    using ident_loop_split [of "pre @ [c]" cs] by (simp add: tx add.assoc)
  moreover have "text_slice (pre @ c # cs) (text_length pre) (text_length pre + text_length text) = Ok text"
    unfolding all by (rule text_slice_split)
  ultimately show ?thesis
    using assms(1-3) lexer_next_start [OF assms(1), of pre cs]
    by (simp add: lexer_next_def lexer_at_def token_at_def Let_def all [symmetric])
qed

lemma lexer_next_unknown:
  assumes "\<not> is_whitespace c" and "\<not> starts_token c"
  shows "lexer_next (lexer_at pre (c # cs)) =
    Ok (Some (Inl \<lparr>le_character = c, le_offset = text_length pre\<rparr>), lexer_at (pre @ [c]) cs)"
  using assms lexer_next_start [OF assms(1), of pre cs]
  by (simp add: lexer_next_def lexer_at_def starts_token_def)

lemma integer_start:
  assumes "is_digit c"
  shows "\<not> is_whitespace c" "punctuation c = None" "\<not> is_ident_start c"
  using assms
  by (auto simp: is_digit_def is_whitespace_def punctuation_def is_ident_start_def is_alphabetic_def)

lemma lexer_next_integer:
  assumes "is_digit c"
  shows "\<exists>ds rest. c # cs = ds @ rest \<and> ds \<noteq> [] \<and> list_all is_digit ds \<and> digits_value 0 ds < 2 ^ 64 \<and>
    ((rest = [] \<or> \<not> is_digit (hd rest)) \<and> lexer_next (lexer_at pre (c # cs)) =
       Ok (Some (Inr (token_at pre ds (Integer (of_nat (digits_value 0 ds))))), lexer_at (pre @ ds) rest) \<or>
     rest \<noteq> [] \<and> is_digit (hd rest) \<and> 2 ^ 64 \<le> digits_value 0 (ds @ [hd rest]) \<and>
       lexer_next (lexer_at pre (c # cs)) =
         Ok (Some (Inl \<lparr>le_character = hd rest, le_offset = text_length (pre @ ds)\<rparr>),
           lexer_at (pre @ ds) rest))"
proof -
  obtain ds rest where split: "c # cs = ds @ rest" "list_all is_digit ds" "digits_value 0 ds < 2 ^ 64"
    and loop: "(rest = [] \<or> \<not> is_digit (hd rest)) \<and>
       integer_loop (pre @ c # cs) 0 (text_length pre) =
         Ok (Inr (of_nat (digits_value 0 ds)), text_length pre + text_length ds) \<or>
     rest \<noteq> [] \<and> is_digit (hd rest) \<and> 2 ^ 64 \<le> digits_value 0 (ds @ [hd rest]) \<and>
       integer_loop (pre @ c # cs) 0 (text_length pre) =
         Ok (Inl \<lparr>le_character = hd rest, le_offset = text_length pre + text_length ds\<rparr>,
           text_length pre + text_length ds)"
    using integer_loop_split [of "c # cs" "0 :: u64" pre] unfolding unsigned_0 by blast
  have nonempty: "ds \<noteq> []"
  proof
    assume "ds = []"
    then have "rest = c # cs" using split(1) by simp
    moreover have "c - 0x30 < 10" using assms by (auto simp: is_digit_def)
    ultimately show False using loop assms \<open>ds = []\<close> by simp
  qed
  have dest: "lexer_at (pre @ ds) rest =
      \<lparr>lx_source = pre @ c # cs, lx_offset = text_length pre + text_length ds\<rparr>"
    by (simp add: lexer_at_def split(1))
  have step: "lexer_next (lexer_at pre (c # cs)) = Ok (Some (case result of
        Inl e \<Rightarrow> Inl e | Inr v \<Rightarrow> Inr (token_at pre ds (Integer v))), lexer_at (pre @ ds) rest)"
    if "integer_loop (pre @ c # cs) 0 (text_length pre) = Ok (result, text_length pre + text_length ds)" for result
    using that integer_start [OF assms] assms lexer_next_start [OF integer_start(1) [OF assms], of pre cs]
    by (cases result) (simp_all add: lexer_next_def lexer_at_def [of pre "c # cs"] token_at_def dest)
  show ?thesis
    by (rule exI [of _ ds], rule exI [of _ rest])
      (use split(2,3) nonempty loop in \<open>auto simp: split(1) [symmetric] dest: step\<close>)
qed

text \<open>
  The step of the iterator from a character boundary: \<open>yields pre rest item pre' rest'\<close> holds when the
  item was found in \<open>rest\<close> and reading goes on with \<open>rest'\<close>.
\<close>

inductive yields ::
    "scalar list \<Rightarrow> scalar list \<Rightarrow> (lex_error + token) option \<Rightarrow> scalar list \<Rightarrow> scalar list \<Rightarrow> bool" where
  yields_end: "list_all is_whitespace ws \<Longrightarrow> yields pre ws None (pre @ ws) []"
| yields_token: "list_all is_whitespace ws \<Longrightarrow> spells kind text \<Longrightarrow> ends_before kind rest \<Longrightarrow>
    yields pre (ws @ text @ rest) (Some (Inr (token_at (pre @ ws) text kind))) (pre @ ws @ text) rest"
| yields_unknown: "list_all is_whitespace ws \<Longrightarrow> \<not> is_whitespace c \<Longrightarrow> \<not> starts_token c \<Longrightarrow>
    yields pre (ws @ c # rest) (Some (Inl \<lparr>le_character = c, le_offset = text_length (pre @ ws)\<rparr>))
      (pre @ ws @ [c]) rest"
| yields_overflow: "list_all is_whitespace ws \<Longrightarrow> ds \<noteq> [] \<Longrightarrow> list_all is_digit (ds @ [d]) \<Longrightarrow>
    digits_value 0 ds < 2 ^ 64 \<Longrightarrow> 2 ^ 64 \<le> digits_value 0 (ds @ [d]) \<Longrightarrow>
    yields pre (ws @ ds @ d # rest)
      (Some (Inl \<lparr>le_character = d, le_offset = text_length (pre @ ws @ ds)\<rparr>)) (pre @ ws @ ds) (d # rest)"

lemma lexer_next_word_yields:
  assumes ws: "list_all is_whitespace ws" and c: "\<not> is_whitespace c"
    and word: "punctuation c = None" "is_ident_start c"
  shows "\<exists>item pre' rest'. lexer_next (lexer_at (pre @ ws) (c # cs)) = Ok (item, lexer_at pre' rest') \<and>
    yields pre (ws @ c # cs) item pre' rest'"
proof -
  let ?t = "takeWhile is_ident_char (c # cs)" and ?r = "dropWhile is_ident_char (c # cs)"
  let ?k = "if ?t = code_points ''fn'' then Function else Identifier ?t"
  have t: "?t = c # takeWhile is_ident_char cs" using ident_start_char [OF word(2)] by simp
  have "list_all is_ident_char ?t" using set_takeWhileD by (fastforce simp: list_all_iff)
  then have "spells ?k ?t" using word(2) by (simp add: t del: takeWhile.simps)
  moreover have "?r = [] \<or> \<not> is_ident_char (hd ?r)" using hd_dropWhile by blast
  then have "ends_before ?k ?r" by (simp del: dropWhile.simps)
  ultimately have "yields pre (ws @ ?t @ ?r) (Some (Inr (token_at (pre @ ws) ?t ?k))) (pre @ ws @ ?t) ?r"
    by (rule yields_token [OF ws])
  then show ?thesis
    using lexer_next_word [OF c word, of "pre @ ws" cs] unfolding takeWhile_dropWhile_id append_assoc
    by blast
qed

lemma lexer_next_digit_yields:
  assumes ws: "list_all is_whitespace ws" and digit: "is_digit c"
  shows "\<exists>item pre' rest'. lexer_next (lexer_at (pre @ ws) (c # cs)) = Ok (item, lexer_at pre' rest') \<and>
    yields pre (ws @ c # cs) item pre' rest'"
proof -
  from lexer_next_integer [OF digit, of cs "pre @ ws"] obtain ds rest where
    split: "c # cs = ds @ rest" "ds \<noteq> []" "list_all is_digit ds" "digits_value 0 ds < 2 ^ 64" and
    result: "(rest = [] \<or> \<not> is_digit (hd rest)) \<and> lexer_next (lexer_at (pre @ ws) (c # cs)) =
       Ok (Some (Inr (token_at (pre @ ws) ds (Integer (of_nat (digits_value 0 ds))))),
         lexer_at ((pre @ ws) @ ds) rest) \<or>
     rest \<noteq> [] \<and> is_digit (hd rest) \<and> 2 ^ 64 \<le> digits_value 0 (ds @ [hd rest]) \<and>
       lexer_next (lexer_at (pre @ ws) (c # cs)) =
         Ok (Some (Inl \<lparr>le_character = hd rest, le_offset = text_length ((pre @ ws) @ ds)\<rparr>),
           lexer_at ((pre @ ws) @ ds) rest)"
    by blast
  from result show ?thesis
  proof (rule disjE; elim conjE)
    assume ends: "rest = [] \<or> \<not> is_digit (hd rest)"
      and step: "lexer_next (lexer_at (pre @ ws) (c # cs)) =
       Ok (Some (Inr (token_at (pre @ ws) ds (Integer (of_nat (digits_value 0 ds))))),
         lexer_at ((pre @ ws) @ ds) rest)"
    let ?v = "of_nat (digits_value 0 ds) :: u64"
    have "unat ?v = digits_value 0 ds" unfolding unat_of_nat using split(4) by simp
    then have "spells (Integer ?v) ds" using split(2,3) by simp
    then have "yields pre (ws @ ds @ rest) (Some (Inr (token_at (pre @ ws) ds (Integer ?v))))
        (pre @ ws @ ds) rest"
      by (rule yields_token [OF ws]) (use ends in simp)
    then show ?thesis using step unfolding split(1) append_assoc by blast
  next
    assume over: "rest \<noteq> []" "is_digit (hd rest)" "2 ^ 64 \<le> digits_value 0 (ds @ [hd rest])"
      and step: "lexer_next (lexer_at (pre @ ws) (c # cs)) =
         Ok (Some (Inl \<lparr>le_character = hd rest, le_offset = text_length ((pre @ ws) @ ds)\<rparr>),
           lexer_at ((pre @ ws) @ ds) rest)"
    obtain d rest' where rest: "rest = d # rest'" using over(1) by (cases rest) auto
    have "yields pre (ws @ ds @ d # rest')
        (Some (Inl \<lparr>le_character = d, le_offset = text_length (pre @ ws @ ds)\<rparr>)) (pre @ ws @ ds) (d # rest')"
      using over split by (intro yields_overflow ws) (simp_all add: rest)
    then show ?thesis using step unfolding split(1) rest append_assoc list.sel by blast
  qed
qed

lemma lexer_next_from_body:
  assumes ws: "list_all is_whitespace ws" and body: "body = [] \<or> \<not> is_whitespace (hd body)"
  shows "\<exists>item pre' rest'. lexer_next (lexer_at (pre @ ws) body) = Ok (item, lexer_at pre' rest') \<and>
    yields pre (ws @ body) item pre' rest'"
proof (cases body)
  case Nil
  then show ?thesis using yields_end [OF ws, of pre] lexer_next_end [of "pre @ ws"] by auto
next
  case (Cons c cs)
  then have c: "\<not> is_whitespace c" using body by simp
  consider (punct) k where "punctuation c = Some k" | (word) "punctuation c = None" "is_ident_start c"
    | (digit) "is_digit c" | (unknown) "\<not> starts_token c"
    by (cases "punctuation c") (auto simp: starts_token_def)
  then show ?thesis
  proof cases
    case punct
    then show ?thesis
      using yields_token [OF ws, of k "[c]" cs pre] punctuation_spells [OF punct, of cs]
        lexer_next_punctuation [OF c punct, of "pre @ ws" cs] Cons by auto
  next
    case word
    then show ?thesis unfolding Cons by (rule lexer_next_word_yields [OF ws c])
  next
    case digit
    then show ?thesis unfolding Cons by (rule lexer_next_digit_yields [OF ws])
  next
    case unknown
    then show ?thesis
      using yields_unknown [OF ws c unknown, of pre cs] lexer_next_unknown [OF c unknown, of "pre @ ws" cs] Cons
      by auto
  qed
qed

lemma lexer_next_yields:
  "\<exists>item pre' rest'. lexer_next (lexer_at pre rest) = Ok (item, lexer_at pre' rest') \<and>
    yields pre rest item pre' rest'"
proof -
  let ?ws = "takeWhile is_whitespace rest" and ?body = "dropWhile is_whitespace rest"
  have "list_all is_whitespace ?ws" by (auto simp: list_all_iff dest: set_takeWhileD)
  moreover have "?body = [] \<or> \<not> is_whitespace (hd ?body)" using hd_dropWhile by blast
  ultimately show ?thesis
    using lexer_next_from_body [of ?ws ?body pre] lexer_next_body [of pre rest] by simp
qed

inductive_simps yields_None: "yields pre rest None pre' rest'"

lemma spells_nonempty: "spells kind text \<Longrightarrow> text \<noteq> []"
  by (cases kind) (auto simp: code_points_def)

lemma yields_advances:
  assumes "yields pre rest (Some item) pre' rest'"
  shows "pre' @ rest' = pre @ rest \<and> length rest' < length rest"
  using assms by (cases rule: yields.cases) (auto dest: spells_nonempty)

text \<open>
  C34: every call of the iterator is total and exact.  From a character boundary it never panics and
  ends on a character boundary; it skips white space and then yields a token whose span is the text
  that spells it, cut where the next character cannot continue it, or the character that starts no
  token, or the digit with which a literal leaves 64 bits; it yields nothing only when white space
  is all that remains.
\<close>

theorem lexer_next_exact:
  "\<exists>item pre' rest'. lexer_next \<lparr>lx_source = pre @ rest, lx_offset = text_length pre\<rparr> =
      Ok (item, \<lparr>lx_source = pre' @ rest', lx_offset = text_length pre'\<rparr>) \<and>
    yields pre rest item pre' rest'"
  using lexer_next_yields [of pre rest] unfolding lexer_at_def .

section \<open>The whole stream\<close>

text \<open>Collecting the iterator, at most \<open>fuel\<close> items of it.\<close>

fun lexer_collect :: "nat \<Rightarrow> lexer \<Rightarrow> (lex_error + token) list option" where
  "lexer_collect 0 lx = None"
| "lexer_collect (Suc fuel) lx =
     (case lexer_next lx of
        Ok (None, lx') \<Rightarrow> Some []
      | Ok (Some item, lx') \<Rightarrow> map_option (Cons item) (lexer_collect fuel lx')
      | _ \<Rightarrow> None)"

lemma lexer_collect_ends:
  "length rest < fuel \<Longrightarrow> \<exists>items. lexer_collect fuel (lexer_at pre rest) = Some items \<and>
     length items \<le> length rest"
proof (induction fuel arbitrary: pre rest)
  case (Suc fuel)
  obtain item pre' rest' where step: "lexer_next (lexer_at pre rest) = Ok (item, lexer_at pre' rest')"
    and y: "yields pre rest item pre' rest'"
    using lexer_next_yields by blast
  show ?case
  proof (cases item)
    case (Some i)
    have less: "length rest' < length rest" using yields_advances y Some by blast
    then obtain items where "lexer_collect fuel (lexer_at pre' rest') = Some items"
      "length items \<le> length rest'"
      using Suc.IH [of rest' pre'] Suc.prems by auto
    then show ?thesis using step Some less by auto
  qed (simp add: step)
qed simp

text \<open>
  The token stream of every source ends.  With one more call than the source has characters the
  iterator has yielded everything, at most one item for each character, without a panic.
\<close>

lemma lexer_stream_ends:
  "\<exists>items. lexer_collect (Suc (length source)) (lexer_new source) = Some items \<and>
     length items \<le> length source"
  using lexer_collect_ends [of source "Suc (length source)" "[]"] by (simp add: lexer_new_def lexer_at_def)

end
