(* ===== verification/Fuzz_Targets.thy ===== *)
theory Fuzz_Targets
  imports Boot_Contract Boot_Elf
begin

text \<open>
  The fuzz targets (\<^verbatim>\<open>fuzz/fuzz_targets\<close>) as functions of the fuzzer's bytes: a failed assertion or
  \<^verbatim>\<open>expect\<close> is \<open>Panic\<close>.  No input makes one fail.
\<close>

unbundle bit_operations_syntax

section \<open>The targets\<close>

definition rust_assert :: "bool \<Rightarrow> (unit, unit) outcome" where
  "rust_assert c = (if c then Ok () else Panic)"

definition fuzz_boot_contract :: "u8 list \<Rightarrow> (unit, unit) outcome" where
  "fuzz_boot_contract bytes =
     (case contract_parse bytes of
        Panic \<Rightarrow> Panic
      | Err _ \<Rightarrow> Ok ()
      | Ok validated \<Rightarrow>
          (case contract_encode (validated_as_ref validated) (replicate BOOT_INFO_SIZE 0) of
             Ok (length_written, encoded) \<Rightarrow>
               and_then (rust_assert (length_written = BOOT_INFO_SIZE)) (\<lambda>_.
               and_then (rust_assert (encoded = bytes)) (\<lambda>_.
               rust_assert (case contract_parse encoded of Ok _ \<Rightarrow> True | _ \<Rightarrow> False)))
           | _ \<Rightarrow> Panic))"

definition segment_in_window :: "load_segment \<Rightarrow> bool" where
  "segment_in_window s \<longleftrightarrow>
     seg_physical_address s = seg_virtual_address s \<and> seg_physical_address s \<ge> MIN_LOAD_ADDRESS \<and>
     (case checked_add (seg_physical_address s) (seg_memory_size s) of
        None \<Rightarrow> False | Some stop \<Rightarrow> stop \<le> MAX_LOAD_ADDRESS_EXCLUSIVE) \<and>
     seg_memory_size s > 0 \<and> seg_file_size s \<le> seg_memory_size s \<and> is_readable (seg_flags s) \<and>
     \<not> (is_writable (seg_flags s) \<and> is_executable (seg_flags s))"

fun pages_in_order :: "load_segment list \<Rightarrow> bool" where
  "pages_in_order (a # b # rest) \<longleftrightarrow>
     (case map_option (\<lambda>stop. stop AND NOT (ELF_PAGE_SIZE - 1))
         (Option.bind (checked_add (seg_physical_address a) (seg_memory_size a))
           (\<lambda>stop. checked_add stop (ELF_PAGE_SIZE - 1))) of
        None \<Rightarrow> False | Some page_end \<Rightarrow> page_end \<le> seg_physical_address b) \<and>
     pages_in_order (b # rest)"
| "pages_in_order _ \<longleftrightarrow> True"

fun total_memory :: "u64 \<Rightarrow> load_segment list \<Rightarrow> u64 option" where
  "total_memory acc [] = Some acc"
| "total_memory acc (s # rest) =
     Option.bind (checked_add acc (seg_memory_size s)) (\<lambda>acc. total_memory acc rest)"

fun any_holds_entry :: "u64 \<Rightarrow> load_segment list \<Rightarrow> (unit, bool) outcome" where
  "any_holds_entry entry [] = Ok False"
| "any_holds_entry entry (s # rest) =
     (if is_executable (seg_flags s) \<and> entry \<ge> seg_virtual_address s
      then and_then (or_panic (checked_add (seg_virtual_address s) (seg_memory_size s))) (\<lambda>stop.
        if entry < stop then Ok True else any_holds_entry entry rest)
      else any_holds_entry entry rest)"

definition fuzz_kernel_elf :: "u8 list \<Rightarrow> (unit, unit) outcome" where
  "fuzz_kernel_elf bytes =
     (case elf_parse bytes of
        Panic \<Rightarrow> Panic
      | Err _ \<Rightarrow> Ok ()
      | Ok elf \<Rightarrow>
          and_then (collect_segments (segments elf)) (\<lambda>segs.
          and_then (rust_assert (segs \<noteq> [])) (\<lambda>_.
          and_then (rust_assert (length segs = unat (elf_load_segment_count elf))) (\<lambda>_.
          and_then (rust_assert (length segs \<le> unat MAX_LOAD_SEGMENTS)) (\<lambda>_.
          and_then (rust_assert (list_all segment_in_window segs)) (\<lambda>_.
          and_then (rust_assert (pages_in_order segs)) (\<lambda>_.
          and_then (or_panic (total_memory 0 segs)) (\<lambda>total_memory_size.
          and_then (rust_assert (total_memory_size \<le> MAX_TOTAL_LOAD_SIZE)) (\<lambda>_.
          and_then (any_holds_entry (elf_entry_point elf) segs) rust_assert)))))))))"

section \<open>No assertion fails\<close>

lemma fuzz_boot_contract_passes: "fuzz_boot_contract bytes = Ok ()"
proof (cases "contract_parse bytes")
  case Panic
  then show ?thesis using contract_parse_not_Panic by simp
next
  case (Ok v)
  have v: "valid_contract (validated_as_ref v)" "bytes = wire_boot_info (validated_as_ref v)"
    using Ok by (simp_all only: contract_parse_Ok_iff)
  then have t: "boot_info_typed (validated_as_ref v)" by (simp add: valid_contract_def)
  have "validate_ref (validated_as_ref v) = Ok ()" using v(1) validate_ref_Ok_iff [OF t] by simp
  then have "contract_encode (validated_as_ref v) (replicate BOOT_INFO_SIZE 0) = Ok (BOOT_INFO_SIZE, bytes)"
    using v(2) by (simp add: contract_encode_eq [OF t])
  then show ?thesis using Ok by (simp add: fuzz_boot_contract_def rust_assert_def)
qed (simp add: fuzz_boot_contract_def)

lemma segment_of_in_window:
  assumes "segment_ok n h"
  shows "segment_in_window (segment_of bytes (i, h))"
proof -
  have stop: "unat (ph_physical_address h) + unat (ph_memory_size h) \<le> 0x40000000"
    using assms by (simp add: segment_ok_def segment_end_def)
  then show ?thesis
    using assms
    by (auto simp: segment_in_window_def segment_of_def segment_ok_def checked_add_def elf_consts
        word_le_nat_alt word_less_nat_alt unat_add_no_overflow is_readable_def is_writable_def
        is_executable_def)
qed

lemma page_end_of:
  assumes "segment_ok n h"
  shows "\<exists>w. map_option (\<lambda>stop. stop AND NOT (ELF_PAGE_SIZE - 1))
      (Option.bind (checked_add (ph_physical_address h) (ph_memory_size h))
        (\<lambda>stop. checked_add stop (ELF_PAGE_SIZE - 1))) = Some w \<and> unat w = page_up (segment_end h)"
proof -
  have stop: "segment_end h \<le> 0x40000000" using assms by (simp add: segment_ok_def)
  then have u: "unat (ph_physical_address h + ph_memory_size h) = segment_end h"
    by (simp add: segment_end_def unat_add_no_overflow)
  have page: "ELF_PAGE_SIZE - 1 = 4095" by (simp add: ELF_PAGE_SIZE_def)
  have "(mask 12 :: u64) = 4095" by (simp add: mask_eq_exp_minus_1)
  then have cut: "unat (x AND (- 4096 :: u64)) = unat x div 4096 * 4096" for x
    using unat_and_not_mask [of x 12] by simp
  have "unat (ph_physical_address h + ph_memory_size h + 4095) = segment_end h + 4095"
    using stop u by (simp add: unat_add_no_overflow)
  then show ?thesis
    using stop u by (simp add: page checked_add_def segment_end_def cut page_up_def)
qed

lemma pages_in_order_segments:
  assumes "list_all (\<lambda>(i, h). segment_ok n h) ps" and "sorted_wrt segment_before (map snd ps)"
  shows "pages_in_order (map (segment_of bytes) ps)"
  using assms
proof (induction ps rule: induct_list012)
  case (3 p q rest)
  obtain i h j k where p: "p = (i, h)" "q = (j, k)" by (cases p, cases q) auto
  from page_end_of [of n h] 3(3) show ?case
    using 3 by (auto simp: p segment_of_def segment_before_def word_le_nat_alt)
qed simp_all

lemma total_memory_segments:
  "unat acc + sum_list (map (\<lambda>p. unat (ph_memory_size (snd p))) ps) \<le> 64 * 1024 * 1024 \<Longrightarrow>
    \<exists>w. total_memory acc (map (segment_of bytes) ps) = Some w \<and>
      unat w = unat acc + sum_list (map (\<lambda>p. unat (ph_memory_size (snd p))) ps)"
proof (induction ps arbitrary: acc)
  case (Cons p ps)
  obtain i h where p: "p = (i, h)" by (cases p)
  have "unat (acc + ph_memory_size h) = unat acc + unat (ph_memory_size h)"
    using Cons.prems by (simp add: p unat_add_no_overflow)
  then show ?case
    using Cons.IH [of "acc + ph_memory_size h"] Cons.prems
    by (simp add: p segment_of_def checked_add_def add.assoc)
qed simp

lemma any_holds_entry_segments:
  assumes "list_all (\<lambda>(i, h). segment_ok n h) ps" and "list_ex (segment_has entry) (map snd ps)"
  shows "any_holds_entry entry (map (segment_of bytes) ps) = Ok True"
  using assms
proof (induction ps)
  case (Cons p ps)
  obtain i h where p: "p = (i, h)" by (cases p)
  have ok: "segment_ok n h" using Cons.prems(1) by (simp add: p)
  then have "unat (ph_virtual_address h) + unat (ph_memory_size h) \<le> 0x40000000"
    by (simp add: segment_ok_def segment_end_def)
  then have stop: "checked_add (ph_virtual_address h) (ph_memory_size h) =
      Some (ph_virtual_address h + ph_memory_size h)"
    "unat (ph_virtual_address h + ph_memory_size h) = unat (ph_virtual_address h) + unat (ph_memory_size h)"
    by (simp_all add: checked_add_def unat_add_no_overflow)
  have exec: "is_executable (SegmentFlags (ph_flags h)) \<longleftrightarrow> ph_flags h = 5"
    using ok by (auto simp: segment_ok_def is_executable_def elf_consts)
  show ?case
    using Cons by (auto simp: p segment_of_def stop exec segment_has_def word_le_nat_alt word_less_nat_alt)
qed simp

lemma fuzz_kernel_elf_passes: "fuzz_kernel_elf bytes = Ok ()"
proof (cases "elf_parse bytes")
  case Panic
  then show ?thesis using elf_parse_not_Panic by simp
next
  case (Ok v)
  let ?ps = "indexed_loads bytes 0"
  have ok: "elf_image_ok bytes" and v: "v = elf_view bytes"
    using Ok by (simp_all add: elf_parse_Ok_iff)
  have segs: "collect_segments (segments v) = Ok (map (segment_of bytes) ?ps)"
    using collect_segments_eq [OF ok] by (simp add: v)
  have all: "list_all (\<lambda>(i, h). segment_ok (length bytes) h) ?ps"
    using indexed_loads_ok(2) [OF ok] by (auto simp: list_all_iff)
  have len: "length ?ps = length (elf_loads bytes)" "1 \<le> length ?ps" "length ?ps \<le> 4"
    using ok indexed_loads_ok(1) [OF ok] by (simp_all add: elf_image_ok_def)
  then have count: "length ?ps = unat (elf_load_segment_count v)" "?ps \<noteq> []"
    by (auto simp: v elf_view_def unat_of_nat)
  have window: "list_all segment_in_window (map (segment_of bytes) ?ps)"
    using all segment_of_in_window by (fastforce simp: list_all_iff)
  have order: "pages_in_order (map (segment_of bytes) ?ps)"
    using all ok by (intro pages_in_order_segments) (auto simp: elf_image_ok_def map_snd_indexed_loads)
  have "sum_list (map (\<lambda>p. unat (ph_memory_size (snd p))) ?ps) \<le> 64 * 1024 * 1024"
    using ok by (simp add: elf_image_ok_def comp_def flip: map_snd_indexed_loads)
  with total_memory_segments [of 0 ?ps bytes] obtain w where
    w: "total_memory 0 (map (segment_of bytes) ?ps) = Some w" "unat w \<le> 64 * 1024 * 1024"
    by auto
  have entry: "any_holds_entry (elf_entry_point v) (map (segment_of bytes) ?ps) = Ok True"
    using all ok
    by (intro any_holds_entry_segments) (auto simp: elf_image_ok_def map_snd_indexed_loads v elf_view_def)
  show ?thesis
    using Ok segs count len(3) window order w entry
    by (simp add: fuzz_kernel_elf_def rust_assert_def elf_consts word_le_nat_alt)
qed (simp add: fuzz_kernel_elf_def)

text \<open>
  C33: neither fuzz target can fail.  On every input the boot-contract target finds that an accepted
  contract re-encodes to the same bytes and parses again, and the kernel target finds that the
  segments of an accepted image satisfy all its assertions and that none of its checked additions
  overflows.
\<close>

theorem fuzz_targets_pass: "fuzz_boot_contract bytes = Ok () \<and> fuzz_kernel_elf bytes = Ok ()"
  by (simp add: fuzz_boot_contract_passes fuzz_kernel_elf_passes)

end
