(* ===== verification/Image_Layout.thy ===== *)
theory Image_Layout
  imports Boot_Elf Boot_Scenario
begin

text \<open>
  The raw layout checks of \<^verbatim>\<open>crates/xtask/src/image.rs\<close>: sectors and little-endian fields, the
  protective MBR and GPT headers, the FAT32 boot sector and allocation table, and the PE header of
  the loader.  An \<^verbatim>\<open>anyhow\<close> error is its static message.
\<close>

unbundle bit_operations_syntax

type_synonym message = string

section \<open>Constants\<close>

definition DISK_BYTES :: usize where "DISK_BYTES = 64 * 1024 * 1024"
definition LOGICAL_BLOCK_BYTES :: usize where "LOGICAL_BLOCK_BYTES = 512"
definition ESP_FIRST_LBA :: u64 where "ESP_FIRST_LBA = 2048"
definition ESP_LAST_LBA :: u64 where "ESP_LAST_LBA = 129023"
definition GPT_ENTRY_COUNT :: usize where "GPT_ENTRY_COUNT = 128"
definition GPT_ENTRY_BYTES :: usize where "GPT_ENTRY_BYTES = 128"
definition GPT_ENTRY_ARRAY_SECTORS :: u64 where "GPT_ENTRY_ARRAY_SECTORS = 32"
definition BACKUP_GPT_ENTRIES_LBA :: u64 where "BACKUP_GPT_ENTRIES_LBA = 131039"
definition BACKUP_GPT_HEADER_LBA :: u64 where "BACKUP_GPT_HEADER_LBA = 131071"

named_theorems image_consts

lemmas [image_consts] = DISK_BYTES_def LOGICAL_BLOCK_BYTES_def ESP_FIRST_LBA_def ESP_LAST_LBA_def
  GPT_ENTRY_COUNT_def GPT_ENTRY_BYTES_def GPT_ENTRY_ARRAY_SECTORS_def BACKUP_GPT_ENTRIES_LBA_def
  BACKUP_GPT_HEADER_LBA_def

section \<open>Sectors and fields\<close>

definition img_read_u16 :: "u8 list \<Rightarrow> usize \<Rightarrow> u16 option" where
  "img_read_u16 bytes offset =
     (case usize_checked_add offset 2 of
        None \<Rightarrow> None
      | Some stop \<Rightarrow> map_option from_le_bytes (slice_get bytes offset stop))"
definition img_read_u32 :: "u8 list \<Rightarrow> usize \<Rightarrow> u32 option" where
  "img_read_u32 bytes offset =
     (case usize_checked_add offset 4 of
        None \<Rightarrow> None
      | Some stop \<Rightarrow> map_option from_le_bytes (slice_get bytes offset stop))"
definition img_read_u64 :: "u8 list \<Rightarrow> usize \<Rightarrow> u64 option" where
  "img_read_u64 bytes offset =
     (case usize_checked_add offset 8 of
        None \<Rightarrow> None
      | Some stop \<Rightarrow> map_option from_le_bytes (slice_get bytes offset stop))"

definition lba_to_offset :: "u64 \<Rightarrow> (message, usize) outcome" where
  "lba_to_offset lba =
     and_then (ok_or (checked_mul lba (of_nat LOGICAL_BLOCK_BYTES)) ''LBA byte offset overflowed u64'')
       (\<lambda>bytes. ok_or (usize_try_from_u64 bytes) ''LBA byte offset does not fit usize'')"

definition lba_range :: "u8 list \<Rightarrow> u64 \<Rightarrow> u64 \<Rightarrow> (message, u8 list) outcome" where
  "lba_range bytes start_lba end_lba =
     and_then (ensure (start_lba \<le> end_lba) ''invalid descending LBA range'') (\<lambda>_.
     and_then (lba_to_offset start_lba) (\<lambda>start.
     and_then (lba_to_offset end_lba) (\<lambda>stop.
     ok_or (slice_get bytes start stop) ''LBA range is outside the artifact'')))"

definition sector :: "u8 list \<Rightarrow> u64 \<Rightarrow> (message, u8 list) outcome" where
  "sector bytes lba =
     and_then (ok_or (checked_add lba 1) ''sector LBA overflowed'') (\<lambda>following.
     lba_range bytes lba following)"

definition ensure_zero :: "u8 list \<Rightarrow> message \<Rightarrow> (message, unit) outcome" where
  "ensure_zero bytes description = ensure (list_all (\<lambda>b. b = 0) bytes) description"

section \<open>GPT\<close>

definition PROTECTIVE_ENTRY :: "u8 list" where
  "PROTECTIVE_ENTRY =
     [0x00, 0x00, 0x02, 0x00, 0xee, 0xff, 0xff, 0xff, 0x01, 0x00, 0x00, 0x00, 0xff, 0xff, 0x01, 0x00]"

definition validate_raw_gpt_header ::
    "u8 list \<Rightarrow> u64 \<Rightarrow> u64 \<Rightarrow> u64 \<Rightarrow> (message, unit) outcome" where
  "validate_raw_gpt_header header current_lba backup_lba entries_lba =
     and_then (slice_at header 0 8) (\<lambda>signature.
     and_then (ensure (signature = bytes_of ''EFI PART'') ''GPT header signature is invalid'') (\<lambda>_.
     and_then (ensure (img_read_u32 header 8 = Some 0x00010000) ''unsupported GPT revision'') (\<lambda>_.
     and_then (ensure (img_read_u32 header 12 = Some 92) ''GPT header size is not 92 bytes'') (\<lambda>_.
     and_then (ensure (img_read_u32 header 20 = Some 0) ''GPT reserved header field is nonzero'') (\<lambda>_.
     and_then (ensure (img_read_u64 header 24 = Some current_lba) ''GPT current-LBA mismatch'') (\<lambda>_.
     and_then (ensure (img_read_u64 header 32 = Some backup_lba) ''GPT backup-LBA mismatch'') (\<lambda>_.
     and_then (ensure (img_read_u64 header 40 = Some 34) ''GPT first-usable LBA mismatch'') (\<lambda>_.
     and_then (ensure (img_read_u64 header 48 = Some (BACKUP_GPT_ENTRIES_LBA - 1))
         ''GPT last-usable LBA mismatch'') (\<lambda>_.
     and_then (ensure (img_read_u64 header 72 = Some entries_lba) ''GPT entry-array LBA mismatch'') (\<lambda>_.
     and_then (ensure (img_read_u32 header 80 = Some (of_nat GPT_ENTRY_COUNT) \<and>
           img_read_u32 header 84 = Some (of_nat GPT_ENTRY_BYTES))
         ''GPT entry count or size is not canonical'') (\<lambda>_.
     and_then (slice_at header 92 (length header)) (\<lambda>padding.
     ensure_zero padding ''GPT header sector padding''))))))))))))"

definition validate_raw_gpt_layout :: "u8 list \<Rightarrow> (message, unit) outcome" where
  "validate_raw_gpt_layout disk =
     and_then (slice_at disk 0 446) (\<lambda>bootstrap.
     and_then (ensure_zero bootstrap ''protective MBR bootstrap area'') (\<lambda>_.
     and_then (ensure (slice_get disk 446 462 = Some PROTECTIVE_ENTRY)
         ''protective MBR entry is not canonical'') (\<lambda>_.
     and_then (slice_at disk 462 510) (\<lambda>unused.
     and_then (ensure_zero unused ''unused protective MBR entries'') (\<lambda>_.
     and_then (slice_at disk 510 512) (\<lambda>signature.
     and_then (ensure (signature = [0x55, 0xaa]) ''protective MBR signature is invalid'') (\<lambda>_.
     and_then (sector disk 1) (\<lambda>primary_header.
     and_then (sector disk BACKUP_GPT_HEADER_LBA) (\<lambda>backup_header.
     and_then (validate_raw_gpt_header primary_header 1 BACKUP_GPT_HEADER_LBA 2) (\<lambda>_.
     and_then (validate_raw_gpt_header backup_header BACKUP_GPT_HEADER_LBA 1 BACKUP_GPT_ENTRIES_LBA) (\<lambda>_.
     and_then (slice_at primary_header 56 72) (\<lambda>primary_guid.
     and_then (slice_at backup_header 56 72) (\<lambda>backup_guid.
     and_then (slice_at primary_header 88 92) (\<lambda>primary_crc.
     and_then (slice_at backup_header 88 92) (\<lambda>backup_crc.
     and_then (ensure (primary_guid = backup_guid \<and> primary_crc = backup_crc)
         ''primary and backup GPT identity or entry-array CRC differs'') (\<lambda>_.
     and_then (lba_range disk 2 (2 + GPT_ENTRY_ARRAY_SECTORS)) (\<lambda>primary_entries.
     and_then (lba_range disk BACKUP_GPT_ENTRIES_LBA (BACKUP_GPT_ENTRIES_LBA + GPT_ENTRY_ARRAY_SECTORS))
       (\<lambda>backup_entries.
     and_then (ensure (primary_entries = backup_entries)
         ''primary and backup GPT entry arrays differ'') (\<lambda>_.
     and_then (slice_at primary_entries 0 GPT_ENTRY_BYTES) (\<lambda>first_entry.
     and_then (ensure (list_ex (\<lambda>b. b \<noteq> 0) first_entry) ''GPT partition entry 1 is empty'') (\<lambda>_.
     and_then (slice_at primary_entries GPT_ENTRY_BYTES (GPT_ENTRY_COUNT * GPT_ENTRY_BYTES)) (\<lambda>unused.
     and_then (ensure_zero unused ''unused GPT partition entries'') (\<lambda>_.
     and_then (lba_range disk 34 ESP_FIRST_LBA) (\<lambda>before.
     and_then (ensure_zero before ''pre-ESP alignment sectors'') (\<lambda>_.
     and_then (lba_range disk (ESP_LAST_LBA + 1) BACKUP_GPT_ENTRIES_LBA) (\<lambda>after.
     ensure_zero after ''post-ESP alignment sectors''))))))))))))))))))))))))))"

section \<open>FAT32\<close>

fun all_chunks4 :: "(u8 list \<Rightarrow> bool) \<Rightarrow> u8 list \<Rightarrow> bool" where
  "all_chunks4 P (a # b # c # d # rest) \<longleftrightarrow> P [a, b, c, d] \<and> all_chunks4 P rest"
| "all_chunks4 P _ \<longleftrightarrow> True"

text \<open>The loop over the clusters of a range; the state is \<^verbatim>\<open>first_free\<close>.\<close>

fun fat_entries_loop ::
    "u8 list \<Rightarrow> usize \<Rightarrow> usize list \<Rightarrow> usize option \<Rightarrow> (message, usize option) outcome" where
  "fat_entries_loop fat entry_count [] first_free = Ok first_free"
| "fat_entries_loop fat entry_count (cluster # clusters) first_free =
     and_then (ok_or (img_read_u32 fat (cluster * 4)) ''FAT cluster entry is truncated'') (\<lambda>raw.
     let v = raw AND 0x0fffffff in
     if v = 0 then
       fat_entries_loop fat entry_count clusters
         (case first_free of None \<Rightarrow> Some cluster | Some c \<Rightarrow> Some c)
     else
       and_then (ensure (first_free = None)
           ''FAT allocated clusters are not one canonical prefix'') (\<lambda>_.
       and_then (ensure ((2 \<le> unat v \<and> unat v < entry_count) \<or> 0x0ffffff8 \<le> v)
           ''FAT cluster has an invalid successor'') (\<lambda>_.
       fat_entries_loop fat entry_count clusters first_free)))"

definition validate_canonical_fat_entries ::
    "u8 list \<Rightarrow> u32 \<Rightarrow> u64 \<Rightarrow> u8 list \<Rightarrow> (message, unit) outcome" where
  "validate_canonical_fat_entries fat total_sectors data_lba fs_info =
     and_then (ok_or (checked_sub (ucast total_sectors) data_lba)
         ''FAT32 data-cluster count underflowed'') (\<lambda>total_clusters.
     and_then (add_or_panic total_clusters 2) (\<lambda>entries.
     and_then (ok_or (usize_try_from_u64 entries) ''FAT entry count is too large'') (\<lambda>entry_count.
     and_then (ensure (case usize_checked_mul entry_count 4 of None \<Rightarrow> False
           | Some bytes \<Rightarrow> bytes \<le> length fat)
         ''FAT is too short for the declared data clusters'') (\<lambda>_.
     and_then (ensure
           ((case img_read_u32 fat 0 of None \<Rightarrow> False | Some v \<Rightarrow> v AND 0xff = 0xf8) \<and>
            (case img_read_u32 fat 4 of None \<Rightarrow> False
             | Some v \<Rightarrow> 0x0ffffff8 \<le> v AND 0x0fffffff))
         ''FAT reserved entries are invalid'') (\<lambda>_.
     and_then (fat_entries_loop fat entry_count [2..<entry_count] None) (\<lambda>first_free.
     and_then (slice_at fat (entry_count * 4) (length fat)) (\<lambda>rest.
     and_then (ensure (all_chunks4 (\<lambda>entry. entry = [0xff, 0xff, 0xff, 0x0f]) rest)
         ''out-of-range FAT entries are not canonical end-of-chain sentinels'') (\<lambda>_.
     and_then (ok_or first_free ''FAT contains no free cluster'') (\<lambda>free.
     and_then (ok_or (u32_try_from_usize free) ''first free cluster does not fit u32'')
       (\<lambda>expected_next.
     ensure (img_read_u32 fs_info 492 = Some expected_next)
       ''FSInfo next-free hint does not identify the canonical first free cluster''))))))))))"

definition validate_raw_fat32_layout :: "u8 list \<Rightarrow> (message, unit) outcome" where
  "validate_raw_fat32_layout part =
     and_then (sector part 0) (\<lambda>boot.
     and_then (slice_at boot 3 11) (\<lambda>oem.
     and_then (ensure (oem = bytes_of ''MSWIN4.1'') ''unexpected FAT OEM identity'') (\<lambda>_.
     and_then (ensure (img_read_u16 boot 11 = Some 512) ''FAT sector size is not 512 bytes'') (\<lambda>_.
     and_then (index_at boot 13) (\<lambda>b13.
     and_then (ensure (b13 = 1) ''FAT cluster size is not one sector'') (\<lambda>_.
     and_then (ensure (img_read_u16 boot 14 = Some 8) ''FAT reserved-sector count is not 8'') (\<lambda>_.
     and_then (index_at boot 16) (\<lambda>b16.
     and_then (ensure (b16 = 2) ''FAT does not contain two mirrors'') (\<lambda>_.
     and_then (ensure (img_read_u16 boot 17 = Some 0) ''FAT32 root-entry field is nonzero'') (\<lambda>_.
     and_then (ensure (img_read_u16 boot 19 = Some 0) ''FAT32 16-bit sector count is nonzero'') (\<lambda>_.
     and_then (index_at boot 21) (\<lambda>b21.
     and_then (ensure (b21 = 0xf8) ''FAT media descriptor is not fixed-disk'') (\<lambda>_.
     and_then (ensure (img_read_u16 boot 22 = Some 0) ''FAT32 16-bit FAT size is nonzero'') (\<lambda>_.
     and_then (ok_or (u32_try_from_usize (length part div LOGICAL_BLOCK_BYTES))
         ''ESP sector count does not fit u32'') (\<lambda>expected_sectors.
     and_then (ensure (img_read_u32 boot 32 = Some expected_sectors)
         ''FAT32 total-sector count is inconsistent'') (\<lambda>_.
     and_then (ok_or (img_read_u32 boot 36) ''FAT32 FAT-sector count is truncated'') (\<lambda>fat_sectors.
     and_then (ensure (fat_sectors > 0) ''FAT32 FAT-sector count is zero'') (\<lambda>_.
     and_then (ensure (img_read_u16 boot 40 = Some 0) ''FAT mirroring flags are not canonical'') (\<lambda>_.
     and_then (ensure (img_read_u16 boot 42 = Some 0) ''FAT32 version is unsupported'') (\<lambda>_.
     and_then (ensure (img_read_u32 boot 44 = Some 2) ''FAT32 root cluster is not 2'') (\<lambda>_.
     and_then (ensure (img_read_u16 boot 48 = Some 1) ''FAT32 FSInfo sector is not 1'') (\<lambda>_.
     and_then (ensure (img_read_u16 boot 50 = Some 6) ''FAT32 backup boot sector is not 6'') (\<lambda>_.
     and_then (slice_at boot 510 (length boot)) (\<lambda>signature.
     and_then (ensure (signature = [0x55, 0xaa]) ''FAT boot signature is invalid'') (\<lambda>_.
     and_then (sector part 6) (\<lambda>backup_boot.
     and_then (ensure (boot = backup_boot) ''FAT backup boot sector differs'') (\<lambda>_.
     and_then (lba_range part 2 6) (\<lambda>reserved.
     and_then (ensure_zero reserved ''unused FAT reserved sectors'') (\<lambda>_.
     and_then (sector part 7) (\<lambda>adjacent.
     and_then (ensure_zero adjacent ''unused FAT backup-adjacent sector'') (\<lambda>_.
     and_then (sector part 1) (\<lambda>fs_info.
     and_then (ensure (img_read_u32 fs_info 0 = Some 0x41615252) ''FSInfo lead signature is invalid'') (\<lambda>_.
     and_then (ensure (img_read_u32 fs_info 484 = Some 0x61417272)
         ''FSInfo structure signature is invalid'') (\<lambda>_.
     and_then (ensure (img_read_u32 fs_info 488 = Some (- 1)) ''FSInfo free count is not canonical'') (\<lambda>_.
     and_then (slice_at fs_info 508 512) (\<lambda>trail.
     and_then (ensure (trail = [0x00, 0x00, 0x55, 0xaa]) ''FSInfo trail signature is invalid'') (\<lambda>_.
     let first_fat_lba = 8 :: u64 in
     and_then (add_or_panic first_fat_lba (ucast fat_sectors)) (\<lambda>second_fat_lba.
     and_then (add_or_panic second_fat_lba (ucast fat_sectors)) (\<lambda>data_lba.
     and_then (ensure (data_lba < ucast expected_sectors)
         ''FAT32 data region lies outside the ESP'') (\<lambda>_.
     and_then (lba_range part first_fat_lba second_fat_lba) (\<lambda>first_fat.
     and_then (lba_range part second_fat_lba data_lba) (\<lambda>second_fat.
     and_then (ensure (first_fat = second_fat) ''FAT mirror copies differ'') (\<lambda>_.
     validate_canonical_fat_entries first_fat expected_sectors data_lba fs_info)))))))))))))))))))))))))))))))))))))))))))"

section \<open>The loader executable\<close>

definition validate_uefi_loader :: "u8 list \<Rightarrow> (message, unit) outcome" where
  "validate_uefi_loader bytes =
     and_then (ensure (0x40 \<le> length bytes) ''UEFI loader is too small for a DOS header'') (\<lambda>_.
     and_then (slice_at bytes 0 2) (\<lambda>magic.
     and_then (ensure (magic = bytes_of ''MZ'') ''UEFI loader lacks the MZ signature'') (\<lambda>_.
     and_then (ok_or (img_read_u32 bytes 0x3c) ''UEFI loader lacks a PE header offset'') (\<lambda>raw_offset.
     let pe_offset = unat raw_offset in
     and_then (ok_or (usize_checked_add pe_offset 4) ''PE signature offset overflowed'') (\<lambda>signature_end.
     and_then (ensure (slice_get bytes pe_offset signature_end = Some (bytes_of ''PE'' @ [0, 0]))
         ''UEFI loader lacks the PE signature'') (\<lambda>_.
     and_then (usize_add pe_offset 4) (\<lambda>machine.
     and_then (ensure (img_read_u16 bytes machine = Some 0x8664) ''UEFI loader is not x86_64'') (\<lambda>_.
     and_then (ok_or (usize_checked_add pe_offset 24) ''PE optional-header offset overflowed'') (\<lambda>optional.
     and_then (ensure (img_read_u16 bytes optional = Some 0x20b) ''UEFI loader is not PE32+'') (\<lambda>_.
     and_then (usize_add optional 68) (\<lambda>subsystem.
     ensure (img_read_u16 bytes subsystem = Some 10) ''PE subsystem is not EFI_APPLICATION'')))))))))))"

definition validate_kernel_elf :: "u8 list \<Rightarrow> (message, unit) outcome" where
  "validate_kernel_elf bytes =
     and_then (map_err (\<lambda>_. ''kernel ELF rejected'') (elf_parse bytes)) (\<lambda>_. Ok ())"

section \<open>Fields and sectors in range\<close>

fun pieces :: "nat list \<Rightarrow> 'a list \<Rightarrow> 'a list list" where
  "pieces [] xs = [xs]"
| "pieces (n # ns) xs = take n xs # pieces ns (drop n xs)"

lemma concat_pieces: "concat (pieces ns xs) = xs"
  by (induction ns arbitrary: xs) auto

lemma img_read_iff:
  "offset + 2 < usize_limit \<Longrightarrow> img_read_u16 bytes offset = Some v2 \<longleftrightarrow>
     offset + 2 \<le> length bytes \<and> take 2 (drop offset bytes) = to_le_bytes v2"
  "offset + 4 < usize_limit \<Longrightarrow> img_read_u32 bytes offset = Some v4 \<longleftrightarrow>
     offset + 4 \<le> length bytes \<and> take 4 (drop offset bytes) = to_le_bytes v4"
  "offset + 8 < usize_limit \<Longrightarrow> img_read_u64 bytes offset = Some v8 \<longleftrightarrow>
     offset + 8 \<le> length bytes \<and> take 8 (drop offset bytes) = to_le_bytes v8"
  by (auto simp: img_read_u16_def img_read_u32_def img_read_u64_def usize_checked_add_def
      slice_get_Some_iff slice_get_def from_le_bytes_to_le_bytes to_le_bytes_from_le_bytes
      dest: arg_cong [of _ _ from_le_bytes] arg_cong [of _ _ to_le_bytes])

lemma lba_range_eq:
  assumes "unat a \<le> unat b" and "unat b * 512 < 2 ^ 64"
  shows "lba_range bytes a b = (if unat b * 512 \<le> length bytes
    then Ok (take ((unat b - unat a) * 512) (drop (unat a * 512) bytes))
    else Err ''LBA range is outside the artifact'')"
proof -
  have off: "lba_to_offset l = Ok (unat l * 512)" if "unat l * 512 < 2 ^ 64" for l
  proof -
    have "checked_mul l (of_nat LOGICAL_BLOCK_BYTES) = Some (l * 512)"
      using that by (simp add: checked_mul_def LOGICAL_BLOCK_BYTES_def)
    moreover have "unat (l * 512) = unat l * 512" using that by (simp add: unat_mult_lem [THEN iffD1])
    ultimately show ?thesis by (simp add: lba_to_offset_def usize_try_from_u64_total)
  qed
  have "unat a * 512 < 2 ^ 64" using assms by linarith
  then show ?thesis
    using assms off by (simp add: lba_range_def word_le_nat_alt slice_get_def diff_mult_distrib)
qed

lemma sector_eq:
  assumes "unat a * 512 + 512 < 2 ^ 64"
  shows "sector bytes a = (if unat a * 512 + 512 \<le> length bytes
    then Ok (take 512 (drop (unat a * 512) bytes)) else Err ''LBA range is outside the artifact'')"
proof -
  have "unat a + 1 < 2 ^ 64" using assms by linarith
  then have n: "unat (a + 1) = unat a + 1" by (simp add: unat_plus_if' )
  then have "checked_add a 1 = Some (a + 1)" using \<open>unat a + 1 < 2 ^ 64\<close> by (simp add: checked_add_def)
  then show ?thesis using lba_range_eq [of a "a + 1" bytes] assms by (simp add: sector_def n)
qed

section \<open>The canonical GPT disk\<close>

text \<open>The sector of a GPT header with the given checksums and identity.\<close>

definition gpt_header ::
    "u8 list \<Rightarrow> u64 \<Rightarrow> u64 \<Rightarrow> u8 list \<Rightarrow> u64 \<Rightarrow> u8 list \<Rightarrow> u8 list" where
  "gpt_header crc current_lba backup_lba guid entries_lba entries_crc =
     bytes_of ''EFI PART'' @ to_le_bytes (0x10000 :: u32) @ to_le_bytes (92 :: u32) @ crc @
     to_le_bytes (0 :: u32) @ to_le_bytes current_lba @ to_le_bytes backup_lba @
     to_le_bytes (34 :: u64) @ to_le_bytes (131038 :: u64) @ guid @ to_le_bytes entries_lba @
     to_le_bytes (128 :: u32) @ to_le_bytes (128 :: u32) @ entries_crc @ replicate 420 0"

lemma length_gpt_header:
  "length crc = 4 \<Longrightarrow> length guid = 16 \<Longrightarrow> length ecrc = 4 \<Longrightarrow>
    length (gpt_header crc a b guid e ecrc) = 512"
  by (simp add: gpt_header_def)

lemma ensure_zero_Ok_iff: "ensure_zero bytes d = Ok u \<longleftrightarrow> bytes = replicate (length bytes) 0"
  by (auto simp: ensure_zero_def outcome_simps list_all_iff replicate_eqI intro: replicate_eqI [symmetric]
      dest: arg_cong [of _ _ set])

lemma gpt_header_exact:
  assumes "length h = 512"
  shows "validate_raw_gpt_header h current backup entries = Ok () \<longleftrightarrow>
    h = gpt_header (take 4 (drop 16 h)) current backup (take 16 (drop 56 h)) entries (take 4 (drop 88 h))"
proof -
  let ?p = "[8, 4, 4, 4, 4, 8, 8, 8, 8, 16, 8, 4, 4, 4]"
  have h: "h = take 8 h @ take 4 (drop 8 h) @ take 4 (drop 12 h) @ take 4 (drop 16 h) @
      take 4 (drop 20 h) @ take 8 (drop 24 h) @ take 8 (drop 32 h) @ take 8 (drop 40 h) @
      take 8 (drop 48 h) @ take 16 (drop 56 h) @ take 8 (drop 72 h) @ take 4 (drop 80 h) @
      take 4 (drop 84 h) @ take 4 (drop 88 h) @ drop 92 h"
    using concat_pieces [of ?p h] by simp
  have "validate_raw_gpt_header h current backup entries = Ok () \<longleftrightarrow>
      take 8 h = bytes_of ''EFI PART'' \<and> take 4 (drop 8 h) = to_le_bytes (0x10000 :: u32) \<and>
      take 4 (drop 12 h) = to_le_bytes (92 :: u32) \<and> take 4 (drop 20 h) = to_le_bytes (0 :: u32) \<and>
      take 8 (drop 24 h) = to_le_bytes current \<and> take 8 (drop 32 h) = to_le_bytes backup \<and>
      take 8 (drop 40 h) = to_le_bytes (34 :: u64) \<and> take 8 (drop 48 h) = to_le_bytes (131038 :: u64) \<and>
      take 8 (drop 72 h) = to_le_bytes entries \<and> take 4 (drop 80 h) = to_le_bytes (128 :: u32) \<and>
      take 4 (drop 84 h) = to_le_bytes (128 :: u32) \<and> drop 92 h = replicate 420 0"
    using assms by (simp add: validate_raw_gpt_header_def outcome_simps slice_at_simp img_read_iff
        ensure_zero_Ok_iff image_consts)
  also have "\<dots> \<longleftrightarrow>
      h = gpt_header (take 4 (drop 16 h)) current backup (take 16 (drop 56 h)) entries (take 4 (drop 88 h))"
  proof
    define c g e where "c = take 4 (drop 16 h)" and "g = take 16 (drop 56 h)" and "e = take 4 (drop 88 h)"
    assume "h = gpt_header (take 4 (drop 16 h)) current backup (take 16 (drop 56 h)) entries
      (take 4 (drop 88 h))"
    then have g: "h = gpt_header c current backup g entries e" unfolding c_def g_def e_def .
    have l: "length c = 4" "length g = 16" "length e = 4"
      using assms by (simp_all add: c_def g_def e_def)
    show "take 8 h = bytes_of ''EFI PART'' \<and> take 4 (drop 8 h) = to_le_bytes (0x10000 :: u32) \<and>
      take 4 (drop 12 h) = to_le_bytes (92 :: u32) \<and> take 4 (drop 20 h) = to_le_bytes (0 :: u32) \<and>
      take 8 (drop 24 h) = to_le_bytes current \<and> take 8 (drop 32 h) = to_le_bytes backup \<and>
      take 8 (drop 40 h) = to_le_bytes (34 :: u64) \<and> take 8 (drop 48 h) = to_le_bytes (131038 :: u64) \<and>
      take 8 (drop 72 h) = to_le_bytes entries \<and> take 4 (drop 80 h) = to_le_bytes (128 :: u32) \<and>
      take 4 (drop 84 h) = to_le_bytes (128 :: u32) \<and> drop 92 h = replicate 420 0"
      unfolding g gpt_header_def by (simp add: l)
  qed (subst h, simp add: gpt_header_def)
  finally show ?thesis .
qed

definition protective_mbr :: "u8 list" where
  "protective_mbr = replicate 446 0 @ PROTECTIVE_ENTRY @ replicate 48 0 @ [0x55, 0xaa]"

text \<open>
  The disk with one partition entry and the given partition contents; what is left open are the
  four checksums, the disk identity, the entry and the partition.
\<close>

definition gpt_disk ::
    "u8 list \<Rightarrow> u8 list \<Rightarrow> u8 list \<Rightarrow> u8 list \<Rightarrow> u8 list \<Rightarrow> u8 list \<Rightarrow> u8 list" where
  "gpt_disk crc backup_crc guid entries_crc entry esp =
     protective_mbr @ gpt_header crc 1 131071 guid 2 entries_crc @
     (entry @ replicate 16256 0) @ replicate 1031168 0 @ esp @ replicate 1031680 0 @
     (entry @ replicate 16256 0) @ gpt_header backup_crc 131071 1 guid 131039 entries_crc"

lemma ex_nonzero_iff: "list_ex (\<lambda>b. b \<noteq> 0) xs \<longleftrightarrow> xs \<noteq> replicate (length xs) (0 :: u8)"
  unfolding all_eq_replicate [symmetric] list_ex_iff by blast

lemma gpt_conditions:
  assumes len: "length disk = 67108864"
  shows "validate_raw_gpt_layout disk = Ok () \<longleftrightarrow>
    take 446 disk = replicate 446 0 \<and> take 16 (drop 446 disk) = PROTECTIVE_ENTRY \<and>
    take 48 (drop 462 disk) = replicate 48 0 \<and> take 2 (drop 510 disk) = [0x55, 0xaa] \<and>
    validate_raw_gpt_header (take 512 (drop 512 disk)) 1 131071 2 = Ok () \<and>
    validate_raw_gpt_header (drop 67108352 disk) 131071 1 131039 = Ok () \<and>
    take 16 (drop 568 disk) = take 16 (drop 67108408 disk) \<and>
    take 4 (drop 600 disk) = take 4 (drop 67108440 disk) \<and>
    take 16384 (drop 1024 disk) = take 16384 (drop 67091968 disk) \<and>
    take 128 (drop 1024 disk) \<noteq> replicate 128 0 \<and>
    take 16256 (drop 1152 disk) = replicate 16256 0 \<and>
    take 1031168 (drop 17408 disk) = replicate 1031168 0 \<and>
    take 1031680 (drop 66060288 disk) = replicate 1031680 0"
  using len
  by (simp add: validate_raw_gpt_layout_def outcome_simps slice_at_simp slice_get_Some_iff sector_eq
      lba_range_eq image_consts ensure_zero_Ok_iff ex_nonzero_iff drop_take min_def
      eq_commute [of PROTECTIVE_ENTRY])


lemma pieces_of_disk:
  "disk = take 446 disk @ take 16 (drop 446 disk) @ take 48 (drop 462 disk) @ take 2 (drop 510 disk) @
     take 512 (drop 512 disk) @ take 128 (drop 1024 disk) @ take 16256 (drop 1152 disk) @
     take 1031168 (drop 17408 disk) @ take 65011712 (drop 1048576 disk) @
     take 1031680 (drop 66060288 disk) @ take 16384 (drop 67091968 disk) @ drop 67108352 disk"
  using concat_pieces [of "[446, 16, 48, 2, 512, 128, 16256, 1031168, 65011712, 1031680, 16384]" disk]
  by simp

lemma gpt_disk_slices:
  assumes "length crc = 4" "length backup_crc = 4" "length guid = 16" "length ecrc = 4"
    "length entry = 128" "length esp = 65011712"
  defines "disk \<equiv> gpt_disk crc backup_crc guid ecrc entry esp"
  shows "length disk = 67108864" "take 446 disk = replicate 446 0"
    "take 16 (drop 446 disk) = PROTECTIVE_ENTRY" "take 48 (drop 462 disk) = replicate 48 0"
    "take 2 (drop 510 disk) = [0x55, 0xaa]"
    "take 512 (drop 512 disk) = gpt_header crc 1 131071 guid 2 ecrc"
    "drop 67108352 disk = gpt_header backup_crc 131071 1 guid 131039 ecrc"
    "take 16384 (drop 1024 disk) = entry @ replicate 16256 0"
    "take 16384 (drop 67091968 disk) = entry @ replicate 16256 0"
    "take 1031168 (drop 17408 disk) = replicate 1031168 0"
    "take 65011712 (drop 1048576 disk) = esp"
    "take 1031680 (drop 66060288 disk) = replicate 1031680 0"
  unfolding disk_def gpt_disk_def
  by (simp_all add: assms(1-6) length_gpt_header protective_mbr_def PROTECTIVE_ENTRY_def)

lemma gpt_disk_accepted:
  assumes l: "length crc = 4" "length backup_crc = 4" "length guid = 16" "length ecrc = 4"
      "length entry = 128" "length esp = 65011712" and e: "entry \<noteq> replicate 128 0"
    and disk: "disk = gpt_disk crc backup_crc guid ecrc entry esp"
  shows "length disk = DISK_BYTES \<and> validate_raw_gpt_layout disk = Ok ()"
proof -
  note s = gpt_disk_slices [OF l, folded disk]
  have hdr: "validate_raw_gpt_header (gpt_header c a b guid t ecrc) a b t = Ok ()"
      "take 16 (drop 56 (gpt_header c a b guid t ecrc)) = guid"
      "take 4 (drop 88 (gpt_header c a b guid t ecrc)) = ecrc" if "length c = 4" for c a b t
    using gpt_header_exact [of "gpt_header c a b guid t ecrc" a b t] that l
    by (simp_all add: length_gpt_header) (simp_all add: gpt_header_def)
  have ids: "take 16 (drop 568 disk) = guid" "take 4 (drop 600 disk) = ecrc"
      "take 16 (drop 67108408 disk) = guid" "take 4 (drop 67108440 disk) = ecrc"
    using arg_cong [OF s(6), of "\<lambda>h. take 16 (drop 56 h)"] arg_cong [OF s(6), of "\<lambda>h. take 4 (drop 88 h)"]
      arg_cong [OF s(7), of "\<lambda>h. take 16 (drop 56 h)"] arg_cong [OF s(7), of "\<lambda>h. take 4 (drop 88 h)"]
    by (simp_all add: hdr l drop_take)
  have ent: "take 128 (drop 1024 disk) = entry" "take 16256 (drop 1152 disk) = replicate 16256 0"
    using arg_cong [OF s(8), of "take 128"] arg_cong [OF s(8), of "drop 128"] l
    by (simp_all add: drop_take)
  show ?thesis
    unfolding gpt_conditions [OF s(1)] s ids ent
    using e l hdr s(1) by (simp add: DISK_BYTES_def)
qed

lemma gpt_disk_decompose:
  assumes ok: "length disk = DISK_BYTES \<and> validate_raw_gpt_layout disk = Ok ()"
  shows "\<exists>crc backup_crc guid entries_crc entry esp.
       length crc = 4 \<and> length backup_crc = 4 \<and> length guid = 16 \<and> length entries_crc = 4 \<and>
       length entry = 128 \<and> entry \<noteq> replicate 128 0 \<and> length esp = 65011712 \<and>
       disk = gpt_disk crc backup_crc guid entries_crc entry esp"
proof -
  have len: "length disk = 67108864" using ok by (simp add: DISK_BYTES_def)
  note c = ok [THEN conjunct2, unfolded gpt_conditions [OF len]]
  define h1 h2 where "h1 = take 512 (drop 512 disk)" and "h2 = drop 67108352 disk"
  have hl: "length h1 = 512" "length h2 = 512" using len by (simp_all add: h1_def h2_def)
  have h1: "h1 = gpt_header (take 4 (drop 16 h1)) 1 131071 (take 16 (drop 56 h1)) 2 (take 4 (drop 88 h1))"
    using c gpt_header_exact [OF hl(1), of 1 131071 2] unfolding h1_def by blast
  have h2: "h2 = gpt_header (take 4 (drop 16 h2)) 131071 1 (take 16 (drop 56 h2)) 131039 (take 4 (drop 88 h2))"
    using c gpt_header_exact [OF hl(2), of 131071 1 131039] unfolding h2_def by blast
  have same: "take 16 (drop 56 h2) = take 16 (drop 56 h1)" "take 4 (drop 88 h2) = take 4 (drop 88 h1)"
    using c by (simp_all add: h1_def h2_def drop_take)
  have entries: "take 16384 (drop 67091968 disk) = take 128 (drop 1024 disk) @ replicate 16256 0"
  proof -
    have "take 16384 (drop 1024 disk) = take 128 (drop 1024 disk) @ take 16256 (drop 1152 disk)"
      using take_add [of 128 16256 "drop 1024 disk"] by simp
    then show ?thesis using c by simp
  qed
  have "disk = gpt_disk (take 4 (drop 16 h1)) (take 4 (drop 16 h2)) (take 16 (drop 56 h1))
      (take 4 (drop 88 h1)) (take 128 (drop 1024 disk)) (take 65011712 (drop 1048576 disk))"
  proof -
    have "disk = replicate 446 0 @ PROTECTIVE_ENTRY @ replicate 48 0 @ [0x55, 0xaa] @ h1 @
        take 128 (drop 1024 disk) @ replicate 16256 0 @ replicate 1031168 0 @
        take 65011712 (drop 1048576 disk) @ replicate 1031680 0 @
        (take 128 (drop 1024 disk) @ replicate 16256 0) @ h2"
      using pieces_of_disk [of disk] c entries unfolding h1_def h2_def by metis
    then show ?thesis
      unfolding gpt_disk_def protective_mbr_def append_assoc
      using h1 h2 [unfolded same] by metis
  qed
  moreover have "length (take 4 (drop 16 h1)) = 4" "length (take 4 (drop 16 h2)) = 4"
    "length (take 16 (drop 56 h1)) = 16" "length (take 4 (drop 88 h1)) = 4"
    "length (take 128 (drop 1024 disk)) = 128" "length (take 65011712 (drop 1048576 disk)) = 65011712"
    using hl len by simp_all
  moreover have "take 128 (drop 1024 disk) \<noteq> replicate 128 0" using c by blast
  ultimately show ?thesis by blast
qed

text \<open>
  C26: the raw GPT check accepts exactly the canonical disks.  An image of the fixed size passes if
  and only if it is the protective MBR, the primary header, one non-empty entry padded with zeros,
  zeroed alignment sectors, the partition, zeroed alignment sectors, the same entries and the
  backup header, with the same identity and entry checksum in both headers.
\<close>

theorem gpt_layout_exact:
  "length disk = DISK_BYTES \<and> validate_raw_gpt_layout disk = Ok () \<longleftrightarrow>
    (\<exists>crc backup_crc guid entries_crc entry esp.
       length crc = 4 \<and> length backup_crc = 4 \<and> length guid = 16 \<and> length entries_crc = 4 \<and>
       length entry = 128 \<and> entry \<noteq> replicate 128 0 \<and> length esp = 65011712 \<and>
       disk = gpt_disk crc backup_crc guid entries_crc entry esp)"
  by (rule iffI, erule gpt_disk_decompose, elim exE conjE, rule gpt_disk_accepted)

section \<open>The canonical allocation table\<close>

definition fat_raw :: "u8 list \<Rightarrow> nat \<Rightarrow> u32" where
  "fat_raw fat c = from_le_bytes (take 4 (drop (c * 4) fat))"

definition fat_value :: "u8 list \<Rightarrow> nat \<Rightarrow> u32" where
  "fat_value fat c = fat_raw fat c AND 0x0fffffff"

text \<open>A cluster in use: its successor is a data cluster or an end-of-chain mark.\<close>

definition allocated :: "u8 list \<Rightarrow> nat \<Rightarrow> nat \<Rightarrow> bool" where
  "allocated fat n c \<longleftrightarrow> fat_value fat c \<noteq> 0 \<and>
     ((2 \<le> unat (fat_value fat c) \<and> unat (fat_value fat c) < n) \<or> 0x0ffffff8 \<le> fat_value fat c)"

text \<open>Exactly the clusters from 2 up to \<open>f\<close> are in use.\<close>

definition used_prefix :: "u8 list \<Rightarrow> nat \<Rightarrow> nat \<Rightarrow> nat \<Rightarrow> bool" where
  "used_prefix fat n a f \<longleftrightarrow>
     (\<forall>c. a \<le> c \<and> c < f \<longrightarrow> allocated fat n c) \<and> (\<forall>c. f \<le> c \<and> c < n \<longrightarrow> fat_value fat c = 0)"

lemma img_read_u32_Some:
  "offset + 4 \<le> length bytes \<Longrightarrow> length bytes < usize_limit \<Longrightarrow>
    img_read_u32 bytes offset = Some (from_le_bytes (take 4 (drop offset bytes)))"
  by (simp add: img_read_u32_def usize_checked_add_def slice_get_def)

lemma fat_read:
  "c < n \<Longrightarrow> n * 4 \<le> length fat \<Longrightarrow> length fat < usize_limit \<Longrightarrow>
    img_read_u32 fat (c * 4) = Some (fat_raw fat c)"
  by (simp add: img_read_u32_Some fat_raw_def)

lemma fat_loop_free:
  assumes "n * 4 \<le> length fat" "length fat < usize_limit" "set cs \<subseteq> {..<n}"
  shows "fat_entries_loop fat n cs (Some f) = Ok r \<longleftrightarrow> r = Some f \<and> (\<forall>c \<in> set cs. fat_value fat c = 0)"
  using assms(3)
  by (induction cs) (auto simp: fat_read [OF _ assms(1,2)] Let_def fat_value_def ensure_def)

lemma fat_loop_not_Panic:
  assumes "n * 4 \<le> length fat" "length fat < usize_limit" "set cs \<subseteq> {..<n}"
  shows "fat_entries_loop fat n cs ff \<noteq> Panic"
  using assms(3)
  by (induction cs arbitrary: ff)
    (auto simp: fat_read [OF _ assms(1,2)] Let_def ensure_def split: option.splits)

lemma fat_loop_exact:
  assumes fat: "n * 4 \<le> length fat" "length fat < usize_limit" and "a \<le> n"
  shows "fat_entries_loop fat n [a..<n] None = Ok r \<longleftrightarrow>
    (\<exists>f. a \<le> f \<and> f \<le> n \<and> used_prefix fat n a f \<and> r = (if f < n then Some f else None))"
  using assms(3)
proof (induction "n - a" arbitrary: a)
  case 0
  then show ?case by (auto simp: used_prefix_def)
next
  case (Suc k)
  then have an: "a < n" by simp
  have upt: "[a..<n] = a # [Suc a..<n]" using an by (simp add: upt_conv_Cons)
  have IH: "fat_entries_loop fat n [Suc a..<n] None = Ok r \<longleftrightarrow>
      (\<exists>f. Suc a \<le> f \<and> f \<le> n \<and> used_prefix fat n (Suc a) f \<and> r = (if f < n then Some f else None))"
    using Suc an by (intro Suc.hyps(1)) auto
  note read = fat_read [OF an fat]
  show ?case
  proof (cases "fat_value fat a = 0")
    case True
    have "fat_entries_loop fat n [a..<n] None = fat_entries_loop fat n [Suc a..<n] (Some a)"
      using True read by (simp add: upt Let_def fat_value_def)
    also have "\<dots> = Ok r \<longleftrightarrow> r = Some a \<and> (\<forall>c. a < c \<and> c < n \<longrightarrow> fat_value fat c = 0)"
      by (subst fat_loop_free [OF fat]) auto
    also have "\<dots> \<longleftrightarrow> r = Some a \<and> used_prefix fat n a a"
      using True by (auto simp: used_prefix_def le_less)
    also have "\<dots> \<longleftrightarrow> (\<exists>f. a \<le> f \<and> f \<le> n \<and> used_prefix fat n a f \<and> r = (if f < n then Some f else None))"
    proof -
      have "f = a" if "a \<le> f" "used_prefix fat n a f" for f
        using that True by (auto simp: used_prefix_def allocated_def order.order_iff_strict)
      then have "(\<exists>f. a \<le> f \<and> f \<le> n \<and> used_prefix fat n a f \<and> r = (if f < n then Some f else None)) \<longleftrightarrow>
          a \<le> a \<and> a \<le> n \<and> used_prefix fat n a a \<and> r = (if a < n then Some a else None)" by blast
      then show ?thesis using an by auto
    qed
    finally show ?thesis .
  next
    case False
    have "fat_entries_loop fat n [a..<n] None = Ok r \<longleftrightarrow>
        allocated fat n a \<and> fat_entries_loop fat n [Suc a..<n] None = Ok r"
      using False read by (auto simp: upt Let_def fat_value_def allocated_def outcome_simps)
    also have "\<dots> \<longleftrightarrow> (\<exists>f. a \<le> f \<and> f \<le> n \<and> used_prefix fat n a f \<and> r = (if f < n then Some f else None))"
    proof -
      have "a \<le> f \<and> used_prefix fat n a f \<longleftrightarrow>
          Suc a \<le> f \<and> allocated fat n a \<and> used_prefix fat n (Suc a) f" for f
        unfolding used_prefix_def Suc_le_eq using False an by (auto simp: le_less)
      then show ?thesis unfolding IH by blast
    qed
    finally show ?thesis .
  qed
qed


definition fat_table_ok :: "u8 list \<Rightarrow> nat \<Rightarrow> nat \<Rightarrow> u8 list \<Rightarrow> bool" where
  "fat_table_ok fat total_sectors data_lba fs_info \<longleftrightarrow>
     data_lba \<le> total_sectors \<and>
     (let n = total_sectors - data_lba + 2 in
      n * 4 \<le> length fat \<and> fat_raw fat 0 AND 0xff = 0xf8 \<and> 0x0ffffff8 \<le> fat_value fat 1 \<and>
      all_chunks4 (\<lambda>entry. entry = [0xff, 0xff, 0xff, 0x0f]) (drop (n * 4) fat) \<and>
      (\<exists>f. 2 \<le> f \<and> f < n \<and> f < 2 ^ 32 \<and> used_prefix fat n 2 f \<and>
         496 \<le> length fs_info \<and> take 4 (drop 492 fs_info) = to_le_bytes (of_nat f :: u32)))"

lemma fat_entries_exact:
  assumes "length fat < usize_limit"
  shows "validate_canonical_fat_entries fat total_sectors data_lba fs_info \<noteq> Panic \<and>
    (validate_canonical_fat_entries fat total_sectors data_lba fs_info = Ok () \<longleftrightarrow>
      fat_table_ok fat (unat total_sectors) (unat data_lba) fs_info)"
proof (cases "unat data_lba \<le> unat total_sectors")
  case False
  then have "checked_sub (ucast total_sectors) data_lba = None"
    by (simp add: checked_sub_def word_le_nat_alt unat_ucast_up)
  then show ?thesis using False by (simp add: validate_canonical_fat_entries_def fat_table_ok_def)
next
  case True
  define n where "n = unat total_sectors - unat data_lba + 2"
  have small: "unat total_sectors < 2 ^ 32" using unsigned_less [of total_sectors, where 'a = nat] by simp
  have sub: "checked_sub (ucast total_sectors) data_lba = Some (ucast total_sectors - data_lba)"
    and usub: "unat (ucast total_sectors - data_lba) = unat total_sectors - unat data_lba"
    using True by (simp_all add: checked_sub_def unat_ucast_up unat_sub word_le_nat_alt)
  have add: "add_or_panic (ucast total_sectors - data_lba) 2 = (Ok (ucast total_sectors - data_lba + 2) :: (message, _) outcome)"
    and uadd: "unat (ucast total_sectors - data_lba + 2) = n"
    using small usub by (simp_all add: add_or_panic_def checked_add_def n_def unat_word_ariths)
  have n: "2 \<le> n" "n * 4 < usize_limit" using small by (simp_all add: n_def)
  have spec: "fat_table_ok fat (unat total_sectors) (unat data_lba) fs_info \<longleftrightarrow>
      n * 4 \<le> length fat \<and> fat_raw fat 0 AND 0xff = 0xf8 \<and> 0x0ffffff8 \<le> fat_value fat 1 \<and>
      all_chunks4 (\<lambda>entry. entry = [0xff, 0xff, 0xff, 0x0f]) (drop (n * 4) fat) \<and>
      (\<exists>f. 2 \<le> f \<and> f < n \<and> f < 2 ^ 32 \<and> used_prefix fat n 2 f \<and>
         496 \<le> length fs_info \<and> take 4 (drop 492 fs_info) = to_le_bytes (of_nat f :: u32))"
    using True by (simp only: fat_table_ok_def n_def Let_def simp_thms)
  show ?thesis
  proof (cases "n * 4 \<le> length fat")
    case False
    then show ?thesis
      unfolding spec using n by (simp add: validate_canonical_fat_entries_def sub add uadd
          usize_checked_mul_def)
  next
    case fits: True
    have reads: "img_read_u32 fat 0 = Some (fat_raw fat 0)" "img_read_u32 fat 4 = Some (fat_raw fat 1)"
      using fat_read [of 0 n fat] fat_read [of 1 n fat] n fits assms by simp_all
    have loop: "fat_entries_loop fat n [2..<n] None \<noteq> Panic"
      by (rule fat_loop_not_Panic [OF fits assms]) auto
    note ex = fat_loop_exact [OF fits assms n(1)]
    have hint: "img_read_u32 fs_info 492 = Some v \<longleftrightarrow>
        496 \<le> length fs_info \<and> take 4 (drop 492 fs_info) = to_le_bytes v" for v
      by (subst img_read_iff(2)) auto
    show ?thesis
      unfolding spec using n fits loop
      by (auto simp: validate_canonical_fat_entries_def sub add uadd usize_checked_mul_def
          outcome_simps reads fat_value_def slice_at_simp ex hint u32_try_from_usize_def
          split: if_splits)
  qed
qed

text \<open>
  C27: the allocation-table check accepts exactly the canonical tables.  It never panics, and it
  succeeds if and only if the table covers the data clusters, its two reserved entries are the
  fixed ones, the clusters in use are a prefix with valid successors followed by free clusters
  only, the entries past the last cluster are end-of-chain marks, and the free-cluster hint of the
  information sector names the first free cluster.
\<close>

theorem fat_table_exact:
  assumes "length fat < usize_limit"
  shows "validate_canonical_fat_entries fat total_sectors data_lba fs_info \<noteq> Panic \<and>
    (validate_canonical_fat_entries fat total_sectors data_lba fs_info = Ok () \<longleftrightarrow>
      fat_table_ok fat (unat total_sectors) (unat data_lba) fs_info)"
  by (rule fat_entries_exact [OF assms])

definition example_fat :: "u8 list" where
  "example_fat = [0xf8, 0xff, 0xff, 0x0f, 0xff, 0xff, 0xff, 0x0f, 0xff, 0xff, 0xff, 0x0f, 0, 0, 0, 0]"

lemma example_fat_ok: "fat_table_ok example_fat 10 8 (replicate 492 0 @ [3, 0, 0, 0])"
proof -
  have v: "fat_raw example_fat 0 = 0x0ffffff8" "fat_raw example_fat 1 = 0x0fffffff"
    "fat_raw example_fat 2 = 0x0fffffff" "fat_raw example_fat 3 = 0"
    by (simp_all add: fat_raw_def example_fat_def from_le_bytes_def)
  have "used_prefix example_fat 4 2 3"
    unfolding used_prefix_def allocated_def fat_value_def
  proof (intro conjI allI impI)
    fix c :: nat assume "2 \<le> c \<and> c < 3"
    then have "c = 2" by simp
    then show "fat_raw example_fat c AND 0x0fffffff \<noteq> 0"
      "2 \<le> unat (fat_raw example_fat c AND 0x0fffffff) \<and> unat (fat_raw example_fat c AND 0x0fffffff) < 4 \<or>
        0x0ffffff8 \<le> fat_raw example_fat c AND 0x0fffffff" by (simp_all add: v)
  next
    fix c :: nat assume "3 \<le> c \<and> c < 4"
    then have "c = 3" by simp
    then show "fat_raw example_fat c AND 0x0fffffff = 0" by (simp add: v)
  qed
  moreover have "to_le_bytes (of_nat 3 :: u32) = [3, 0, 0, 0]"
  proof -
    have "le_digits 4 3 = le_digits (Suc (Suc (Suc (Suc 0)))) 3" by (simp only: eval_nat_numeral BitM.simps)
    then show ?thesis by (simp add: to_le_bytes_def)
  qed
  ultimately show ?thesis
    using v [unfolded example_fat_def] unfolding example_fat_def
    by (auto simp: fat_table_ok_def fat_value_def Let_def intro!: exI [of _ 3])
qed

theorem fat_table_exact_witness:
  "validate_canonical_fat_entries example_fat 10 8 (replicate 492 0 @ [3, 0, 0, 0]) = Ok ()"
  using fat_table_exact [of example_fat 10 8 "replicate 492 0 @ [3, 0, 0, 0]"] example_fat_ok
  by (simp add: example_fat_def)

section \<open>Absence of panics\<close>

lemma and_then_not_Panic:
  "r \<noteq> Panic \<Longrightarrow> (\<And>x. r = Ok x \<Longrightarrow> f x \<noteq> Panic) \<Longrightarrow> and_then r f \<noteq> Panic"
  by (cases r) auto

lemma lba_range_not_Panic: "lba_range bytes a b \<noteq> Panic"
  unfolding lba_range_def lba_to_offset_def by (auto simp: outcome_simps)

lemma sector_not_Panic: "sector bytes a \<noteq> Panic"
  unfolding sector_def by (auto simp: outcome_simps lba_range_not_Panic)

lemma sector_length: "sector bytes a = Ok s \<Longrightarrow> length s = 512"
  by (auto simp: sector_def lba_range_def lba_to_offset_def outcome_simps slice_get_Some_iff
      checked_add_Some_iff checked_mul_Some_iff LOGICAL_BLOCK_BYTES_def unat_word_ariths)

lemma slice_at_not_Panic: "i \<le> j \<Longrightarrow> j \<le> length xs \<Longrightarrow> slice_at xs i j \<noteq> Panic"
  by (simp add: slice_at_simp)

lemma index_at_not_Panic: "i < length xs \<Longrightarrow> index_at xs i \<noteq> Panic"
  by (simp add: index_at_def)

lemmas no_panic = and_then_not_Panic ensure_not_Panic ok_or_not_Panic lba_range_not_Panic
  sector_not_Panic

lemma u32_sums_fit:
  "add_or_panic (8 :: u64) (ucast (n :: u32)) \<noteq> (Panic :: ('e, _) outcome)"
  "add_or_panic (8 :: u64) (ucast (n :: u32)) = (Ok l :: ('e, _) outcome) \<Longrightarrow>
    add_or_panic l (ucast n) \<noteq> (Panic :: ('e, _) outcome)"
proof -
  have n: "unat (ucast n :: u64) < 2 ^ 32"
    using unsigned_less [of n, where 'a = nat] by (simp add: unat_ucast_up)
  then show "add_or_panic (8 :: u64) (ucast n) \<noteq> (Panic :: ('e, _) outcome)"
    by (simp add: add_or_panic_Panic_iff)
  assume "add_or_panic (8 :: u64) (ucast n) = (Ok l :: ('e, _) outcome)"
  then have "unat l = 8 + unat (ucast n :: u64)"
    using unat_add_or_panic by fastforce
  then show "add_or_panic l (ucast n) \<noteq> (Panic :: ('e, _) outcome)"
    using n by (simp add: add_or_panic_Panic_iff)
qed

lemma raw_fat32_not_Panic:
  assumes "length part < usize_limit"
  shows "validate_raw_fat32_layout part \<noteq> Panic"
proof -
  have entries: "validate_canonical_fat_entries fat t d fs \<noteq> Panic" if "lba_range part a b = Ok fat" for fat t d fs a b
  proof -
    have "length fat \<le> length part"
      using that by (auto simp: lba_range_def outcome_simps slice_get_Some_iff)
    then have "length fat < usize_limit" using assms by linarith
    then show ?thesis using fat_entries_exact by blast
  qed
  show ?thesis
    unfolding validate_raw_fat32_layout_def Let_def ensure_zero_def
    by (intro no_panic slice_at_not_Panic index_at_not_Panic u32_sums_fit entries)
      (auto dest!: sector_length)
qed

lemma validate_uefi_loader_not_Panic: "validate_uefi_loader bytes \<noteq> Panic"
proof -
  have off: "unat (o' :: u32) < 2 ^ 32" for o' using unsigned_less [of o', where 'a = nat] by simp
  have add: "usize_add (unat (o' :: u32)) 4 \<noteq> (Panic :: (message, _) outcome)" for o'
    using off [of o'] by (simp add: usize_add_eq)
  have opt: "usize_add b 68 \<noteq> (Panic :: (message, _) outcome)"
    if "ok_or (usize_checked_add (unat (o' :: u32)) 24) e = Ok b" for o' b e
    using that off [of o'] by (auto simp: outcome_simps usize_add_eq usize_checked_add_def split: if_splits)
  show ?thesis
    unfolding validate_uefi_loader_def Let_def
    by (intro no_panic slice_at_not_Panic add opt) (auto simp: ensure_Ok_iff)
qed

end
