(* ===== verification/Image_Tool.thy ===== *)
theory Image_Tool
  imports Image_Layout Chunked_Read
begin

text \<open>
  Building and validating boot images (\<^verbatim>\<open>crates/xtask/src/image.rs\<close>, \<^verbatim>\<open>sha256_hex\<close> of
  \<^verbatim>\<open>crates/xtask/src/lib.rs\<close>).  The partition-table, file-system, UUID and digest crates are not part of
  the repository: what they return is an argument, the record \<open>image_crates\<close>.  A directory is
  enumerated by index, because a corrupt volume may enumerate without end.
\<close>

section \<open>The crates\<close>

record fat_date =
  fd_year :: nat
  fd_month :: nat
  fd_day :: nat

record fat_date_time =
  ft_date :: fat_date
  ft_hour :: nat
  ft_min :: nat
  ft_sec :: nat
  ft_millis :: nat

record fat_entry =
  fe_name :: string
  fe_is_dir :: bool
  fe_created :: fat_date_time
  fe_modified :: fat_date_time
  fe_accessed :: fat_date

datatype fat_type = Fat12 | Fat16 | Fat32

record 'u gpt_partition =
  gp_type_guid :: 'u
  gp_guid :: 'u
  gp_first_lba :: u64
  gp_last_lba :: u64
  gp_flags :: u64
  gp_name :: string

text \<open>
  \<open>'u\<close> is a UUID, \<open>'g\<close> an open partition table, \<open>'v\<close> a mounted file system with the bytes under it
  and \<open>'d\<close> a directory of it.  The partitions of a table are listed in key order, each key once.
  \<open>ic_entry d i\<close> is the \<open>i\<close>-th item of the enumeration of \<open>d\<close>: \<open>None\<close> at the end, \<open>Some None\<close> for an
  error.  \<open>ic_open_file\<close> gives what the successive reads of the file deliver into a buffer of a given
  size.  A call that changes a file system returns it changed.
\<close>

record fat_options =
  fo_bytes_per_sector :: u16
  fo_bytes_per_cluster :: u32
  fo_fat_type :: fat_type
  fo_fats :: u8
  fo_volume_id :: u32
  fo_volume_label :: "u8 list"

record ('u, 'g, 'v, 'd) image_crates =
  ic_parse_uuid :: "string \<Rightarrow> 'u option"
  ic_uuid_string :: "'u \<Rightarrow> string"
  ic_efi_type :: 'u
  ic_overwrite_lba0 :: "u32 \<Rightarrow> u8 list \<Rightarrow> u8 list option"
  ic_create_from_device :: "u8 list \<Rightarrow> 'u \<Rightarrow> 'g option"
  ic_update_partitions :: "'g \<Rightarrow> (u32 \<times> 'u gpt_partition) list \<Rightarrow> 'g option"
  ic_gpt_write :: "'g \<Rightarrow> u8 list option"
  ic_open_from_device :: "u8 list \<Rightarrow> 'g option"
  ic_gpt_guid :: "'g \<Rightarrow> 'u"
  ic_partitions :: "'g \<Rightarrow> (u32 \<times> 'u gpt_partition) list"
  ic_format_volume :: "fat_options \<Rightarrow> u8 list \<Rightarrow> u8 list option"
  ic_mount :: "u8 list \<Rightarrow> 'v option"
  ic_fat_type :: "'v \<Rightarrow> fat_type"
  ic_volume_id :: "'v \<Rightarrow> u32"
  ic_volume_label :: "'v \<Rightarrow> u8 list"
  ic_root_dir :: "'v \<Rightarrow> 'd"
  ic_create_dir :: "'v \<Rightarrow> string \<Rightarrow> 'v option"
  ic_create_file :: "'v \<Rightarrow> string \<Rightarrow> 'v option"
  ic_write_all :: "'v \<Rightarrow> string \<Rightarrow> u8 list \<Rightarrow> 'v option"
  ic_flush :: "'v \<Rightarrow> string \<Rightarrow> 'v option"
  ic_unmount :: "'v \<Rightarrow> u8 list option"
  ic_entry :: "'d \<Rightarrow> nat \<Rightarrow> fat_entry option option"
  ic_open_dir :: "'d \<Rightarrow> string \<Rightarrow> 'd option"
  ic_open_file :: "'d \<Rightarrow> string \<Rightarrow> (nat \<Rightarrow> usize \<Rightarrow> u8 list option) option"
  ic_reserve :: "usize \<Rightarrow> usize \<Rightarrow> bool"
  ic_digest :: "u8 list \<Rightarrow> u8 list"

section \<open>Constants\<close>

definition FAT_VOLUME_ID :: u32 where "FAT_VOLUME_ID = 0x50544f53"
definition FAT_VOLUME_LABEL :: "u8 list" where "FAT_VOLUME_LABEL = bytes_of ''POLYTOPEOS ''"
definition FAT_VOLUME_LABEL_VISIBLE :: "u8 list" where
  "FAT_VOLUME_LABEL_VISIBLE = bytes_of ''POLYTOPEOS''"
definition FAT32_VOLUME_LABEL_OFFSET :: usize where "FAT32_VOLUME_LABEL_OFFSET = 71"
definition LOADER_IMAGE_PATH :: string where "LOADER_IMAGE_PATH = ''EFI/BOOT/BOOTX64.EFI''"
definition KERNEL_IMAGE_PATH :: string where "KERNEL_IMAGE_PATH = ''POLYTOPE/KERNEL.ELF''"
definition SCENARIO_IMAGE_PATH :: string where "SCENARIO_IMAGE_PATH = ''POLYTOPE/BOOT.CFG''"
definition MAX_PAYLOAD_BYTES :: usize where "MAX_PAYLOAD_BYTES = 24 * 1024 * 1024"
definition MAX_SCENARIO_FILE_BYTES :: usize where "MAX_SCENARIO_FILE_BYTES = 32"
definition DISK_GUID :: string where "DISK_GUID = ''4ed83d8f-20d8-4c3d-9a4c-25bccd13a6a1''"
definition ESP_GUID :: string where "ESP_GUID = ''f607134d-0901-4d7b-a512-5a49d6ba66bf''"
definition FAT_TIMESTAMP_YEAR :: nat where "FAT_TIMESTAMP_YEAR = 2000"

definition get_current_date :: fat_date where
  "get_current_date = \<lparr>fd_year = FAT_TIMESTAMP_YEAR, fd_month = 1, fd_day = 1\<rparr>"

definition get_current_date_time :: fat_date_time where
  "get_current_date_time =
     \<lparr>ft_date = get_current_date, ft_hour = 0, ft_min = 0, ft_sec = 0, ft_millis = 0\<rparr>"

section \<open>Digests\<close>

definition hex_digit :: "nat \<Rightarrow> char" where
  "hex_digit n = ''0123456789abcdef'' ! n"

definition sha256_hex :: "('u, 'g, 'v, 'd) image_crates \<Rightarrow> u8 list \<Rightarrow> string" where
  "sha256_hex ic bytes =
     concat (map (\<lambda>b. [hex_digit (unat (drop_bit 4 b)), hex_digit (unat (b AND 0x0f))])
       (ic_digest ic bytes))"

section \<open>The file system of the partition\<close>

function read_fat_loop ::
    "(usize \<Rightarrow> usize \<Rightarrow> bool) \<Rightarrow> (nat \<Rightarrow> usize \<Rightarrow> u8 list option) \<Rightarrow> usize \<Rightarrow> nat \<Rightarrow> u8 list
      \<Rightarrow> (message, u8 list) outcome" where
  "read_fat_loop reserve reads maximum i bytes =
     (case reads i (8 * 1024) of
        None \<Rightarrow> Err ''failed to read ESP file''
      | Some data \<Rightarrow>
          (let count = length data in
           if count = 0 then Ok bytes
           else
             (case usize_checked_add (length bytes) count of
                None \<Rightarrow> Err ''ESP file length overflowed''
              | Some new_length \<Rightarrow>
                  if new_length > maximum then Err ''ESP file exceeds its limit''
                  else if \<not> reserve (length bytes) count
                  then Err ''failed to reserve bounded storage for ESP file''
                  else if count > 8 * 1024 then Panic
                  else read_fat_loop reserve reads maximum (Suc i) (bytes @ data))))"
  by auto
termination
  by (relation "measure (\<lambda>(reserve, reads, maximum, i, bytes). maximum - length bytes)")
    (auto simp: usize_checked_add_Some_iff length_greater_0_conv [symmetric]
      simp del: length_greater_0_conv)

declare read_fat_loop.simps [simp del]

definition read_fat_file ::
    "('u, 'g, 'v, 'd) image_crates \<Rightarrow> 'd \<Rightarrow> string \<Rightarrow> usize \<Rightarrow> (message, u8 list) outcome" where
  "read_fat_file ic root path maximum =
     (case ic_open_file ic root path of
        None \<Rightarrow> Err ''required ESP file is missing''
      | Some reads \<Rightarrow> read_fat_loop (ic_reserve ic) reads maximum 0 [])"

definition ensure_fixed_timestamp :: "fat_entry \<Rightarrow> (message, unit) outcome" where
  "ensure_fixed_timestamp entry =
     ensure (fe_created entry = get_current_date_time \<and> fe_modified entry = get_current_date_time \<and>
         fe_accessed entry = get_current_date)
       ''ESP directory entry has a noncanonical timestamp''"

text \<open>
  The enumeration; \<open>raw\<close> counts all items, \<open>observed\<close> those that are not the dot entries.  The two
  counters stay far below the width of \<^verbatim>\<open>usize\<close>.
\<close>

function directory_loop ::
    "(nat \<Rightarrow> fat_entry option option) \<Rightarrow> (string \<times> bool) list \<Rightarrow> usize \<Rightarrow> usize
      \<Rightarrow> (message, usize) outcome" where
  "directory_loop entries expected raw observed =
     (case entries raw of
        None \<Rightarrow> Ok observed
      | Some None \<Rightarrow> Err ''failed to enumerate deterministic ESP directory''
      | Some (Some entry) \<Rightarrow>
          let raw = raw + 1 in
          if \<not> raw \<le> length expected + 2
          then Err ''ESP directory enumeration exceeded its deterministic bound''
          else if fe_name entry = ''.'' \<or> fe_name entry = ''..''
          then directory_loop entries expected raw observed
          else if \<not> observed < length expected
          then Err ''ESP directory contains an unexpected extra entry''
          else if \<not> (fe_name entry = fst (expected ! observed) \<and>
              fe_is_dir entry = snd (expected ! observed))
          then Err ''unexpected ESP directory entry''
          else
            and_then (ensure_fixed_timestamp entry) (\<lambda>_.
            directory_loop entries expected raw (observed + 1)))"
  by auto
termination
  by (relation "measure (\<lambda>(entries, expected, raw, observed). length expected + 3 - raw)") auto

declare directory_loop.simps [simp del]

definition validate_directory ::
    "(nat \<Rightarrow> fat_entry option option) \<Rightarrow> (string \<times> bool) list \<Rightarrow> (message, unit) outcome" where
  "validate_directory entries expected =
     and_then (directory_loop entries expected 0 0) (\<lambda>observed.
     ensure (observed = length expected) ''ESP directory has a wrong number of entries'')"

section \<open>Validation of an image\<close>

record image_manifest =
  im_schema_version :: u32
  im_image_bytes :: u64
  im_image_sha256 :: string
  im_loader_sha256 :: string
  im_kernel_sha256 :: string
  im_scenario :: image_scenario
  im_esp_first_lba :: u64
  im_esp_last_lba :: u64
  im_disk_guid :: string
  im_esp_guid :: string

definition parse_uuid :: "('u, 'g, 'v, 'd) image_crates \<Rightarrow> string \<Rightarrow> (message, 'u) outcome" where
  "parse_uuid ic text = ok_or (ic_parse_uuid ic text) ''invalid built-in UUID''"

text \<open>The part of \<^verbatim>\<open>validate_image_bytes\<close> up to \<^verbatim>\<open>drop(gpt_disk)\<close>: the two identifiers it keeps.\<close>

definition validate_gpt :: "('u, 'g, 'v, 'd) image_crates \<Rightarrow> u8 list \<Rightarrow> (message, 'u \<times> 'u) outcome" where
  "validate_gpt ic disk =
     and_then (parse_uuid ic DISK_GUID) (\<lambda>disk_guid.
     and_then (parse_uuid ic ESP_GUID) (\<lambda>esp_guid.
     and_then (ok_or (ic_open_from_device ic disk) ''image has invalid primary or backup GPT metadata'') (\<lambda>table.
     and_then (ensure (ic_gpt_guid ic table = disk_guid) ''unexpected GPT disk GUID'') (\<lambda>_.
     and_then (ensure (length (ic_partitions ic table) = 1) ''expected one GPT partition'') (\<lambda>_.
     and_then (ok_or (map_of (ic_partitions ic table) 1) ''GPT partition 1 is missing'') (\<lambda>p.
     and_then (ensure (gp_type_guid p = ic_efi_type ic) ''partition 1 is not an ESP'') (\<lambda>_.
     and_then (ensure (gp_guid p = esp_guid) ''unexpected ESP GUID'') (\<lambda>_.
     and_then (ensure (gp_first_lba p = ESP_FIRST_LBA) ''unexpected ESP first LBA'') (\<lambda>_.
     and_then (ensure (gp_last_lba p = ESP_LAST_LBA) ''unexpected ESP last LBA'') (\<lambda>_.
     Ok (disk_guid, esp_guid)))))))))))"

text \<open>The checks of the mounted volume: its root directory.\<close>

definition validate_volume :: "('u, 'g, 'v, 'd) image_crates \<Rightarrow> u8 list \<Rightarrow> (message, 'd) outcome" where
  "validate_volume ic part =
     and_then (validate_raw_fat32_layout part) (\<lambda>_.
     and_then (ensure (slice_get part FAT32_VOLUME_LABEL_OFFSET (FAT32_VOLUME_LABEL_OFFSET + 11) =
           Some FAT_VOLUME_LABEL) ''unexpected raw FAT volume label'') (\<lambda>_.
     and_then (ok_or (ic_mount ic part) ''ESP is not a valid FAT filesystem'') (\<lambda>volume.
     and_then (ensure (ic_fat_type ic volume = Fat32) ''ESP is not FAT32'') (\<lambda>_.
     and_then (ensure (ic_volume_id ic volume = FAT_VOLUME_ID) ''unexpected FAT volume ID'') (\<lambda>_.
     and_then (ensure (ic_volume_label ic volume = FAT_VOLUME_LABEL_VISIBLE) ''unexpected FAT volume label'') (\<lambda>_.
     Ok (ic_root_dir ic volume)))))))"

definition validate_tree :: "('u, 'g, 'v, 'd) image_crates \<Rightarrow> 'd \<Rightarrow> (message, unit) outcome" where
  "validate_tree ic root =
     and_then (validate_directory (ic_entry ic root) [(''EFI'', True), (''POLYTOPE'', True)]) (\<lambda>_.
     and_then (ok_or (ic_open_dir ic root ''EFI'') ''required ESP directory EFI is missing'') (\<lambda>efi.
     and_then (validate_directory (ic_entry ic efi) [(''BOOT'', True)]) (\<lambda>_.
     and_then (ok_or (ic_open_dir ic efi ''BOOT'') ''required ESP directory EFI/BOOT is missing'') (\<lambda>boot.
     and_then (validate_directory (ic_entry ic boot) [(''BOOTX64.EFI'', False)]) (\<lambda>_.
     and_then (ok_or (ic_open_dir ic root ''POLYTOPE'') ''required ESP directory POLYTOPE is missing'')
       (\<lambda>polytope.
     validate_directory (ic_entry ic polytope) [(''KERNEL.ELF'', False), (''BOOT.CFG'', False)]))))))"

definition validate_image_bytes ::
    "('u, 'g, 'v, 'd) image_crates \<Rightarrow> u8 list \<Rightarrow> (message, image_manifest) outcome" where
  "validate_image_bytes ic disk =
     and_then (ensure (length disk = DISK_BYTES) ''image size is wrong'') (\<lambda>_.
     and_then (validate_raw_gpt_layout disk) (\<lambda>_.
     and_then (validate_gpt ic disk) (\<lambda>(disk_guid, esp_guid).
     and_then (lba_to_offset ESP_FIRST_LBA) (\<lambda>start.
     and_then (lba_to_offset (ESP_LAST_LBA + 1)) (\<lambda>stop.
     and_then (slice_at disk start stop) (\<lambda>part.
     and_then (validate_volume ic part) (\<lambda>root.
     and_then (validate_tree ic root) (\<lambda>_.
     and_then (read_fat_file ic root LOADER_IMAGE_PATH MAX_PAYLOAD_BYTES) (\<lambda>loader.
     and_then (read_fat_file ic root KERNEL_IMAGE_PATH MAX_ELF_FILE_SIZE) (\<lambda>kernel_elf.
     and_then (read_fat_file ic root SCENARIO_IMAGE_PATH MAX_SCENARIO_FILE_BYTES) (\<lambda>scenario_bytes.
     and_then (validate_uefi_loader loader) (\<lambda>_.
     and_then (validate_kernel_elf kernel_elf) (\<lambda>_.
     and_then (map_err (\<lambda>_. ''scenario file is invalid'') (parse_scenario scenario_bytes)) (\<lambda>scenario.
     and_then (ok_or (u64_try_from_usize (length disk)) ''image length does not fit u64'') (\<lambda>image_bytes.
     Ok \<lparr>im_schema_version = 1, im_image_bytes = image_bytes, im_image_sha256 = sha256_hex ic disk,
         im_loader_sha256 = sha256_hex ic loader, im_kernel_sha256 = sha256_hex ic kernel_elf,
         im_scenario = scenario, im_esp_first_lba = ESP_FIRST_LBA, im_esp_last_lba = ESP_LAST_LBA,
         im_disk_guid = ic_uuid_string ic disk_guid,
         im_esp_guid = ic_uuid_string ic esp_guid\<rparr>)))))))))))))))"

section \<open>Construction of an image\<close>

definition create_gpt_disk :: "('u, 'g, 'v, 'd) image_crates \<Rightarrow> (message, u8 list) outcome" where
  "create_gpt_disk ic =
     (let total_lbas = DISK_BYTES div LOGICAL_BLOCK_BYTES in
     and_then (ok_or (u32_try_from_usize (total_lbas - 1)) ''disk has too many LBAs'') (\<lambda>protective_lbas.
     and_then (ok_or (ic_overwrite_lba0 ic protective_lbas (replicate DISK_BYTES 0))
         ''failed to write protective MBR'') (\<lambda>cursor.
     and_then (parse_uuid ic DISK_GUID) (\<lambda>disk_guid.
     and_then (parse_uuid ic ESP_GUID) (\<lambda>esp_guid.
     and_then (ok_or (ic_create_from_device ic cursor disk_guid) ''failed to initialize GPT'') (\<lambda>gpt_disk.
     and_then (ok_or (ic_update_partitions ic gpt_disk
           [(1, \<lparr>gp_type_guid = ic_efi_type ic, gp_guid = esp_guid, gp_first_lba = ESP_FIRST_LBA,
                gp_last_lba = ESP_LAST_LBA, gp_flags = 0, gp_name = ''PolytopeOS ESP''\<rparr>)])
         ''failed to install deterministic GPT partition table'') (\<lambda>gpt_disk.
     ok_or (ic_gpt_write ic gpt_disk) ''failed to write GPT headers'')))))))"

definition write_fat_file ::
    "('u, 'g, 'v, 'd) image_crates \<Rightarrow> 'v \<Rightarrow> string \<Rightarrow> u8 list \<Rightarrow> (message, 'v) outcome" where
  "write_fat_file ic volume path bytes =
     and_then (ok_or (ic_create_file ic volume path) ''failed to create file in ESP'') (\<lambda>volume.
     and_then (ok_or (ic_write_all ic volume path bytes) ''failed to write file in ESP'') (\<lambda>volume.
     ok_or (ic_flush ic volume path) ''failed to flush file in ESP''))"

definition esp_options :: fat_options where
  "esp_options =
     \<lparr>fo_bytes_per_sector = of_nat LOGICAL_BLOCK_BYTES, fo_bytes_per_cluster = 512, fo_fat_type = Fat32,
      fo_fats = 2, fo_volume_id = FAT_VOLUME_ID, fo_volume_label = FAT_VOLUME_LABEL\<rparr>"

text \<open>The disk is changed in place: the result is the disk with the bytes of the partition replaced.\<close>

definition format_esp ::
    "('u, 'g, 'v, 'd) image_crates \<Rightarrow> u8 list \<Rightarrow> u8 list \<Rightarrow> u8 list \<Rightarrow> u8 list \<Rightarrow> (message, u8 list) outcome"
  where
  "format_esp ic disk loader kernel_elf scenario =
     and_then (lba_to_offset ESP_FIRST_LBA) (\<lambda>start.
     and_then (lba_to_offset (ESP_LAST_LBA + 1)) (\<lambda>stop.
     and_then (ok_or (slice_get disk start stop) ''ESP byte range is outside the raw image'') (\<lambda>esp.
     and_then (ok_or (ic_format_volume ic esp_options esp)
         ''failed to format deterministic FAT32 ESP'') (\<lambda>esp.
     and_then (ok_or (ic_mount ic esp) ''failed to mount newly formatted ESP'') (\<lambda>volume.
     and_then (ok_or (ic_create_dir ic volume ''EFI'') ''failed to create EFI'') (\<lambda>volume.
     and_then (ok_or (ic_create_dir ic volume ''EFI/BOOT'') ''failed to create EFI/BOOT'') (\<lambda>volume.
     and_then (ok_or (ic_create_dir ic volume ''POLYTOPE'') ''failed to create POLYTOPE'') (\<lambda>volume.
     and_then (write_fat_file ic volume LOADER_IMAGE_PATH loader) (\<lambda>volume.
     and_then (write_fat_file ic volume KERNEL_IMAGE_PATH kernel_elf) (\<lambda>volume.
     and_then (write_fat_file ic volume SCENARIO_IMAGE_PATH scenario) (\<lambda>volume.
     and_then (ok_or (ic_unmount ic volume) ''failed to flush ESP'') (\<lambda>esp.
     Ok (take start disk @ esp @ drop stop disk)))))))))))))"

definition build_image_bytes ::
    "('u, 'g, 'v, 'd) image_crates \<Rightarrow> u8 list \<Rightarrow> u8 list \<Rightarrow> image_scenario
      \<Rightarrow> (message, u8 list \<times> image_manifest) outcome" where
  "build_image_bytes ic loader kernel_elf scenario =
     and_then (validate_uefi_loader loader) (\<lambda>_.
     and_then (validate_kernel_elf kernel_elf) (\<lambda>_.
     and_then (ensure (length loader \<le> MAX_PAYLOAD_BYTES) ''UEFI loader is too large'') (\<lambda>_.
     and_then (ensure (length kernel_elf \<le> MAX_PAYLOAD_BYTES) ''kernel is too large'') (\<lambda>_.
     let loader_sha256 = sha256_hex ic loader; kernel_sha256 = sha256_hex ic kernel_elf;
         scenario_bytes = scenario_as_str scenario @ [0x0A] in
     and_then (create_gpt_disk ic) (\<lambda>disk.
     and_then (format_esp ic disk loader kernel_elf scenario_bytes) (\<lambda>disk.
     and_then (validate_image_bytes ic disk) (\<lambda>validated.
     and_then (ensure (im_loader_sha256 validated = loader_sha256)
         ''read-back loader digest differs from input'') (\<lambda>_.
     and_then (ensure (im_kernel_sha256 validated = kernel_sha256)
         ''read-back kernel digest differs from input'') (\<lambda>_.
     and_then (ensure (im_scenario validated = scenario)
         ''read-back scenario differs from requested scenario'') (\<lambda>_.
     Ok (disk, validated)))))))))))"

section \<open>Directories\<close>

definition enumerates :: "(nat \<Rightarrow> 'a option option) \<Rightarrow> 'a list \<Rightarrow> bool" where
  "enumerates entries es \<longleftrightarrow>
     entries (length es) = None \<and> (\<forall>i<length es. entries i = Some (Some (es ! i)))"

definition proper_entry :: "fat_entry \<Rightarrow> bool" where
  "proper_entry e \<longleftrightarrow> fe_name e \<noteq> ''.'' \<and> fe_name e \<noteq> ''..''"

definition fixed_stamp :: "fat_entry \<Rightarrow> bool" where
  "fixed_stamp e \<longleftrightarrow> fe_created e = get_current_date_time \<and> fe_modified e = get_current_date_time \<and>
     fe_accessed e = get_current_date"

definition entry_key :: "fat_entry \<Rightarrow> string \<times> bool" where
  "entry_key e = (fe_name e, fe_is_dir e)"

lemma enumerates_None: "entries 0 = None \<Longrightarrow> enumerates entries es \<longleftrightarrow> es = []"
  by (cases es) (auto simp: enumerates_def)

lemma enumerates_error: "entries 0 = Some None \<Longrightarrow> \<not> enumerates entries es"
  by (cases es) (auto simp: enumerates_def)

lemma enumerates_Some:
  assumes "entries 0 = Some (Some e)"
  shows "enumerates entries es \<longleftrightarrow>
    (\<exists>es'. es = e # es' \<and> enumerates (\<lambda>i. entries (Suc i)) es')"
  using assms by (cases es) (auto simp: enumerates_def less_Suc_eq_0_disj)

definition matches_rest :: "fat_entry list \<Rightarrow> (string \<times> bool) list \<Rightarrow> bool" where
  "matches_rest es expected \<longleftrightarrow>
     (\<exists>rest. expected = map entry_key es @ rest) \<and> list_all fixed_stamp es"

lemma matches_rest_Nil [simp]: "matches_rest [] expected"
  by (simp add: matches_rest_def)

lemma matches_rest_Cons:
  "matches_rest (e # es) expected \<longleftrightarrow>
     expected \<noteq> [] \<and> hd expected = entry_key e \<and> fixed_stamp e \<and> matches_rest es (tl expected)"
  by (cases expected) (auto simp: matches_rest_def)

lemma ensure_fixed_timestamp_eq:
  "ensure_fixed_timestamp e =
     (if fixed_stamp e then Ok () else Err ''ESP directory entry has a noncanonical timestamp'')"
  by (simp add: ensure_fixed_timestamp_def fixed_stamp_def ensure_def)

lemma directory_loop_skip:
  assumes "entries raw = Some (Some e)" and "raw + 1 \<le> length expected + 2" and "\<not> proper_entry e"
  shows "directory_loop entries expected raw observed = directory_loop entries expected (raw + 1) observed"
  using assms by (subst directory_loop.simps) (auto simp: Let_def proper_entry_def)

lemma directory_loop_entry:
  assumes "entries raw = Some (Some e)" and "raw + 1 \<le> length expected + 2" and "proper_entry e"
    and "observed < length expected \<and> expected ! observed = entry_key e \<and> fixed_stamp e"
  shows "directory_loop entries expected raw observed = directory_loop entries expected (raw + 1) (observed + 1)"
  using assms
  by (subst directory_loop.simps)
    (auto simp: Let_def proper_entry_def entry_key_def ensure_fixed_timestamp_eq prod_eq_iff)

lemma directory_loop_refuse:
  assumes "entries raw = Some (Some e)" and "raw + 1 \<le> length expected + 2" and "proper_entry e"
    and "\<not> (observed < length expected \<and> expected ! observed = entry_key e \<and> fixed_stamp e)"
  shows "directory_loop entries expected raw observed \<noteq> Ok m"
  using assms
  by (subst directory_loop.simps)
    (auto simp: Let_def proper_entry_def entry_key_def ensure_fixed_timestamp_eq prod_eq_iff)

lemma directory_loop_Ok_iff:
  assumes "raw \<le> length expected + 2"
  shows "directory_loop entries expected raw observed = Ok m \<longleftrightarrow>
    (\<exists>es. enumerates (\<lambda>i. entries (raw + i)) es \<and> raw + length es \<le> length expected + 2 \<and>
      matches_rest (filter proper_entry es) (drop observed expected) \<and>
      m = observed + length (filter proper_entry es))"
  using assms
proof (induction entries expected raw observed rule: directory_loop.induct)
  case (1 entries expected raw observed)
  let ?E = "\<lambda>i. entries (raw + i)"
  consider (end_reached) "entries raw = None" | (bad) "entries raw = Some None"
    | (entry) e where "entries raw = Some (Some e)"
    by (cases "entries raw") (auto split: option.splits)
  then show ?case
  proof cases
    case end_reached
    then show ?thesis
      using 1(3) by (subst directory_loop.simps) (auto simp: enumerates_None)
  next
    case bad
    then show ?thesis
      by (subst directory_loop.simps) (auto simp: enumerates_error)
  next
    case entry
    have split_es: "enumerates ?E es \<longleftrightarrow>
        (\<exists>es'. es = e # es' \<and> enumerates (\<lambda>i. entries (raw + 1 + i)) es')" for es
      using enumerates_Some [of ?E e es] entry by simp
    show ?thesis
    proof (cases "raw + 1 \<le> length expected + 2")
      case False
      then show ?thesis
        using entry by (subst directory_loop.simps) (auto simp: split_es Let_def)
    next
      case bound: True
      show ?thesis
      proof (cases "proper_entry e")
        case False
        have "directory_loop entries expected (raw + 1) observed = Ok m \<longleftrightarrow>
            (\<exists>es. enumerates (\<lambda>i. entries (raw + 1 + i)) es \<and> raw + 1 + length es \<le> length expected + 2 \<and>
              matches_rest (filter proper_entry es) (drop observed expected) \<and>
              m = observed + length (filter proper_entry es))"
          by (rule 1(1) [OF entry refl refl]) (use bound False in \<open>simp_all add: proper_entry_def\<close>)
        then show ?thesis
          using False by (auto simp: split_es directory_loop_skip [of entries raw e expected, OF entry bound False])
      next
        case proper: True
        show ?thesis
        proof (cases "observed < length expected \<and> expected ! observed = entry_key e \<and> fixed_stamp e")
          case False
          then have "directory_loop entries expected raw observed \<noteq> Ok m"
            by (rule directory_loop_refuse [of entries raw e expected, OF entry bound proper])
          then show ?thesis
            using False proper by (auto simp: split_es matches_rest_Cons hd_drop_conv_nth)
        next
          case True
          note step = directory_loop_entry [of entries raw e expected, OF entry bound proper True]
          have "directory_loop entries expected (raw + 1) (observed + 1) = Ok m \<longleftrightarrow>
              (\<exists>es. enumerates (\<lambda>i. entries (raw + 1 + i)) es \<and> raw + 1 + length es \<le> length expected + 2 \<and>
                matches_rest (filter proper_entry es) (drop (observed + 1) expected) \<and>
                m = observed + 1 + length (filter proper_entry es))"
            by (rule 1(2) [OF entry refl refl])
              (use bound True proper in \<open>simp_all add: proper_entry_def entry_key_def\<close>)
          then show ?thesis
            using True proper
            by (auto simp: step split_es matches_rest_Cons hd_drop_conv_nth tl_drop drop_Suc)
        qed
      qed
    qed
  qed
qed

lemma directory_loop_not_Panic: "directory_loop entries expected raw observed \<noteq> Panic"
proof (induction entries expected raw observed rule: directory_loop.induct)
  case (1 entries expected raw observed)
  then show ?case
    by (subst directory_loop.simps)
      (auto simp: Let_def ensure_fixed_timestamp_eq outcome_simps split: option.splits)
qed

lemma validate_directory_not_Panic: "validate_directory entries expected \<noteq> Panic"
  by (simp add: validate_directory_def outcome_simps directory_loop_not_Panic)

text \<open>
  C28: the directory check terminates on every enumeration, also an endless one, never panics, and
  accepts exactly the directories that list the expected entries in order with the fixed timestamps,
  apart from at most two dot entries.
\<close>

theorem directory_exact:
  "(validate_directory entries expected = Ok () \<longleftrightarrow>
     (\<exists>es. enumerates entries es \<and> length es \<le> length expected + 2 \<and>
        map entry_key (filter proper_entry es) = expected \<and>
        list_all fixed_stamp (filter proper_entry es))) \<and>
   validate_directory entries expected \<noteq> Panic"
proof
  have "validate_directory entries expected = Ok () \<longleftrightarrow>
      (\<exists>es. enumerates entries es \<and> length es \<le> length expected + 2 \<and>
        matches_rest (filter proper_entry es) expected \<and>
        length expected = length (filter proper_entry es))"
    using directory_loop_Ok_iff [of 0 expected entries 0]
    by (auto simp: validate_directory_def and_then_Ok_iff ensure_Ok_iff)
  moreover have "matches_rest es expected \<and> length expected = length es \<longleftrightarrow>
      map entry_key es = expected \<and> list_all fixed_stamp es" for es
    by (auto simp: matches_rest_def)
  ultimately show "validate_directory entries expected = Ok () \<longleftrightarrow>
      (\<exists>es. enumerates entries es \<and> length es \<le> length expected + 2 \<and>
        map entry_key (filter proper_entry es) = expected \<and>
        list_all fixed_stamp (filter proper_entry es))" by simp
  show "validate_directory entries expected \<noteq> Panic"
    by (rule validate_directory_not_Panic)
qed

section \<open>Files\<close>

interpretation esp_file: chunked_reader "\<lambda>i. reads i (8 * 1024)" "8 * 1024" maximum reserve
    "''failed to read ESP file''" "''ESP file length overflowed''" "''ESP file exceeds its limit''"
    "''failed to reserve bounded storage for ESP file''" "read_fat_loop reserve reads maximum"
    for reads maximum reserve
  by unfold_locales (subst read_fat_loop.simps, simp add: Let_def usize_checked_add_def)+

text \<open>A reader never reports more bytes than its buffer holds.\<close>

definition reads_fit :: "('u, 'g, 'v, 'd) image_crates \<Rightarrow> bool" where
  "reads_fit ic \<longleftrightarrow> (\<forall>d path reads i n data.
     ic_open_file ic d path = Some reads \<and> reads i n = Some data \<longrightarrow> length data \<le> n)"

lemma read_fat_file_not_Panic:
  assumes "reads_fit ic"
  shows "read_fat_file ic d path maximum \<noteq> Panic"
proof (cases "ic_open_file ic d path")
  case (Some reads)
  have "length data \<le> 8 * 1024" if "reads i (8 * 1024) = Some data" for i data
    using assms Some that unfolding reads_fit_def by blast
  then show ?thesis
    using esp_file.loop_not_Panic [where reads = reads and i = 0] Some
    by (simp add: read_fat_file_def)
qed (simp add: read_fat_file_def)

lemma read_fat_file_bound: "read_fat_file ic d path maximum = Ok bytes \<Longrightarrow> length bytes \<le> maximum"
  by (auto simp: read_fat_file_def split: option.splits dest: esp_file.loop_bound)

section \<open>Digests\<close>

lemma nth_hex_inj: "m < 16 \<Longrightarrow> n < 16 \<Longrightarrow> hex_digit m = hex_digit n \<longleftrightarrow> m = n"
proof -
  have "distinct ''0123456789abcdef''" by simp
  then show "m < 16 \<Longrightarrow> n < 16 \<Longrightarrow> hex_digit m = hex_digit n \<longleftrightarrow> m = n"
    unfolding hex_digit_def by (subst nth_eq_iff_index_eq) simp_all
qed

lemma byte_nibbles:
  fixes a b :: u8
  assumes "drop_bit 4 a = drop_bit 4 b" and "a AND 0x0f = b AND 0x0f"
  shows "a = b"
proof -
  have "push_bit 4 (drop_bit 4 x) + (x AND 0x0f) = x" for x :: u8
    using bits_ident [of 4 x] by (simp add: take_bit_eq_mask mask_eq_exp_minus_1)
  then show ?thesis using assms by metis
qed

lemma hex_pair_inj:
  fixes a b :: u8
  assumes "hex_digit (unat (drop_bit 4 a)) = hex_digit (unat (drop_bit 4 b))"
    and "hex_digit (unat (a AND 0x0f)) = hex_digit (unat (b AND 0x0f))"
  shows "a = b"
proof (rule byte_nibbles)
  have high: "unat (drop_bit 4 x) < 16" for x :: u8
    using unsigned_less [of x, where 'a = nat]
    by (simp add: drop_bit_eq_div unat_div_distrib less_mult_imp_div_less)
  have low: "unat (x AND 0x0f) < 16" for x :: u8
  proof -
    have "x AND 0x0f = take_bit 4 x" by (simp add: take_bit_eq_mask mask_eq_exp_minus_1)
    then show ?thesis by (simp add: take_bit_eq_mod unat_mod_distrib)
  qed
  show "drop_bit 4 a = drop_bit 4 b"
    using assms(1) high [of a] high [of b]
    by (intro unsigned_word_eqI [where 'a = nat]) (simp add: nth_hex_inj)
  show "a AND 0x0f = b AND 0x0f"
    using assms(2) low [of a] low [of b]
    by (intro unsigned_word_eqI [where 'a = nat]) (simp add: nth_hex_inj)
qed

lemma sha256_hex_eq_iff: "sha256_hex ic a = sha256_hex ic b \<longleftrightarrow> ic_digest ic a = ic_digest ic b"
proof -
  let ?f = "\<lambda>b :: u8. [hex_digit (unat (drop_bit 4 b)), hex_digit (unat (b AND 0x0f))]"
  have inj: "concat (map ?f xs) = concat (map ?f ys) \<Longrightarrow> xs = ys" for xs ys
  proof (induction xs arbitrary: ys)
    case (Cons x xs)
    then show ?case by (cases ys) (auto intro: hex_pair_inj)
  qed (case_tac ys; simp)
  show ?thesis unfolding sha256_hex_def by (rule iffI, erule inj, simp)
qed

section \<open>Validated and built images\<close>

lemma ensure_zero_not_Panic: "ensure_zero bytes e \<noteq> Panic"
  by (simp add: ensure_zero_def ensure_not_Panic)

lemma gpt_header_not_Panic:
  "length header = 512 \<Longrightarrow> validate_raw_gpt_header header a b c \<noteq> Panic"
  unfolding validate_raw_gpt_header_def
  by (intro and_then_not_Panic ensure_not_Panic ensure_zero_not_Panic) (simp_all add: slice_at_simp)

lemma raw_gpt_not_Panic:
  assumes "length disk = DISK_BYTES"
  shows "validate_raw_gpt_layout disk \<noteq> Panic"
proof -
  have entries: "length e = 16384" if "lba_range disk 2 (2 + GPT_ENTRY_ARRAY_SECTORS) = Ok e" for e
    using that lba_range_eq [of 2 34 disk]
    by (auto simp: GPT_ENTRY_ARRAY_SECTORS_def assms DISK_BYTES_def)
  have primary: "length s = 512" if "sector disk 1 = Ok s" for s
    using that sector_eq [of 1 disk] by (auto simp: assms DISK_BYTES_def)
  have backup: "length s = 512" if "sector disk BACKUP_GPT_HEADER_LBA = Ok s" for s
    using that sector_eq [of BACKUP_GPT_HEADER_LBA disk]
    by (auto simp: assms DISK_BYTES_def BACKUP_GPT_HEADER_LBA_def)
  show ?thesis
    unfolding validate_raw_gpt_layout_def
    by (intro and_then_not_Panic ensure_not_Panic ensure_zero_not_Panic lba_range_not_Panic
        sector_not_Panic gpt_header_not_Panic)
      (auto dest: primary backup entries
        simp: slice_at_simp assms DISK_BYTES_def GPT_ENTRY_BYTES_def GPT_ENTRY_COUNT_def)
qed

lemma esp_offsets:
  "lba_to_offset ESP_FIRST_LBA = Ok 1048576" "lba_to_offset (ESP_LAST_LBA + 1) = Ok 66060288"
  by (simp_all add: lba_to_offset_def ESP_FIRST_LBA_def ESP_LAST_LBA_def LOGICAL_BLOCK_BYTES_def
      checked_mul_def)

lemma validate_gpt_not_Panic: "validate_gpt ic disk \<noteq> Panic"
  by (simp add: validate_gpt_def parse_uuid_def outcome_simps)

lemma validate_volume_not_Panic: "length part < usize_limit \<Longrightarrow> validate_volume ic part \<noteq> Panic"
  by (simp add: validate_volume_def outcome_simps raw_fat32_not_Panic)

lemma validate_tree_not_Panic: "validate_tree ic root \<noteq> Panic"
  by (simp add: validate_tree_def outcome_simps validate_directory_not_Panic)

lemma validate_kernel_elf_Ok_iff: "validate_kernel_elf bytes = Ok () \<longleftrightarrow> (\<exists>v. elf_parse bytes = Ok v)"
  by (cases "elf_parse bytes") (simp_all add: validate_kernel_elf_def)

lemma validate_kernel_elf_not_Panic: "validate_kernel_elf bytes \<noteq> Panic"
  using elf_parse_not_Panic [of bytes] by (cases "elf_parse bytes") (simp_all add: validate_kernel_elf_def)

lemma parse_scenario_not_Panic: "parse_scenario bytes \<noteq> Panic"
  by (simp add: parse_scenario_def scenario_from_str_def)

lemma map_err_not_Panic: "r \<noteq> Panic \<Longrightarrow> map_err f r \<noteq> Panic"
  by (cases r) simp_all

lemma validate_image_not_Panic:
  assumes "reads_fit ic"
  shows "validate_image_bytes ic disk \<noteq> Panic"
proof (cases "length disk = DISK_BYTES")
  case True
  have slice: "slice_at disk 1048576 66060288 = (Ok (take 65011712 (drop 1048576 disk)) :: (message, _) outcome)"
    using True by (simp add: slice_at_simp DISK_BYTES_def)
  have "validate_volume ic (take 65011712 (drop 1048576 disk)) \<noteq> Panic"
    using True by (intro validate_volume_not_Panic) (simp add: DISK_BYTES_def)
  then show ?thesis
    unfolding validate_image_bytes_def
    by (auto simp: esp_offsets slice outcome_simps raw_gpt_not_Panic [OF True] validate_gpt_not_Panic
        validate_tree_not_Panic read_fat_file_not_Panic [OF assms] validate_uefi_loader_not_Panic
        validate_kernel_elf_not_Panic map_err_not_Panic parse_scenario_not_Panic split: prod.splits)
qed (simp add: validate_image_bytes_def)

text \<open>The bytes of the partition in an image, and what an accepted image is known to hold.\<close>

definition esp_of :: "u8 list \<Rightarrow> u8 list" where
  "esp_of disk = take 65011712 (drop 1048576 disk)"

lemma image_scenario_cases: "\<exists>t. s = image_scenario_of t"
proof (cases s)
  case ImgNormal
  then show ?thesis by (intro exI [of _ Normal]) simp
next
  case ImgBadVersion
  then show ?thesis by (intro exI [of _ IncompatibleVersion]) simp
next
  case ImgTruncated
  then show ?thesis by (intro exI [of _ TruncatedContract]) simp
next
  case ImgPanic
  then show ?thesis by (intro exI [of _ DeliberatePanic]) simp
qed

lemma validate_volume_mounted:
  "validate_volume ic part = Ok root \<Longrightarrow> \<exists>volume. ic_mount ic part = Some volume \<and>
     root = ic_root_dir ic volume \<and> ic_fat_type ic volume = Fat32"
  by (auto simp: validate_volume_def outcome_simps)

lemma validate_image_parts:
  assumes "validate_image_bytes ic disk = Ok m"
  obtains root loader kernel_elf cfg where
    "length disk = DISK_BYTES" "validate_raw_gpt_layout disk = Ok ()"
    "validate_volume ic (esp_of disk) = Ok root" "validate_tree ic root = Ok ()"
    "read_fat_file ic root LOADER_IMAGE_PATH MAX_PAYLOAD_BYTES = Ok loader"
    "read_fat_file ic root KERNEL_IMAGE_PATH MAX_ELF_FILE_SIZE = Ok kernel_elf"
    "read_fat_file ic root SCENARIO_IMAGE_PATH MAX_SCENARIO_FILE_BYTES = Ok cfg"
    "validate_uefi_loader loader = Ok ()" "validate_kernel_elf kernel_elf = Ok ()"
    "parse_scenario cfg = Ok (im_scenario m)"
    "im_image_sha256 m = sha256_hex ic disk" "im_loader_sha256 m = sha256_hex ic loader"
    "im_kernel_sha256 m = sha256_hex ic kernel_elf"
proof -
  have map_err_Ok: "map_err f r = Ok x \<longleftrightarrow> r = Ok x" for f and r :: "(image_scenario_error, image_scenario) outcome" and x
    by (cases r) simp_all
  show ?thesis
    using assms that
    by (auto simp: validate_image_bytes_def outcome_simps esp_offsets slice_at_Ok_iff map_err_Ok esp_of_def
        split: prod.splits)
qed

text \<open>
  C29: an image that passes validation can be booted by the loader: its GPT layout and directory
  tree are canonical, its partition mounts, the kernel file in it is one that the loader's parser
  accepts, the configuration file is one that the loader reads as the scenario of the manifest, and
  the manifest carries the digests of exactly these bytes.
\<close>

theorem validated_image_bootable:
  "case validate_image_bytes ic disk of
     Ok m \<Rightarrow> \<exists>volume loader kernel_elf cfg v s.
       length disk = DISK_BYTES \<and> ic_mount ic (esp_of disk) = Some volume \<and>
       validate_tree ic (ic_root_dir ic volume) = Ok () \<and>
       read_fat_file ic (ic_root_dir ic volume) LOADER_IMAGE_PATH MAX_PAYLOAD_BYTES = Ok loader \<and>
       read_fat_file ic (ic_root_dir ic volume) KERNEL_IMAGE_PATH MAX_ELF_FILE_SIZE = Ok kernel_elf \<and>
       read_fat_file ic (ic_root_dir ic volume) SCENARIO_IMAGE_PATH MAX_SCENARIO_FILE_BYTES = Ok cfg \<and>
       elf_parse kernel_elf = Ok v \<and> elf_image_ok kernel_elf \<and>
       scenario_parse cfg = Ok s \<and> im_scenario m = image_scenario_of s \<and>
       im_image_sha256 m = sha256_hex ic disk \<and> im_loader_sha256 m = sha256_hex ic loader \<and>
       im_kernel_sha256 m = sha256_hex ic kernel_elf
   | _ \<Rightarrow> True"
proof (cases "validate_image_bytes ic disk")
  case (Ok m)
  obtain root loader kernel_elf cfg where parts:
    "length disk = DISK_BYTES" "validate_volume ic (esp_of disk) = Ok root" "validate_tree ic root = Ok ()"
    "read_fat_file ic root LOADER_IMAGE_PATH MAX_PAYLOAD_BYTES = Ok loader"
    "read_fat_file ic root KERNEL_IMAGE_PATH MAX_ELF_FILE_SIZE = Ok kernel_elf"
    "read_fat_file ic root SCENARIO_IMAGE_PATH MAX_SCENARIO_FILE_BYTES = Ok cfg"
    "validate_kernel_elf kernel_elf = Ok ()" "parse_scenario cfg = Ok (im_scenario m)"
    "im_image_sha256 m = sha256_hex ic disk" "im_loader_sha256 m = sha256_hex ic loader"
    "im_kernel_sha256 m = sha256_hex ic kernel_elf"
    using validate_image_parts [OF Ok] by metis
  obtain volume where volume: "ic_mount ic (esp_of disk) = Some volume" "root = ic_root_dir ic volume"
    using validate_volume_mounted [OF parts(2)] by blast
  obtain v where v: "elf_parse kernel_elf = Ok v"
    using parts(7) by (auto simp: validate_kernel_elf_Ok_iff)
  then have policy: "elf_image_ok kernel_elf" by (simp add: elf_parse_Ok_iff)
  obtain s where s: "im_scenario m = image_scenario_of s"
    using image_scenario_cases by blast
  then have "scenario_parse cfg = Ok s"
    using parts(8) by (simp add: parse_scenario_Ok_iff scenario_parse_Ok_iff)
  then show ?thesis
    using Ok parts volume v policy s by auto
qed simp_all

text \<open>
  C30: the image builder is checked against what it wrote.  A built image passes validation with the
  returned manifest; the loader and kernel files read back from its partition have the SHA-256
  digests of the two inputs, and the scenario is the requested one.
\<close>

theorem built_image_reads_back:
  "case build_image_bytes ic loader kernel_elf scenario of
     Ok (disk, m) \<Rightarrow> validate_image_bytes ic disk = Ok m \<and> length disk = DISK_BYTES \<and>
       im_scenario m = scenario \<and> elf_image_ok kernel_elf \<and> length loader \<le> MAX_PAYLOAD_BYTES \<and>
       (\<exists>volume l k. ic_mount ic (esp_of disk) = Some volume \<and>
          read_fat_file ic (ic_root_dir ic volume) LOADER_IMAGE_PATH MAX_PAYLOAD_BYTES = Ok l \<and>
          read_fat_file ic (ic_root_dir ic volume) KERNEL_IMAGE_PATH MAX_ELF_FILE_SIZE = Ok k \<and>
          ic_digest ic l = ic_digest ic loader \<and> ic_digest ic k = ic_digest ic kernel_elf)
   | _ \<Rightarrow> True"
proof (cases "build_image_bytes ic loader kernel_elf scenario")
  case (Ok built)
  obtain disk m where built: "built = (disk, m)" by (cases built)
  have b: "validate_image_bytes ic disk = Ok m" "im_scenario m = scenario"
    "validate_kernel_elf kernel_elf = Ok ()" "length loader \<le> MAX_PAYLOAD_BYTES"
    "im_loader_sha256 m = sha256_hex ic loader" "im_kernel_sha256 m = sha256_hex ic kernel_elf"
    using Ok by (auto simp: built build_image_bytes_def Let_def outcome_simps)
  obtain root l k where parts: "length disk = DISK_BYTES" "validate_volume ic (esp_of disk) = Ok root"
    "read_fat_file ic root LOADER_IMAGE_PATH MAX_PAYLOAD_BYTES = Ok l"
    "read_fat_file ic root KERNEL_IMAGE_PATH MAX_ELF_FILE_SIZE = Ok k"
    "im_loader_sha256 m = sha256_hex ic l" "im_kernel_sha256 m = sha256_hex ic k"
    using validate_image_parts [OF b(1)] by metis
  have "ic_digest ic l = ic_digest ic loader" "ic_digest ic k = ic_digest ic kernel_elf"
    using b(5,6) parts(5,6) by (simp_all add: sha256_hex_eq_iff)
  moreover have "elf_image_ok kernel_elf"
    using b(3) by (auto simp: validate_kernel_elf_Ok_iff elf_parse_Ok_iff)
  ultimately show ?thesis
    using Ok b parts validate_volume_mounted [OF parts(2)] by (auto simp: built)
qed simp_all

text \<open>
  C31: neither validation nor construction of an image panics, whatever bytes they are given and
  whatever the crates answer, as long as a read reports no more bytes than its buffer holds.
\<close>

theorem image_tool_never_panics:
  assumes "reads_fit ic"
  shows "validate_image_bytes ic disk \<noteq> Panic \<and> build_image_bytes ic loader kernel_elf scenario \<noteq> Panic"
proof -
  have "create_gpt_disk ic \<noteq> Panic"
    by (simp add: create_gpt_disk_def Let_def parse_uuid_def outcome_simps)
  moreover have "format_esp ic d l k c \<noteq> Panic" for d l k c
    by (simp add: format_esp_def write_fat_file_def esp_offsets outcome_simps)
  ultimately show ?thesis
    by (simp add: build_image_bytes_def Let_def outcome_simps validate_image_not_Panic [OF assms]
        validate_uefi_loader_not_Panic validate_kernel_elf_not_Panic)
qed

text \<open>Crates that fail every call, except that every file is empty.\<close>

definition bare_crates :: "(unit, unit, unit, unit) image_crates" where
  "bare_crates =
     \<lparr>ic_parse_uuid = \<lambda>_. None, ic_uuid_string = \<lambda>_. [], ic_efi_type = (), ic_overwrite_lba0 = \<lambda>_ _. None,
      ic_create_from_device = \<lambda>_ _. None, ic_update_partitions = \<lambda>_ _. None, ic_gpt_write = \<lambda>_. None,
      ic_open_from_device = \<lambda>_. None, ic_gpt_guid = \<lambda>_. (), ic_partitions = \<lambda>_. [],
      ic_format_volume = \<lambda>_ _. None, ic_mount = \<lambda>_. None, ic_fat_type = \<lambda>_. Fat32, ic_volume_id = \<lambda>_. 0,
      ic_volume_label = \<lambda>_. [], ic_root_dir = \<lambda>_. (), ic_create_dir = \<lambda>_ _. None,
      ic_create_file = \<lambda>_ _. None, ic_write_all = \<lambda>_ _ _. None, ic_flush = \<lambda>_ _. None,
      ic_unmount = \<lambda>_. None, ic_entry = \<lambda>_ _. None, ic_open_dir = \<lambda>_ _. None,
      ic_open_file = \<lambda>_ _. Some (\<lambda>_ _. Some []), ic_reserve = \<lambda>_ _. True, ic_digest = \<lambda>_. []\<rparr>"

theorem image_tool_never_panics_witness:
  "reads_fit bare_crates \<and> validate_image_bytes bare_crates [0, 1] \<noteq> Panic \<and>
   build_image_bytes bare_crates [0x4d, 0x5a] [] ImgNormal \<noteq> Panic"
proof -
  have "reads_fit bare_crates" by (auto simp: reads_fit_def bare_crates_def)
  then show ?thesis
    using image_tool_never_panics [of bare_crates "[0, 1]" "[0x4d, 0x5a]" "[]" ImgNormal] by simp
qed

end
