(* ===== verification/Xtask_Observer.thy ===== *)
theory Xtask_Observer
  imports Xtask_Protocol "HOL-Library.Sublist"
begin

text \<open>
  Observing a running emulator (\<^verbatim>\<open>crates/xtask/src/qemu.rs\<close>): the incremental log cursor and the
  ready-marker observer.  A log file is seen through a view: whether it opens, its length, and what
  a read at an offset delivers.  Durations are nanoseconds as natural numbers.
\<close>

section \<open>Log views\<close>

datatype open_result = Opened | NotFound | OpenFailed

record log_view =
  lv_open :: open_result
  lv_len :: "usize option"
  lv_seek :: bool
  lv_read :: "usize \<Rightarrow> usize \<Rightarrow> u8 list option"

datatype io_error = IoError

definition u64_saturating_add :: "nat \<Rightarrow> nat \<Rightarrow> nat" where
  "u64_saturating_add a b = min (a + b) (2 ^ 64 - 1)"

section \<open>The log cursor\<close>

definition MAX_OBSERVED_LOG_BYTES :: nat where "MAX_OBSERVED_LOG_BYTES = 4 * 1024 * 1024"

definition CURSOR_BUFFER_BYTES :: usize where "CURSOR_BUFFER_BYTES = 4096"

record log_cursor =
  lc_path :: string
  lc_offset :: nat
  lc_scanned :: nat
  lc_pending_line :: "u8 list"
  lc_discarding_overlong_line :: bool

definition log_cursor_new :: "string \<Rightarrow> log_cursor" where
  "log_cursor_new path =
     \<lparr>lc_path = path, lc_offset = 0, lc_scanned = 0, lc_pending_line = [],
      lc_discarding_overlong_line = False\<rparr>"

text \<open>The loop over one buffer; it stops at the first matching line.\<close>

fun scan_bytes :: "u8 list \<Rightarrow> u8 list \<Rightarrow> u8 list \<times> bool \<Rightarrow> bool \<times> u8 list \<times> bool" where
  "scan_bytes needle [] (pending, discarding) = (False, pending, discarding)"
| "scan_bytes needle (byte # rest) (pending, discarding) =
     (if byte = 0x0A then
        let line = strip_cr pending; found = (\<not> discarding \<and> line = needle) in
        if found then (True, [], False) else scan_bytes needle rest ([], False)
      else if \<not> discarding then
        (if length pending < MAX_DIAGNOSTIC_RECORD_BYTES + 1
         then scan_bytes needle rest (pending @ [byte], False)
         else scan_bytes needle rest ([], True))
      else scan_bytes needle rest (pending, discarding))"

definition after_read :: "u8 list \<Rightarrow> u8 list \<Rightarrow> log_cursor \<Rightarrow> bool \<times> log_cursor" where
  "after_read needle data c =
     (let (found, pending, discarding) =
        scan_bytes needle data (lc_pending_line c, lc_discarding_overlong_line c)
      in (found, c\<lparr>lc_offset := u64_saturating_add (lc_offset c) (length data),
                   lc_scanned := u64_saturating_add (lc_scanned c) (length data),
                   lc_pending_line := pending, lc_discarding_overlong_line := discarding\<rparr>))"

function cursor_loop :: "log_view \<Rightarrow> u8 list \<Rightarrow> log_cursor \<Rightarrow> (io_error, bool \<times> log_cursor) outcome" where
  "cursor_loop view needle c =
     (if lc_scanned c < MAX_OBSERVED_LOG_BYTES then
        let remaining = MAX_OBSERVED_LOG_BYTES - lc_scanned c;
            maximum = min remaining CURSOR_BUFFER_BYTES in
        (case lv_read view (lc_offset c) maximum of
           None \<Rightarrow> Err IoError
         | Some data \<Rightarrow>
             if data = [] then Ok (False, c)
             else if CURSOR_BUFFER_BYTES < length data then Panic
             else
               let (found, c') = after_read needle data c in
               if found then Ok (True, c') else cursor_loop view needle c')
      else Ok (False, c))"
  by auto
termination
proof (relation "measure (\<lambda>(view, needle, c). MAX_OBSERVED_LOG_BYTES - lc_scanned c)", goal_cases)
  case (2 view needle c remaining maximum data p found c')
  then have "lc_scanned c' = u64_saturating_add (lc_scanned c) (length data)"
    by (auto simp: after_read_def split: prod.splits)
  moreover have "0 < length data" using 2 by (cases data) auto
  moreover have "length data \<le> 4096" using 2 by (simp add: CURSOR_BUFFER_BYTES_def)
  ultimately show ?case
    using 2(1) by (simp add: u64_saturating_add_def MAX_OBSERVED_LOG_BYTES_def
        del: length_greater_0_conv)
qed simp

declare cursor_loop.simps [simp del]

definition contains_new :: "log_view \<Rightarrow> u8 list \<Rightarrow> log_cursor \<Rightarrow> (io_error, bool \<times> log_cursor) outcome" where
  "contains_new view needle c =
     (case lv_open view of
        NotFound \<Rightarrow> Ok (False, c)
      | OpenFailed \<Rightarrow> Err IoError
      | Opened \<Rightarrow>
          (case lv_len view of
             None \<Rightarrow> Err IoError
           | Some len \<Rightarrow>
               let c = (if len < lc_offset c
                 then c\<lparr>lc_offset := 0, lc_scanned := 0, lc_pending_line := [],
                        lc_discarding_overlong_line := False\<rparr>
                 else c) in
               if MAX_OBSERVED_LOG_BYTES \<le> lc_scanned c then Ok (False, c)
               else if \<not> lv_seek view then Err IoError
               else cursor_loop view needle c))"

section \<open>The ready-marker observer\<close>

record ready_marker_observer =
  ro_cursors :: "log_cursor list"
  ro_observed_at :: "nat option"

definition observer_new :: "string list \<Rightarrow> ready_marker_observer" where
  "observer_new paths = \<lparr>ro_cursors = map log_cursor_new paths, ro_observed_at = None\<rparr>"

fun observe_cursors ::
    "(string \<Rightarrow> log_view) \<Rightarrow> log_cursor list \<Rightarrow> (io_error, bool \<times> log_cursor list) outcome" where
  "observe_cursors files [] = Ok (False, [])"
| "observe_cursors files (c # cs) =
     and_then (contains_new (files (lc_path c)) READY_MARKER c) (\<lambda>(found, c).
     if found then Ok (True, c # cs)
     else and_then (observe_cursors files cs) (\<lambda>(found, cs). Ok (found, c # cs)))"

text \<open>\<open>now\<close> is \<^verbatim>\<open>started.elapsed()\<close> at the moment of the observation.\<close>

definition observe ::
    "(string \<Rightarrow> log_view) \<Rightarrow> nat \<Rightarrow> ready_marker_observer \<Rightarrow> (io_error, ready_marker_observer) outcome" where
  "observe files now ob =
     (if ro_observed_at ob \<noteq> None then Ok ob
      else
        and_then (observe_cursors files (ro_cursors ob)) (\<lambda>(found, cs).
        Ok (ob\<lparr>ro_cursors := cs, ro_observed_at := (if found then Some now else None)\<rparr>)))"

definition as_millis_u64 :: "nat \<Rightarrow> nat" where
  "as_millis_u64 duration = min (duration div 1000000) (2 ^ 64 - 1)"

definition observed_ms :: "ready_marker_observer \<Rightarrow> nat option" where
  "observed_ms ob = map_option as_millis_u64 (ro_observed_at ob)"

section \<open>Scanning in pieces\<close>

text \<open>The scanner state after a prefix of a log is determined by its unfinished last line.\<close>

definition tail_state :: "u8 list \<Rightarrow> u8 list \<times> bool" where
  "tail_state t = (if length t \<le> 257 then (t, False) else ([], True))"

definition unfinished :: "u8 list \<Rightarrow> u8 list" where
  "unfinished bytes = last (split_bytes 0x0A bytes)"

lemma split_bytes_snoc:
  "split_bytes s (bs @ [b]) = (if b = s then split_bytes s bs @ [[]]
     else butlast (split_bytes s bs) @ [last (split_bytes s bs) @ [b]])"
proof (induction bs)
  case (Cons x xs)
  obtain f fs where fs: "split_bytes s xs = f # fs" by (cases "split_bytes s xs") auto
  then show ?case using Cons by (cases fs) auto
qed simp

lemma unfinished_snoc: "unfinished (bs @ [b]) = (if b = 0x0A then [] else unfinished bs @ [b])"
  by (simp add: unfinished_def split_bytes_snoc)

lemma whole_lines_snoc:
  "whole_lines (bs @ [b]) = (if b = 0x0A then whole_lines bs @ [strip_cr (unfinished bs)] else whole_lines bs)"
proof -
  obtain ls l where ls: "split_bytes 0x0A bs = ls @ [l]"
    by (metis append_butlast_last_id split_bytes_not_Nil)
  then show ?thesis by (simp add: whole_lines_def unfinished_def split_bytes_snoc butlast_append)
qed

lemma strip_cr_length: "length t \<le> length (strip_cr t) + 1"
  by (simp add: strip_cr_def)

lemma whole_lines_mono: "set (whole_lines p) \<subseteq> set (whole_lines (p @ q))"
proof (induction q rule: rev_induct)
  case (snoc b q)
  have "p @ q @ [b] = (p @ q) @ [b]" by simp
  then show ?case using snoc by (simp only: whole_lines_snoc) auto
qed simp

lemma scan_bytes_correct:
  assumes "length needle \<le> 256" "needle \<notin> set (whole_lines p)"
  shows "case scan_bytes needle q (tail_state (unfinished p)) of
    (found, st) \<Rightarrow> (found \<longleftrightarrow> needle \<in> set (whole_lines (p @ q))) \<and>
      (\<not> found \<longrightarrow> st = tail_state (unfinished (p @ q)))"
  using assms(2)
proof (induction q arbitrary: p)
  case Nil
  then show ?case by (cases "tail_state (unfinished p)") simp
next
  case (Cons b q)
  have pq: "p @ b # q = (p @ [b]) @ q" by simp
  have IH: "needle \<notin> set (whole_lines (p @ [b])) \<Longrightarrow>
      case scan_bytes needle q (tail_state (unfinished (p @ [b]))) of
        (found, st) \<Rightarrow> (found \<longleftrightarrow> needle \<in> set (whole_lines ((p @ [b]) @ q))) \<and>
        (\<not> found \<longrightarrow> st = tail_state (unfinished ((p @ [b]) @ q)))"
    by (rule Cons.IH)
  show ?case
  proof (cases "b = 0x0A")
    case True
    let ?u = "unfinished p"
    have lines: "whole_lines (p @ [b]) = whole_lines p @ [strip_cr ?u]" "unfinished (p @ [b]) = []"
      using True by (simp_all add: whole_lines_snoc unfinished_snoc)
    show ?thesis
    proof (cases "strip_cr ?u = needle")
      case hit: True
      then have "length ?u \<le> 257" using assms(1) strip_cr_length [of ?u] by simp
      then have "fst (scan_bytes needle (b # q) (tail_state ?u))"
        using True hit by (simp add: tail_state_def)
      moreover have "needle \<in> set (whole_lines ((p @ [b]) @ q))"
        using whole_lines_mono [of "p @ [b]" q] lines(1) hit by auto
      ultimately show ?thesis unfolding pq by (auto split: prod.splits)
    next
      case False
      then have "scan_bytes needle (b # q) (tail_state ?u) = scan_bytes needle q (tail_state [])"
        using True by (simp add: tail_state_def)
      then show ?thesis using IH False Cons.prems lines unfolding pq by simp
    qed
  next
    case False
    then have "scan_bytes needle (b # q) (tail_state (unfinished p)) =
        scan_bytes needle q (tail_state (unfinished (p @ [b])))"
      by (auto simp: tail_state_def unfinished_snoc MAX_DIAGNOSTIC_RECORD_BYTES_def)
    then show ?thesis using IH False Cons.prems unfolding pq by (simp add: whole_lines_snoc)
  qed
qed


section \<open>The cursor over a growing log\<close>

text \<open>A view of a regular file with the given contents; reads may be short, but not empty early.\<close>

definition serves :: "log_view \<Rightarrow> u8 list \<Rightarrow> bool" where
  "serves view content \<longleftrightarrow>
     lv_open view = Opened \<and> lv_len view = Some (length content) \<and> lv_seek view \<and>
     (\<forall>ofs n. 0 < n \<longrightarrow> (\<exists>k. lv_read view ofs n = Some (take k (drop ofs content)) \<and> 0 < k \<and> k \<le> n))"

lemma serves_read:
  "serves view content \<Longrightarrow> 0 < n \<Longrightarrow>
    \<exists>k. lv_read view ofs n = Some (take k (drop ofs content)) \<and> 0 < k \<and> k \<le> n"
  unfolding serves_def by blast

definition cursor_after :: "log_cursor \<Rightarrow> u8 list \<Rightarrow> bool" where
  "cursor_after c p \<longleftrightarrow> lc_offset c = length p \<and> lc_scanned c = length p \<and>
     length p \<le> MAX_OBSERVED_LOG_BYTES \<and>
     (lc_pending_line c, lc_discarding_overlong_line c) = tail_state (unfinished p)"

definition observed_part :: "u8 list \<Rightarrow> u8 list" where
  "observed_part content = take MAX_OBSERVED_LOG_BYTES content"

lemma cursor_after_new: "cursor_after (log_cursor_new path) []"
  by (simp add: cursor_after_def log_cursor_new_def tail_state_def unfinished_def)

lemma after_read_correct:
  assumes "cursor_after c p" "length needle \<le> 256" "needle \<notin> set (whole_lines p)"
    and "length (p @ data) \<le> MAX_OBSERVED_LOG_BYTES"
  shows "fst (after_read needle data c) \<longleftrightarrow> needle \<in> set (whole_lines (p @ data))"
    and "\<not> fst (after_read needle data c) \<Longrightarrow> cursor_after (snd (after_read needle data c)) (p @ data)"
    and "lc_path (snd (after_read needle data c)) = lc_path c"
  using assms scan_bytes_correct [OF assms(2,3), of data]
  by (auto simp: after_read_def cursor_after_def u64_saturating_add_def MAX_OBSERVED_LOG_BYTES_def
      split: prod.splits)

lemma cursor_loop_step:
  assumes "lc_scanned c < MAX_OBSERVED_LOG_BYTES"
    and "lv_read view (lc_offset c) (min (MAX_OBSERVED_LOG_BYTES - lc_scanned c) CURSOR_BUFFER_BYTES) =
      Some data"
    and "data \<noteq> []" and "length data \<le> CURSOR_BUFFER_BYTES"
  shows "cursor_loop view needle c =
    (if fst (after_read needle data c) then Ok (True, snd (after_read needle data c))
     else cursor_loop view needle (snd (after_read needle data c)))"
  using assms by (subst cursor_loop.simps) (simp add: Let_def split: prod.splits)

lemma observed_part_lines:
  assumes "prefix q content" and "length q \<le> MAX_OBSERVED_LOG_BYTES" and "line \<in> set (whole_lines q)"
  shows "line \<in> set (whole_lines (observed_part content))"
proof -
  obtain r where r: "content = q @ r" using assms(1) by (auto simp: prefix_def)
  have "observed_part content = q @ take (MAX_OBSERVED_LOG_BYTES - length q) r"
    unfolding observed_part_def r take_append using assms(2) by (simp only: take_all)
  then show ?thesis using assms(3) whole_lines_mono by fastforce
qed

lemma cursor_loop_correct:
  assumes "serves view content" "cursor_after c p" "prefix p content"
    and "length needle \<le> 256" "needle \<notin> set (whole_lines p)"
  shows "\<exists>found c'. cursor_loop view needle c = Ok (found, c') \<and> lc_path c' = lc_path c \<and>
    (found \<longleftrightarrow> needle \<in> set (whole_lines (observed_part content))) \<and>
    (\<not> found \<longrightarrow> cursor_after c' (observed_part content))"
  using assms
proof (induction "MAX_OBSERVED_LOG_BYTES - length p" arbitrary: c p rule: less_induct)
  case less
  let ?M = MAX_OBSERVED_LOG_BYTES
  have ofs: "lc_offset c = length p" "lc_scanned c = length p" "length p \<le> ?M"
    using less.prems(2) by (simp_all add: cursor_after_def)
  obtain r where r: "content = p @ r" using less.prems(3) by (auto simp: prefix_def)
  show ?case
  proof (cases "length p < ?M")
    case False
    then have "observed_part content = p" using ofs r by (simp add: observed_part_def)
    then show ?thesis
      using False ofs less.prems
      by (intro exI [of _ False] exI [of _ c], subst cursor_loop.simps) simp
  next
    case True
    define n where "n = min (?M - length p) CURSOR_BUFFER_BYTES"
    have "0 < n" using True by (simp add: n_def CURSOR_BUFFER_BYTES_def)
    then obtain k where k: "lv_read view (length p) n = Some (take k r)" "0 < k" "k \<le> n"
      using serves_read [OF less.prems(1), of n "length p"] by (auto simp: r)
    show ?thesis
    proof (cases "r = []")
      case True
      then have part: "observed_part content = p" using ofs r by (simp add: observed_part_def)
      have "lv_read view (lc_offset c) (min (?M - lc_scanned c) CURSOR_BUFFER_BYTES) = Some []"
        using k(1) True by (simp add: ofs n_def)
      then have "cursor_loop view needle c = Ok (False, c)"
        using \<open>length p < ?M\<close> by (subst cursor_loop.simps) (simp add: ofs Let_def)
      then show ?thesis using part less.prems(2,5) by blast
    next
      case False
      let ?d = "take k r"
      have d: "?d \<noteq> []" using False k by simp
      have len: "length (p @ ?d) \<le> ?M" "length ?d \<le> CURSOR_BUFFER_BYTES"
        using k(3) True by (auto simp: n_def min_le_iff_disj)
      note ar = after_read_correct [OF less.prems(2,4,5) len(1)]
      have step: "cursor_loop view needle c =
          (if fst (after_read needle ?d c) then Ok (True, snd (after_read needle ?d c))
           else cursor_loop view needle (snd (after_read needle ?d c)))"
        using k(1) True d len(2) by (intro cursor_loop_step) (simp_all only: ofs n_def not_False_eq_True)
      have pre: "prefix (p @ ?d) content"
        by (rule prefixI [of _ _ "drop k r"]) (simp add: r)
      show ?thesis
      proof (cases "fst (after_read needle ?d c)")
        case True
        have "needle \<in> set (whole_lines (observed_part content))"
          using ar(1) True by (intro observed_part_lines [OF pre len(1)]) blast
        then show ?thesis using True step ar(3) by (intro exI [of _ True]) simp
      next
        case False
        have "?M - length (p @ ?d) < ?M - length p"
          using \<open>length p < ?M\<close> d
          unfolding length_append length_greater_0_conv [symmetric] by linarith
        from less.hyps [OF this less.prems(1) ar(2) [OF False] pre less.prems(4)] ar(1,3) False step
        show ?thesis by simp
      qed
    qed
  qed
qed

lemma contains_new_correct:
  assumes "serves view content" "cursor_after c p" "prefix p content"
    and "length needle \<le> 256" "needle \<notin> set (whole_lines p)"
  shows "\<exists>found c'. contains_new view needle c = Ok (found, c') \<and> lc_path c' = lc_path c \<and>
    (found \<longleftrightarrow> needle \<in> set (whole_lines (observed_part content))) \<and>
    (\<not> found \<longrightarrow> cursor_after c' (observed_part content))"
proof -
  have p: "lc_offset c = length p" "lc_scanned c = length p" "length p \<le> MAX_OBSERVED_LOG_BYTES"
    using assms(2) by (simp_all add: cursor_after_def)
  have keep: "\<not> length content < length p" using assms(3) by (simp add: prefix_length_le leD)
  have "contains_new view needle c =
      (if MAX_OBSERVED_LOG_BYTES \<le> length p then Ok (False, c) else cursor_loop view needle c)"
    using assms(1) p keep by (simp add: contains_new_def serves_def)
  moreover have "cursor_loop view needle c = Ok (False, c)" if "MAX_OBSERVED_LOG_BYTES \<le> length p"
    using that p by (subst cursor_loop.simps) simp
  ultimately have "contains_new view needle c = cursor_loop view needle c" by simp
  then show ?thesis using cursor_loop_correct [OF assms] by simp
qed

text \<open>Polling one log at given times: \<open>polls\<close> pairs the elapsed time with the log contents then.\<close>

fun observe_polls ::
    "(nat \<times> (string \<Rightarrow> log_view)) list \<Rightarrow> ready_marker_observer \<Rightarrow> (io_error, ready_marker_observer) outcome" where
  "observe_polls [] ob = Ok ob"
| "observe_polls ((now, files) # polls) ob =
     and_then (observe files now ob) (\<lambda>ob. observe_polls polls ob)"

definition ready_in :: "u8 list \<Rightarrow> bool" where
  "ready_in content \<longleftrightarrow> READY_MARKER \<in> set (whole_lines (observed_part content))"

fun first_ready :: "(nat \<times> u8 list) list \<Rightarrow> nat option" where
  "first_ready [] = None"
| "first_ready ((now, content) # polls) = (if ready_in content then Some now else first_ready polls)"

lemma READY_MARKER_length: "length READY_MARKER \<le> 256"
  by (simp add: READY_MARKER_def)

lemma observe_polls_done: "ro_observed_at ob = Some t \<Longrightarrow> observe_polls polls ob = Ok ob"
  by (induction polls) (auto simp: observe_def)

lemma observe_polls_from:
  assumes "list_all2 (\<lambda>(t, files) (t', content). t = t' \<and> serves (files path) content) polls logs"
    and "sorted_wrt prefix (p # map snd logs)" and "cursor_after c (observed_part p)" and "\<not> ready_in p"
    and "lc_path c = path"
  shows "\<exists>ob. observe_polls polls \<lparr>ro_cursors = [c], ro_observed_at = None\<rparr> = Ok ob \<and>
    ro_observed_at ob = first_ready logs"
  using assms
proof (induction polls logs arbitrary: p c rule: list_all2_induct)
  case Nil
  then show ?case by simp
next
  case (Cons poll polls log logs)
  obtain t files content where poll: "poll = (t, files)" "log = (t, content)"
    "serves (files path) content"
    using Cons.hyps by (cases poll; cases log) auto
  have pre: "prefix (observed_part p) content"
    using Cons.prems(1) poll by (auto simp: observed_part_def intro: prefix_order.trans take_is_prefix)
  have no: "READY_MARKER \<notin> set (whole_lines (observed_part p))"
    using Cons.prems(3) by (simp add: ready_in_def)
  from contains_new_correct [OF poll(3) Cons.prems(2) pre READY_MARKER_length no]
  obtain found c' where c': "contains_new (files path) READY_MARKER c = Ok (found, c')"
    "lc_path c' = path" "found \<longleftrightarrow> ready_in content"
    "\<not> found \<Longrightarrow> cursor_after c' (observed_part content)"
    using Cons.prems(4) by (auto simp: ready_in_def)
  have step: "observe files t \<lparr>ro_cursors = [c], ro_observed_at = None\<rparr> =
      Ok \<lparr>ro_cursors = [c'], ro_observed_at = (if found then Some t else None)\<rparr>"
    using c' Cons.prems(4) by (simp add: observe_def)
  show ?case
  proof (cases found)
    case True
    then show ?thesis using step c' poll by (simp add: observe_polls_done)
  next
    case False
    have "sorted_wrt prefix (content # map snd logs)" using Cons.prems(1) poll by simp
    from Cons.IH [OF this c'(4) [OF False] _ c'(2)] show ?thesis
      using False step c' poll by simp
  qed
qed

text \<open>
  C23: the ready marker is timed by the first observation that can see it.  Polling a log that only
  grows, however its reads are chunked, never fails, and the time recorded is that of the first
  poll at which a complete line of the log (within its first 4 MiB) is the ready marker; without
  such a poll nothing is recorded.
\<close>

theorem ready_marker_first_seen:
  assumes "list_all2 (\<lambda>(t, files) (t', content). t = t' \<and> serves (files path) content) polls logs"
    and "sorted_wrt prefix (map snd logs)"
  shows "\<exists>ob. observe_polls polls (observer_new [path]) = Ok ob \<and> ro_observed_at ob = first_ready logs"
proof -
  have "\<not> ready_in []" by (simp add: ready_in_def observed_part_def whole_lines_def)
  moreover have "sorted_wrt prefix ([] # map snd logs)" using assms(2) by simp
  moreover have "cursor_after (log_cursor_new path) (observed_part [])"
    using cursor_after_new by (simp add: observed_part_def)
  moreover have "lc_path (log_cursor_new path) = path" by (simp add: log_cursor_new_def)
  ultimately show ?thesis
    using observe_polls_from [OF assms(1), of "[]" "log_cursor_new path"]
    unfolding observer_new_def by simp
qed

definition example_view :: "u8 list \<Rightarrow> log_view" where
  "example_view content =
     \<lparr>lv_open = Opened, lv_len = Some (length content), lv_seek = True,
      lv_read = (\<lambda>ofs n. Some (take n (drop ofs content)))\<rparr>"

lemma serves_example_view: "serves (example_view content) content"
  by (auto simp: serves_def example_view_def)

theorem ready_marker_first_seen_witness:
  "\<exists>ob. observe_polls [(5, \<lambda>_. example_view (take 3 READY_MARKER)),
       (9, \<lambda>_. example_view (READY_MARKER @ [0x0A]))] (observer_new [''debug.log'']) = Ok ob \<and>
     ro_observed_at ob = Some 9"
proof -
  have "\<not> ready_in (take 3 READY_MARKER)" "ready_in (READY_MARKER @ [0x0A])"
    by (simp_all add: ready_in_def observed_part_def MAX_OBSERVED_LOG_BYTES_def whole_lines_def
        READY_MARKER_def bytes_of_def byte_of_char_bytes strip_cr_def)
  then show ?thesis
    using ready_marker_first_seen [where path = "''debug.log''"
        and polls = "[(5, \<lambda>_. example_view (take 3 READY_MARKER)),
          (9, \<lambda>_. example_view (READY_MARKER @ [0x0A]))]"
        and logs = "[(5, take 3 READY_MARKER), (9, READY_MARKER @ [0x0A])]"]
    by (simp add: serves_example_view take_is_prefix prefix_order.trans [OF take_is_prefix])
qed

end
