(* ===== verification/Xtask_Execution.thy ===== *)
theory Xtask_Execution
  imports Xtask_Observer
begin

text \<open>
  Running the emulator under a hard timeout (\<^verbatim>\<open>crates/xtask/src/qemu.rs\<close>): the guard that kills and
  reaps a child process, the memory sampler, and the polling loop.  What the operating system
  answers is an environment indexed by the loop iteration; process operations are recorded in a
  trace.  An exit status is its \<^verbatim>\<open>code()\<close>: \<open>None\<close> after a signal.  The loop has fuel, because only the
  clock ends it; the bound for which the fuel is enough is a theorem below.
\<close>

section \<open>Guarded children\<close>

datatype child = QemuChild | SamplerChild

datatype proc_event = Spawned child | Exited child | Killed child | Waited child

type_synonym proc_trace = "proc_event list"
type_synonym exit_status = "int option"

record child_guard =
  cg_child :: child
  cg_armed :: bool

definition guard_new :: "child \<Rightarrow> child_guard" where
  "guard_new c = \<lparr>cg_child = c, cg_armed = True\<rparr>"

definition guard_disarm :: "child_guard \<Rightarrow> child_guard" where
  "guard_disarm g = g\<lparr>cg_armed := False\<rparr>"

text \<open>\<open>None\<close> is an error of the query, \<open>Some None\<close> a running child.\<close>

definition guard_try_wait ::
    "exit_status option option \<Rightarrow> child_guard \<Rightarrow> proc_trace \<Rightarrow> exit_status option option \<times> proc_trace" where
  "guard_try_wait answer g tr =
     (answer, case answer of Some (Some _) \<Rightarrow> tr @ [Exited (cg_child g)] | _ \<Rightarrow> tr)"

definition guard_terminate ::
    "bool \<Rightarrow> exit_status option \<Rightarrow> child_guard \<Rightarrow> proc_trace
      \<Rightarrow> exit_status option \<times> child_guard \<times> proc_trace" where
  "guard_terminate kill_ok wait_answer g tr =
     (let tr = tr @ [Killed (cg_child g)] in
      if \<not> kill_ok then (None, g, tr)
      else
        let tr = tr @ [Waited (cg_child g)] in
        (case wait_answer of
           None \<Rightarrow> (None, g, tr)
         | Some status \<Rightarrow> (Some status, guard_disarm g, tr)))"

definition guard_drop :: "child_guard \<Rightarrow> proc_trace \<Rightarrow> proc_trace" where
  "guard_drop g tr =
     (if cg_armed g then tr @ [Killed (cg_child g), Waited (cg_child g)] else tr)"

section \<open>The memory sampler\<close>

definition RSS_SAMPLE_INTERVAL :: nat where "RSS_SAMPLE_INTERVAL = 25 * 1000000"
definition RSS_SAMPLE_TIMEOUT :: nat where "RSS_SAMPLE_TIMEOUT = 20 * 1000000"

fun max_option :: "nat option \<Rightarrow> nat option \<Rightarrow> nat option" where
  "max_option (Some left) (Some right) = Some (max left right)"
| "max_option (Some v) None = Some v"
| "max_option None (Some v) = Some v"
| "max_option None None = None"

text \<open>\<^verbatim>\<open>str::trim\<close> removes the code points with the Unicode property White_Space, in UTF-8.\<close>

definition is_ascii_space :: "u8 \<Rightarrow> bool" where
  "is_ascii_space b \<longleftrightarrow> (0x09 \<le> b \<and> b \<le> 0x0D) \<or> b = 0x20"

definition is_space_2 :: "u8 \<Rightarrow> u8 \<Rightarrow> bool" where
  "is_space_2 a b \<longleftrightarrow> a = 0xC2 \<and> (b = 0x85 \<or> b = 0xA0)"

definition is_space_3 :: "u8 \<Rightarrow> u8 \<Rightarrow> u8 \<Rightarrow> bool" where
  "is_space_3 a b c \<longleftrightarrow>
     (a = 0xE1 \<and> b = 0x9A \<and> c = 0x80) \<or>
     (a = 0xE2 \<and> b = 0x80 \<and> ((0x80 \<le> c \<and> c \<le> 0x8A) \<or> c = 0xA8 \<or> c = 0xA9 \<or> c = 0xAF)) \<or>
     (a = 0xE2 \<and> b = 0x81 \<and> c = 0x9F) \<or> (a = 0xE3 \<and> b = 0x80 \<and> c = 0x80)"

fun trim_start :: "u8 list \<Rightarrow> u8 list" where
  "trim_start (a # b # c # rest) =
     (if is_ascii_space a then trim_start (b # c # rest)
      else if is_space_2 a b then trim_start (c # rest)
      else if is_space_3 a b c then trim_start rest
      else a # b # c # rest)"
| "trim_start [a, b] =
     (if is_ascii_space a then trim_start [b] else if is_space_2 a b then [] else [a, b])"
| "trim_start [a] = (if is_ascii_space a then [] else [a])"
| "trim_start [] = []"

text \<open>The same from the end, on the reversed text.\<close>

fun trim_rev :: "u8 list \<Rightarrow> u8 list" where
  "trim_rev (c # b # a # rest) =
     (if is_ascii_space c then trim_rev (b # a # rest)
      else if is_space_2 b c then trim_rev (a # rest)
      else if is_space_3 a b c then trim_rev rest
      else c # b # a # rest)"
| "trim_rev [b, a] =
     (if is_ascii_space b then trim_rev [a] else if is_space_2 a b then [] else [b, a])"
| "trim_rev [a] = (if is_ascii_space a then [] else [a])"
| "trim_rev [] = []"

definition trim_text :: "u8 list \<Rightarrow> u8 list" where
  "trim_text text = rev (trim_rev (rev (trim_start text)))"

fun digits_value_u64 :: "nat \<Rightarrow> u8 list \<Rightarrow> nat option" where
  "digits_value_u64 acc [] = Some acc"
| "digits_value_u64 acc (b # bs) =
     (if is_ascii_digit b then
        let acc = 10 * acc + (unat b - 48) in
        if acc < 2 ^ 64 then digits_value_u64 acc bs else None
      else None)"

definition parse_u64 :: "u8 list \<Rightarrow> nat option" where
  "parse_u64 text =
     (let digits = (case text of b # rest \<Rightarrow> if b = 0x2B then rest else text | [] \<Rightarrow> []) in
      if digits = [] then None else digits_value_u64 0 digits)"

text \<open>The argument is the output of the sampler process, \<open>None\<close> when it cannot be read.\<close>

definition parse_rss_output :: "u8 list option \<Rightarrow> nat option" where
  "parse_rss_output output =
     (case output of
        None \<Rightarrow> None
      | Some content \<Rightarrow>
          let bytes = take 128 content in
          if utf8_valid bytes then parse_u64 (trim_text bytes) else None)"

record sampler_env =
  se_try_wait :: "exit_status option option"
  se_age :: nat
  se_output :: "u8 list option"
  se_kill :: bool
  se_wait :: "exit_status option"
  se_spawn :: bool

record rss_sampler =
  rs_process :: "child_guard option"
  rs_next_sample :: nat
  rs_peak_kib :: "nat option"
  rs_disabled :: bool

definition rss_sampler_new :: rss_sampler where
  "rss_sampler_new = \<lparr>rs_process = None, rs_next_sample = 0, rs_peak_kib = None, rs_disabled = False\<rparr>"

text \<open>The part of \<^verbatim>\<open>poll\<close> after the running process was handled.\<close>

definition rss_start ::
    "sampler_env \<Rightarrow> nat \<Rightarrow> rss_sampler \<Rightarrow> proc_trace \<Rightarrow> rss_sampler \<times> proc_trace" where
  "rss_start env elapsed rs tr =
     (if rs_process rs \<noteq> None \<or> rs_disabled rs \<or> elapsed < rs_next_sample rs then (rs, tr)
      else if se_spawn env
      then (rs\<lparr>rs_process := Some (guard_new SamplerChild)\<rparr>, tr @ [Spawned SamplerChild])
      else (rs\<lparr>rs_disabled := True\<rparr>, tr))"

definition rss_poll ::
    "sampler_env \<Rightarrow> nat \<Rightarrow> rss_sampler \<Rightarrow> proc_trace \<Rightarrow> rss_sampler \<times> proc_trace" where
  "rss_poll env elapsed rs tr =
     (case rs_process rs of
        None \<Rightarrow> rss_start env elapsed rs tr
      | Some g \<Rightarrow>
          let (answer, tr) = guard_try_wait (se_try_wait env) g tr in
          (case answer of
             Some (Some _) \<Rightarrow>
               let g = guard_disarm g; sample = parse_rss_output (se_output env);
                   tr = guard_drop g tr in
               rss_start env elapsed
                 (rs\<lparr>rs_peak_kib := max_option (rs_peak_kib rs) sample, rs_process := None,
                     rs_next_sample := elapsed + RSS_SAMPLE_INTERVAL\<rparr>) tr
           | _ \<Rightarrow>
               if answer = Some None \<and> se_age env < RSS_SAMPLE_TIMEOUT then (rs, tr)
               else
                 let (_, g, tr) = guard_terminate (se_kill env) (se_wait env) g tr;
                     tr = guard_drop g tr in
                 (rs\<lparr>rs_process := None, rs_next_sample := elapsed + RSS_SAMPLE_INTERVAL\<rparr>, tr)))"

definition rss_finish :: "sampler_env \<Rightarrow> rss_sampler \<Rightarrow> proc_trace \<Rightarrow> nat option \<times> proc_trace" where
  "rss_finish env rs tr =
     (case rs_process rs of
        None \<Rightarrow> (rs_peak_kib rs, tr)
      | Some g \<Rightarrow>
          let (answer, tr) = guard_try_wait (se_try_wait env) g tr in
          (case answer of
             Some (Some _) \<Rightarrow>
               let g = guard_disarm g; sample = parse_rss_output (se_output env) in
               (max_option (rs_peak_kib rs) sample, guard_drop g tr)
           | _ \<Rightarrow>
               let (_, g, tr) = guard_terminate (se_kill env) (se_wait env) g tr in
               (rs_peak_kib rs, guard_drop g tr)))"

definition rss_drop :: "rss_sampler \<Rightarrow> proc_trace \<Rightarrow> proc_trace" where
  "rss_drop rs tr = (case rs_process rs of None \<Rightarrow> tr | Some g \<Rightarrow> guard_drop g tr)"

section \<open>The polling loop\<close>

record qemu_env =
  qe_spawn :: bool
  qe_elapsed :: "nat \<Rightarrow> nat"
  qe_observed_at :: "nat \<Rightarrow> nat"
  qe_files :: "nat \<Rightarrow> string \<Rightarrow> log_view"
  qe_try_wait :: "nat \<Rightarrow> exit_status option option"
  qe_kill :: bool
  qe_wait :: "exit_status option"
  qe_sampler :: "nat \<Rightarrow> sampler_env"
  qe_finish :: sampler_env
  qe_duration :: nat

record qemu_execution =
  ex_exit_status :: exit_status
  ex_duration_ms :: nat
  ex_time_to_ready_marker_ms :: "nat option"
  ex_peak_rss_kib :: "nat option"
  ex_timed_out :: bool

record harness_state =
  hs_child :: child_guard
  hs_observer :: ready_marker_observer
  hs_sampler :: rss_sampler
  hs_trace :: proc_trace

datatype loop_end = LoopStatus exit_status bool nat | LoopError | LoopPanic

fun qemu_loop ::
    "nat \<Rightarrow> qemu_env \<Rightarrow> nat \<Rightarrow> nat \<Rightarrow> harness_state \<Rightarrow> (loop_end \<times> harness_state) option" where
  "qemu_loop 0 env timeout i hs = None"
| "qemu_loop (Suc fuel) env timeout i hs =
     (let elapsed = qe_elapsed env i in
      case observe (qe_files env i) (qe_observed_at env i) (hs_observer hs) of
        Panic \<Rightarrow> Some (LoopPanic, hs)
      | Err _ \<Rightarrow> Some (LoopError, hs)
      | Ok ob \<Rightarrow>
          let hs = hs\<lparr>hs_observer := ob\<rparr>;
              (answer, tr) = guard_try_wait (qe_try_wait env i) (hs_child hs) (hs_trace hs);
              hs = hs\<lparr>hs_trace := tr\<rparr> in
          (case answer of
             None \<Rightarrow> Some (LoopError, hs)
           | Some (Some status) \<Rightarrow>
               Some (LoopStatus status False i, hs\<lparr>hs_child := guard_disarm (hs_child hs)\<rparr>)
           | Some None \<Rightarrow>
               if timeout \<le> elapsed then
                 let (killed, g, tr) =
                       guard_terminate (qe_kill env) (qe_wait env) (hs_child hs) (hs_trace hs);
                     hs = hs\<lparr>hs_child := g, hs_trace := tr\<rparr> in
                 (case killed of
                    None \<Rightarrow> Some (LoopError, hs)
                  | Some status \<Rightarrow> Some (LoopStatus status True i, hs))
               else
                 let (rs, tr) = rss_poll (qe_sampler env i) elapsed (hs_sampler hs) (hs_trace hs) in
                 qemu_loop fuel env timeout (Suc i) (hs\<lparr>hs_sampler := rs, hs_trace := tr\<rparr>)))"

text \<open>The locals go out of scope in reverse order: the sampler, then the child.\<close>

definition harness_drop :: "harness_state \<Rightarrow> proc_trace" where
  "harness_drop hs = guard_drop (hs_child hs) (rss_drop (hs_sampler hs) (hs_trace hs))"

definition execute_bounded_qemu ::
    "nat \<Rightarrow> qemu_env \<Rightarrow> nat \<Rightarrow> string \<Rightarrow> ((io_error, qemu_execution) outcome \<times> proc_trace) option" where
  "execute_bounded_qemu fuel env timeout debug_log =
     (if \<not> qe_spawn env then Some (Err IoError, [])
      else
        case qemu_loop fuel env timeout 0
            \<lparr>hs_child = guard_new QemuChild, hs_observer = observer_new [debug_log],
             hs_sampler = rss_sampler_new, hs_trace = [Spawned QemuChild]\<rparr> of
          None \<Rightarrow> None
        | Some (LoopError, hs) \<Rightarrow> Some (Err IoError, harness_drop hs)
        | Some (LoopPanic, hs) \<Rightarrow> Some (Panic, harness_drop hs)
        | Some (LoopStatus status timed_out i, hs) \<Rightarrow>
            (case observe (qe_files env (Suc i)) (qe_observed_at env (Suc i)) (hs_observer hs) of
               Panic \<Rightarrow> Some (Panic, harness_drop hs)
             | Err e \<Rightarrow> Some (Err e, harness_drop hs)
             | Ok ob \<Rightarrow>
                 let (rs, tr) = rss_poll (qe_sampler env (Suc i)) (qe_elapsed env (Suc i))
                       (hs_sampler hs) (hs_trace hs);
                     (peak, tr) = rss_finish (qe_finish env) rs tr in
                 Some (Ok \<lparr>ex_exit_status = status,
                          ex_duration_ms = as_millis_u64 (qe_duration env),
                          ex_time_to_ready_marker_ms = observed_ms ob,
                          ex_peak_rss_kib = peak, ex_timed_out = timed_out\<rparr>,
                       guard_drop (hs_child hs) tr)))"

section \<open>Children are reaped\<close>

text \<open>
  Whether a child is alive after a trace; \<open>None\<close> when a second one was started beside a live one.
\<close>

fun child_step :: "child \<Rightarrow> proc_event \<Rightarrow> bool option \<Rightarrow> bool option" where
  "child_step c (Spawned d) st = (if c = d then (if st = Some False then Some True else None) else st)"
| "child_step c (Exited d) st = (if c = d then map_option (\<lambda>_. False) st else st)"
| "child_step c (Waited d) st = (if c = d then map_option (\<lambda>_. False) st else st)"
| "child_step c (Killed d) st = st"

definition child_alive :: "child \<Rightarrow> proc_trace \<Rightarrow> bool option" where
  "child_alive c tr = fold (child_step c) tr (Some False)"

lemma child_alive_append: "child_alive c (tr @ evs) = fold (child_step c) evs (child_alive c tr)"
  by (simp add: child_alive_def)

definition guard_inv :: "child_guard \<Rightarrow> proc_trace \<Rightarrow> bool" where
  "guard_inv g tr \<longleftrightarrow> (\<exists>alive. child_alive (cg_child g) tr = Some alive \<and> (alive \<longrightarrow> cg_armed g))"

text \<open>What an operation on one child leaves alone: the state of the other child.\<close>

definition other_same :: "child \<Rightarrow> proc_trace \<Rightarrow> proc_trace \<Rightarrow> bool" where
  "other_same c tr tr' \<longleftrightarrow> (\<forall>d. d \<noteq> c \<longrightarrow> child_alive d tr' = child_alive d tr)"

lemmas guard_defs = guard_try_wait_def guard_terminate_def guard_drop_def guard_disarm_def guard_new_def

lemma other_same_refl [simp]: "other_same c tr tr"
  by (simp add: other_same_def)

lemma other_same_trans: "other_same c a b \<Longrightarrow> other_same c b d \<Longrightarrow> other_same c a d"
  by (simp add: other_same_def)

lemma guard_drop_reaps:
  assumes "guard_inv g tr"
  shows "child_alive (cg_child g) (guard_drop g tr) = Some False"
    and "other_same (cg_child g) tr (guard_drop g tr)"
  using assms by (auto simp: guard_inv_def guard_drop_def child_alive_append other_same_def)

lemma guard_try_wait_effect:
  assumes "guard_inv g tr" and "guard_try_wait answer g tr = (answer', tr')"
  shows "guard_inv g tr'" and "other_same (cg_child g) tr tr'" and "answer' = answer"
    and "answer = Some (Some status) \<Longrightarrow> guard_inv (guard_disarm g) tr'"
  using assms by (auto simp: guard_inv_def guard_try_wait_def guard_disarm_def child_alive_append
      other_same_def split: option.splits)

lemma guard_terminate_effect:
  assumes "guard_inv g tr" and "guard_terminate kill_ok wait_answer g tr = (res, g', tr')"
  shows "guard_inv g' tr'" and "cg_child g' = cg_child g" and "other_same (cg_child g) tr tr'"
  using assms by (auto simp: guard_inv_def guard_terminate_def guard_disarm_def child_alive_append
      other_same_def Let_def split: option.splits if_splits)

definition sampler_inv :: "rss_sampler \<Rightarrow> proc_trace \<Rightarrow> bool" where
  "sampler_inv rs tr \<longleftrightarrow>
     (case rs_process rs of
        None \<Rightarrow> child_alive SamplerChild tr = Some False
      | Some g \<Rightarrow> cg_child g = SamplerChild \<and> guard_inv g tr)"

lemma rss_start_effect:
  assumes "rs_process rs = None" "child_alive SamplerChild tr = Some False"
    and "rss_start env elapsed rs tr = (rs', tr')"
  shows "sampler_inv rs' tr'" and "other_same SamplerChild tr tr'"
  using assms by (auto simp: rss_start_def sampler_inv_def guard_inv_def guard_new_def
      child_alive_append other_same_def split: if_splits)

lemma reap_sampler:
  assumes "cg_child g = SamplerChild" "guard_inv g tr"
  shows "child_alive SamplerChild (guard_drop g tr) = Some False"
    and "other_same SamplerChild tr (guard_drop g tr)"
  using guard_drop_reaps [OF assms(2)] assms(1) by simp_all

lemma rss_poll_effect:
  assumes "sampler_inv rs tr" and "rss_poll env elapsed rs tr = (rs', tr')"
  shows "sampler_inv rs' tr' \<and> other_same SamplerChild tr tr'"
proof (cases "rs_process rs")
  case None
  then show ?thesis
    using assms rss_start_effect [OF None] by (simp add: rss_poll_def sampler_inv_def)
next
  case (Some g)
  then have g: "cg_child g = SamplerChild" "guard_inv g tr" using assms(1) by (simp_all add: sampler_inv_def)
  obtain answer tr1 where tw: "guard_try_wait (se_try_wait env) g tr = (answer, tr1)" by fastforce
  note tw_eff = guard_try_wait_effect [OF g(2) tw]
  obtain k g2 tr2 where tm: "guard_terminate (se_kill env) (se_wait env) g tr1 = (k, g2, tr2)"
    by (metis prod_cases3)
  note tm_eff = guard_terminate_effect [OF tw_eff(1) tm]
  note reap2 = reap_sampler [of g2 tr2, unfolded tm_eff(2), OF g(1) tm_eff(1)]
  show ?thesis
  proof (cases "\<exists>status. se_try_wait env = Some (Some status)")
    case True
    then obtain status where st: "se_try_wait env = Some (Some status)" by blast
    let ?rs = "rs\<lparr>rs_peak_kib := max_option (rs_peak_kib rs) (parse_rss_output (se_output env)),
      rs_process := None, rs_next_sample := elapsed + RSS_SAMPLE_INTERVAL\<rparr>"
    have inv1: "guard_inv (guard_disarm g) tr1" using tw_eff(4) st by blast
    have c1: "cg_child (guard_disarm g) = SamplerChild" using g by (simp add: guard_disarm_def)
    note reap1 = reap_sampler [OF c1 inv1]
    have "rss_start env elapsed ?rs (guard_drop (guard_disarm g) tr1) = (rs', tr')"
      using assms(2) Some tw tw_eff(3) st by (simp add: rss_poll_def Let_def)
    from rss_start_effect [OF _ reap1(1) this] reap1(2) tw_eff(2) g(1) show ?thesis
      by (auto intro: other_same_trans)
  next
    case False
    then have "(rs', tr') = (if answer = Some None \<and> se_age env < RSS_SAMPLE_TIMEOUT then (rs, tr1)
        else (rs\<lparr>rs_process := None, rs_next_sample := elapsed + RSS_SAMPLE_INTERVAL\<rparr>, guard_drop g2 tr2))"
      using assms(2) Some tw tm tw_eff(3)
      by (auto simp: rss_poll_def Let_def split: option.splits)
    then show ?thesis
      using Some g tw_eff(1,2) tm_eff(3) reap2
      by (auto simp: sampler_inv_def split: if_splits intro: other_same_trans)
  qed
qed

lemma rss_finish_effect:
  assumes "sampler_inv rs tr" and "rss_finish env rs tr = (peak, tr')"
  shows "child_alive SamplerChild tr' = Some False \<and> other_same SamplerChild tr tr'"
proof (cases "rs_process rs")
  case None
  then show ?thesis using assms by (simp add: rss_finish_def sampler_inv_def)
next
  case (Some g)
  then have g: "cg_child g = SamplerChild" "guard_inv g tr" using assms(1) by (simp_all add: sampler_inv_def)
  obtain answer tr1 where tw: "guard_try_wait (se_try_wait env) g tr = (answer, tr1)" by fastforce
  note tw_eff = guard_try_wait_effect [OF g(2) tw]
  obtain k g2 tr2 where tm: "guard_terminate (se_kill env) (se_wait env) g tr1 = (k, g2, tr2)"
    by (metis prod_cases3)
  note tm_eff = guard_terminate_effect [OF tw_eff(1) tm]
  note reap2 = reap_sampler [of g2 tr2, unfolded tm_eff(2), OF g(1) tm_eff(1)]
  show ?thesis
  proof (cases "\<exists>status. se_try_wait env = Some (Some status)")
    case True
    then obtain status where st: "se_try_wait env = Some (Some status)" by blast
    have inv1: "guard_inv (guard_disarm g) tr1" using tw_eff(4) st by blast
    have c1: "cg_child (guard_disarm g) = SamplerChild" using g by (simp add: guard_disarm_def)
    note reap1 = reap_sampler [OF c1 inv1]
    have "tr' = guard_drop (guard_disarm g) tr1"
      using assms(2) Some tw tw_eff(3) st by (simp add: rss_finish_def Let_def)
    then show ?thesis using reap1 tw_eff(2) g(1) by (auto intro: other_same_trans)
  next
    case False
    then have "tr' = guard_drop g2 tr2"
      using assms(2) Some tw tm tw_eff(3) by (auto simp: rss_finish_def Let_def split: option.splits)
    then show ?thesis using reap2 tw_eff(2) tm_eff(3) g(1) by (auto intro: other_same_trans)
  qed
qed

lemma rss_drop_effect:
  assumes "sampler_inv rs tr"
  shows "child_alive SamplerChild (rss_drop rs tr) = Some False \<and> other_same SamplerChild tr (rss_drop rs tr)"
  using assms reap_sampler by (auto simp: rss_drop_def sampler_inv_def split: option.splits)

definition harness_inv :: "harness_state \<Rightarrow> bool" where
  "harness_inv hs \<longleftrightarrow> cg_child (hs_child hs) = QemuChild \<and> guard_inv (hs_child hs) (hs_trace hs) \<and>
     sampler_inv (hs_sampler hs) (hs_trace hs)"

lemma guard_inv_other: "other_same c tr tr' \<Longrightarrow> cg_child g \<noteq> c \<Longrightarrow> guard_inv g tr \<Longrightarrow> guard_inv g tr'"
  by (simp add: guard_inv_def other_same_def)

lemma sampler_inv_other: "other_same QemuChild tr tr' \<Longrightarrow> sampler_inv rs tr \<Longrightarrow> sampler_inv rs tr'"
  by (auto simp: sampler_inv_def other_same_def guard_inv_def split: option.splits)

lemma harness_poll:
  assumes "harness_inv hs" and "rss_poll env elapsed (hs_sampler hs) (hs_trace hs) = (rs, tr)"
  shows "harness_inv (hs\<lparr>hs_sampler := rs, hs_trace := tr\<rparr>)"
  using rss_poll_effect [OF _ assms(2)] assms(1) guard_inv_other [of SamplerChild "hs_trace hs" tr "hs_child hs"]
  by (simp add: harness_inv_def)

lemma harness_try_wait:
  assumes "harness_inv hs" and "guard_try_wait answer (hs_child hs) (hs_trace hs) = (answer', tr)"
  shows "harness_inv (hs\<lparr>hs_trace := tr\<rparr>)"
    and "answer = Some (Some status) \<Longrightarrow>
      harness_inv (hs\<lparr>hs_trace := tr, hs_child := guard_disarm (hs_child hs)\<rparr>)"
  using guard_try_wait_effect(1-3) [OF _ assms(2)]
    guard_try_wait_effect(4) [OF _ assms(2), where status = status] assms(1)
    sampler_inv_other [of "hs_trace hs" tr "hs_sampler hs"]
  by (auto simp: harness_inv_def guard_disarm_def)

lemma harness_terminate:
  assumes "harness_inv hs"
    and "guard_terminate kill_ok wait_answer (hs_child hs) (hs_trace hs) = (res, g, tr)"
  shows "harness_inv (hs\<lparr>hs_child := g, hs_trace := tr\<rparr>)"
  using guard_terminate_effect [OF _ assms(2)] assms(1)
    sampler_inv_other [of "hs_trace hs" tr "hs_sampler hs"]
  by (simp add: harness_inv_def)

lemma qemu_loop_inv:
  "qemu_loop fuel env timeout i hs = Some (end_state, hs') \<Longrightarrow> harness_inv hs \<Longrightarrow> harness_inv hs'"
proof (induction fuel arbitrary: i hs)
  case (Suc fuel)
  show ?case
  proof (cases "observe (qe_files env i) (qe_observed_at env i) (hs_observer hs)")
    case (Ok ob)
    define hs0 where "hs0 = hs\<lparr>hs_observer := ob\<rparr>"
    have inv0: "harness_inv hs0" using Suc.prems(2) by (simp add: hs0_def harness_inv_def)
    obtain answer tr where tw: "guard_try_wait (qe_try_wait env i) (hs_child hs0) (hs_trace hs0) = (answer, tr)"
      by fastforce
    define hs1 where "hs1 = hs0\<lparr>hs_trace := tr\<rparr>"
    have inv1: "harness_inv hs1" using harness_try_wait(1) [OF inv0 tw] by (simp add: hs1_def)
    have ans: "answer = qe_try_wait env i" using tw by (simp add: guard_try_wait_def)
    obtain killed g tr2 where tm:
        "guard_terminate (qe_kill env) (qe_wait env) (hs_child hs1) (hs_trace hs1) = (killed, g, tr2)"
      by (metis prod_cases3)
    note invt = harness_terminate [OF inv1 tm]
    obtain rs tr3 where po: "rss_poll (qe_sampler env i) (qe_elapsed env i) (hs_sampler hs1) (hs_trace hs1) = (rs, tr3)"
      by fastforce
    note invp = harness_poll [OF inv1 po]
    have step: "qemu_loop (Suc fuel) env timeout i hs =
        (case answer of None \<Rightarrow> Some (LoopError, hs1)
         | Some (Some status) \<Rightarrow>
             Some (LoopStatus status False i, hs1\<lparr>hs_child := guard_disarm (hs_child hs1)\<rparr>)
         | Some None \<Rightarrow>
             if timeout \<le> qe_elapsed env i then
               (case killed of None \<Rightarrow> Some (LoopError, hs1\<lparr>hs_child := g, hs_trace := tr2\<rparr>)
                | Some status \<Rightarrow> Some (LoopStatus status True i, hs1\<lparr>hs_child := g, hs_trace := tr2\<rparr>))
             else qemu_loop fuel env timeout (Suc i) (hs1\<lparr>hs_sampler := rs, hs_trace := tr3\<rparr>))"
      using Ok tw tm po by (simp add: Let_def hs0_def hs1_def cong: option.case_cong)
    show ?thesis
    proof (cases answer)
      case None
      then show ?thesis using step Suc.prems inv1 by simp
    next
      case (Some a)
      show ?thesis
      proof (cases a)
        case None
        then show ?thesis
          using step Suc.prems(1) Some invt Suc.IH [OF _ invp] by (auto split: if_splits option.splits)
      next
        case (Some status)
        then have "qe_try_wait env i = Some (Some status)" using ans \<open>answer = Some a\<close> by simp
        from harness_try_wait(2) [OF inv0 tw this]
        have "harness_inv (hs1\<lparr>hs_child := guard_disarm (hs_child hs1)\<rparr>)" by (simp add: hs1_def)
        then show ?thesis using step Suc.prems(1) Some \<open>answer = Some a\<close> by auto
      qed
    qed
  qed (use Suc.prems in simp_all)
qed simp

lemma harness_drop_reaps:
  assumes "harness_inv hs"
  shows "child_alive c (harness_drop hs) = Some False"
proof -
  let ?tr = "rss_drop (hs_sampler hs) (hs_trace hs)"
  have s: "child_alive SamplerChild ?tr = Some False" "other_same SamplerChild (hs_trace hs) ?tr"
    using rss_drop_effect assms by (simp_all add: harness_inv_def)
  have "guard_inv (hs_child hs) ?tr"
    using guard_inv_other [OF s(2)] assms by (simp add: harness_inv_def)
  from guard_drop_reaps [OF this] s(1) assms show ?thesis
    by (cases c) (simp_all add: harness_drop_def harness_inv_def other_same_def)
qed

text \<open>
  C24: no process outlives the harness.  Whatever the operating system answers, when the bounded
  execution returns (normally, with an error or by a panic) the emulator and every sampler process
  it started have been waited for, and never were two of a kind running at once.
\<close>

theorem children_reaped:
  assumes "execute_bounded_qemu fuel env timeout debug_log = Some (res, tr)"
  shows "child_alive QemuChild tr = Some False \<and> child_alive SamplerChild tr = Some False"
proof (cases "qe_spawn env")
  case False
  then show ?thesis using assms by (auto simp: execute_bounded_qemu_def child_alive_def)
next
  case True
  let ?hs = "\<lparr>hs_child = guard_new QemuChild, hs_observer = observer_new [debug_log],
    hs_sampler = rss_sampler_new, hs_trace = [Spawned QemuChild]\<rparr>"
  have "harness_inv ?hs"
    by (auto simp: harness_inv_def guard_inv_def guard_new_def child_alive_def sampler_inv_def
        rss_sampler_new_def)
  moreover obtain e hs where loop: "qemu_loop fuel env timeout 0 ?hs = Some (e, hs)"
    using assms True by (auto simp: execute_bounded_qemu_def split: option.splits)
  ultimately have inv: "harness_inv hs" using qemu_loop_inv by blast
  have dropped: ?thesis if "tr = harness_drop hs" using that harness_drop_reaps [OF inv] by simp
  show ?thesis
  proof (cases e)
    case (LoopStatus status timed_out i)
    obtain rs tr1 where po: "rss_poll (qe_sampler env (Suc i)) (qe_elapsed env (Suc i)) (hs_sampler hs)
        (hs_trace hs) = (rs, tr1)" by fastforce
    obtain peak tr2 where fi: "rss_finish (qe_finish env) rs tr1 = (peak, tr2)" by fastforce
    have inv1: "harness_inv (hs\<lparr>hs_sampler := rs, hs_trace := tr1\<rparr>)" by (rule harness_poll [OF inv po])
    have s: "child_alive SamplerChild tr2 = Some False" "other_same SamplerChild tr1 tr2"
      using rss_finish_effect [OF _ fi] inv1 by (simp_all add: harness_inv_def)
    have "guard_inv (hs_child hs) tr2"
      using guard_inv_other [OF s(2)] inv1 by (simp add: harness_inv_def)
    from guard_drop_reaps [OF this] s(1) inv
    have "child_alive QemuChild (guard_drop (hs_child hs) tr2) = Some False"
      "child_alive SamplerChild (guard_drop (hs_child hs) tr2) = Some False"
      by (simp_all add: harness_inv_def other_same_def)
    then show ?thesis
      using assms True loop LoopStatus po fi dropped
      by (auto simp: execute_bounded_qemu_def split: outcome.splits)
  qed (use assms True loop dropped in \<open>auto simp: execute_bounded_qemu_def\<close>)
qed

definition example_sampler_env :: sampler_env where
  "example_sampler_env = \<lparr>se_try_wait = Some None, se_age = 0, se_output = None, se_kill = True,
     se_wait = Some None, se_spawn = True\<rparr>"

text \<open>A guest that hangs: it is still running at every query and its log never appears.\<close>

definition hung_env :: qemu_env where
  "hung_env = \<lparr>qe_spawn = True, qe_elapsed = (\<lambda>i. i * 5000000), qe_observed_at = (\<lambda>i. i * 5000000),
     qe_files = (\<lambda>_ _. \<lparr>lv_open = NotFound, lv_len = None, lv_seek = False, lv_read = (\<lambda>_ _. None)\<rparr>),
     qe_try_wait = (\<lambda>_. Some None), qe_kill = True, qe_wait = Some None,
     qe_sampler = (\<lambda>_. example_sampler_env), qe_finish = example_sampler_env,
     qe_duration = 10000000\<rparr>"

lemmas hung_simps = hung_env_def example_sampler_env_def execute_bounded_qemu_def observe_def
  observer_new_def log_cursor_new_def contains_new_def guard_defs rss_poll_def rss_start_def
  rss_finish_def rss_sampler_new_def RSS_SAMPLE_TIMEOUT_def observed_ms_def as_millis_u64_def

lemma hung_execution:
  "execute_bounded_qemu (Suc (Suc (Suc 0))) hung_env 10000000 ''debug.log'' =
     Some (Ok \<lparr>ex_exit_status = None, ex_duration_ms = 10, ex_time_to_ready_marker_ms = None,
              ex_peak_rss_kib = None, ex_timed_out = True\<rparr>,
       [Spawned QemuChild, Spawned SamplerChild, Killed QemuChild, Waited QemuChild,
        Killed SamplerChild, Waited SamplerChild])"
  by (simp add: hung_simps Let_def)

theorem children_reaped_witness:
  "child_alive QemuChild [Spawned QemuChild, Spawned SamplerChild, Killed QemuChild, Waited QemuChild,
      Killed SamplerChild, Waited SamplerChild] = Some False"
  using children_reaped [OF hung_execution] by blast

section \<open>The timeout is enforced\<close>

lemma qemu_loop_ends:
  "n < fuel \<Longrightarrow> timeout \<le> qe_elapsed env (i + n) \<Longrightarrow> qemu_loop fuel env timeout i hs \<noteq> None"
proof (induction fuel arbitrary: i n hs)
  case (Suc fuel)
  have "qemu_loop fuel env timeout (Suc i) hs' \<noteq> None" if running: "\<not> timeout \<le> qe_elapsed env i" for hs'
  proof -
    obtain m where "n = Suc m" using Suc.prems(2) running by (cases n) auto
    then show ?thesis using Suc.IH [of m "Suc i"] Suc.prems by simp
  qed
  then show ?case
    by (auto simp: Let_def split: outcome.splits option.splits prod.splits)
qed simp

lemma qemu_loop_status:
  "qemu_loop fuel env timeout i hs = Some (LoopStatus status timed_out k, hs') \<Longrightarrow>
    i \<le> k \<and> (\<forall>j. i \<le> j \<and> j < k \<longrightarrow> qe_try_wait env j = Some None \<and> qe_elapsed env j < timeout) \<and>
    (if timed_out then qe_try_wait env k = Some None \<and> timeout \<le> qe_elapsed env k
     else qe_try_wait env k = Some (Some status))"
proof (induction fuel arbitrary: i hs)
  case (Suc fuel)
  show ?case
  proof (cases "qe_try_wait env i = Some None \<and> qe_elapsed env i < timeout")
    case False
    then show ?thesis using Suc.prems
      by (auto simp: Let_def guard_try_wait_def split: outcome.splits option.splits prod.splits if_splits)
  next
    case True
    then obtain hs1 where "qemu_loop fuel env timeout (Suc i) hs1 = Some (LoopStatus status timed_out k, hs')"
      using Suc.prems
      by (auto simp: Let_def guard_try_wait_def split: outcome.splits option.splits prod.splits if_splits)
    from Suc.IH [OF this] True show ?thesis by (metis Suc_leD le_neq_implies_less Suc_leI order.order_iff_strict)
  qed
qed simp

text \<open>
  C25: the timeout is enforced.  If every round of the polling loop takes at least the five
  milliseconds it sleeps, the execution returns within \<open>timeout\<close>/5ms + 2 rounds (the division
  rounds down, and one more round sees the timeout), whatever the guest does, and a returned observation is marked as timed out exactly when the guest was still running
  at every query up to the first round at which the timeout had passed.
\<close>

theorem timeout_enforced:
  assumes "\<And>i. i * 5000000 \<le> qe_elapsed env i" and "timeout div 5000000 + 2 \<le> fuel"
  shows "\<exists>res tr. execute_bounded_qemu fuel env timeout debug_log = Some (res, tr) \<and>
    (case res of
       Ok ex \<Rightarrow> ex_timed_out ex \<longleftrightarrow>
         (\<exists>k. timeout \<le> qe_elapsed env k \<and> (\<forall>j \<le> k. qe_try_wait env j = Some None) \<and>
            (\<forall>j < k. qe_elapsed env j < timeout))
     | _ \<Rightarrow> True)"
proof -
  let ?n = "timeout div 5000000 + 1"
  have fuel: "?n < fuel" using assms(2) by simp
  let ?hs = "\<lparr>hs_child = guard_new QemuChild, hs_observer = observer_new [debug_log],
    hs_sampler = rss_sampler_new, hs_trace = [Spawned QemuChild]\<rparr>"
  have "timeout \<le> ?n * 5000000" by (simp add: dividend_less_times_div less_imp_le mult.commute
      order.strict_implies_order div_mult_mod_eq)
  then have "timeout \<le> qe_elapsed env (0 + ?n)" using assms(1) [of ?n] by simp
  from qemu_loop_ends [OF fuel this] obtain e hs where
    loop: "qemu_loop fuel env timeout 0 ?hs = Some (e, hs)" by (metis not_None_eq surj_pair)
  have to: "timed_out \<longleftrightarrow> (\<exists>k. timeout \<le> qe_elapsed env k \<and> (\<forall>j \<le> k. qe_try_wait env j = Some None) \<and>
            (\<forall>j < k. qe_elapsed env j < timeout))"
    if "e = LoopStatus status timed_out k" for status timed_out k
  proof -
    note st = qemu_loop_status [OF loop [unfolded that]]
    show ?thesis
    proof (cases timed_out)
      case True
      then have "timeout \<le> qe_elapsed env k \<and> (\<forall>j \<le> k. qe_try_wait env j = Some None) \<and>
          (\<forall>j < k. qe_elapsed env j < timeout)"
        using st by (metis le_neq_implies_less zero_le)
      then show ?thesis using True by blast
    next
      case False
      have "\<not> (timeout \<le> qe_elapsed env k' \<and> (\<forall>j \<le> k'. qe_try_wait env j = Some None))" for k'
        using st False by (cases "k' < k") (auto simp: not_less dest: leD)
      then show ?thesis using False by blast
    qed
  qed
  show ?thesis
  proof (cases "qe_spawn env")
    case True
    show ?thesis
    proof (cases e)
      case (LoopStatus status timed_out k)
      let ?ob = "observe (qe_files env (Suc k)) (qe_observed_at env (Suc k)) (hs_observer hs)"
      obtain rs tr1 where po: "rss_poll (qe_sampler env (Suc k)) (qe_elapsed env (Suc k))
          (hs_sampler hs) (hs_trace hs) = (rs, tr1)" by fastforce
      obtain peak tr2 where fi: "rss_finish (qe_finish env) rs tr1 = (peak, tr2)" by fastforce
      show ?thesis
        using True loop LoopStatus po fi to [OF LoopStatus]
        by (cases ?ob) (simp_all add: execute_bounded_qemu_def)
    qed (use True loop in \<open>simp_all add: execute_bounded_qemu_def\<close>)
  qed (simp add: execute_bounded_qemu_def)
qed

theorem timeout_enforced_witness:
  "\<exists>res tr. execute_bounded_qemu 4 hung_env 10000000 ''debug.log'' = Some (res, tr)"
  using timeout_enforced [where env = hung_env and fuel = 4 and timeout = 10000000
      and debug_log = "''debug.log''"] by (auto simp: hung_env_def)

end
