(* ===== verification/Kernel_Inspection.thy ===== *)
theory Kernel_Inspection
  imports Image_Tool Xtask_Execution
begin

text \<open>
  Inspection of a linked kernel and its linker map (\<^verbatim>\<open>crates/xtask/src/inspect.rs\<close>): the parser of
  the map, the combined checks and the report.  Text is the bytes of its UTF-8 form.  The property:
  an accepted kernel has the protected layout that the report states.
\<close>

unbundle bit_operations_syntax

section \<open>Text\<close>

text \<open>\<^verbatim>\<open>str::lines\<close>: a final line without a line feed keeps a carriage return.\<close>

definition text_lines :: "u8 list \<Rightarrow> u8 list list" where
  "text_lines text =
     whole_lines text @
     (let tail = last (split_bytes 0x0A text) in if tail = [] then [] else [tail])"

text \<open>The length of the white-space character at the start of a text, 0 if there is none.\<close>

fun space_width :: "u8 list \<Rightarrow> nat" where
  "space_width (a # rest) =
     (if is_ascii_space a then 1
      else
        (case rest of
           b # c # _ \<Rightarrow> if is_space_2 a b then 2 else if is_space_3 a b c then 3 else 0
         | [b] \<Rightarrow> if is_space_2 a b then 2 else 0
         | [] \<Rightarrow> 0))"
| "space_width [] = 0"

function split_words :: "u8 list \<Rightarrow> u8 list \<Rightarrow> u8 list list" where
  "split_words word [] = (if word = [] then [] else [word])"
| "split_words word (b # rest) =
     (if space_width (b # rest) = 0 then split_words (word @ [b]) rest
      else (if word = [] then [] else [word]) @ split_words [] (drop (space_width (b # rest)) (b # rest)))"
  by pat_completeness auto
termination
  by (relation "measure (\<lambda>(word, text). length text)") auto

definition split_whitespace :: "u8 list \<Rightarrow> u8 list list" where
  "split_whitespace text = split_words [] text"

definition hex_digit_value :: "u8 \<Rightarrow> nat option" where
  "hex_digit_value b =
     (if 0x30 \<le> b \<and> b \<le> 0x39 then Some (unat b - 0x30)
      else if 0x61 \<le> b \<and> b \<le> 0x66 then Some (unat b - 0x57)
      else if 0x41 \<le> b \<and> b \<le> 0x46 then Some (unat b - 0x37)
      else None)"

fun hex_value :: "nat \<Rightarrow> u8 list \<Rightarrow> nat option" where
  "hex_value acc [] = Some acc"
| "hex_value acc (b # rest) =
     (case hex_digit_value b of
        None \<Rightarrow> None
      | Some d \<Rightarrow> if acc * 16 + d < 2 ^ 64 then hex_value (acc * 16 + d) rest else None)"

text \<open>\<^verbatim>\<open>u64::from_str_radix\<close> with radix 16: one leading plus sign is allowed.\<close>

definition from_str_radix_16 :: "u8 list \<Rightarrow> u64 option" where
  "from_str_radix_16 text =
     (let digits = (case text of b # rest \<Rightarrow> if b = 0x2B then rest else text | [] \<Rightarrow> []) in
      if digits = [] then None else map_option of_nat (hex_value 0 digits))"

definition parse_hex :: "u8 list \<Rightarrow> (message, u64) outcome" where
  "parse_hex v =
     (let digits = (if starts_with v (bytes_of ''0x'') then drop 2 v else v) in
      and_then (ensure (digits \<noteq> []) ''empty hexadecimal value'') (\<lambda>_.
      ok_or (from_str_radix_16 digits) ''invalid hexadecimal value''))"

definition inspect_align_up :: "u64 \<Rightarrow> u64 \<Rightarrow> (message, u64) outcome" where
  "inspect_align_up v alignment =
     and_then (ensure (is_power_of_two alignment) ''alignment must be a power of two'') (\<lambda>_.
     ok_or (map_option (\<lambda>s. s AND NOT (alignment - 1)) (checked_add v (alignment - 1)))
       ''address alignment overflowed'')"

section \<open>The linker map\<close>

record map_section =
  ms_name :: "u8 list"
  ms_address :: u64
  ms_size :: u64
  ms_line :: usize

record map_layout =
  ml_sections :: "u8 list \<rightharpoonup> map_section"
  ml_constants :: "u8 list \<rightharpoonup> u64"
  ml_symbols :: "u8 list \<rightharpoonup> u64"
  ml_saw_load_end_expression :: bool

definition section_end :: "map_section \<Rightarrow> (message, u64) outcome" where
  "section_end s = ok_or (checked_add (ms_address s) (ms_size s)) ''end address overflowed''"

definition section_names :: "u8 list list" where
  "section_names = map bytes_of [''.text'', ''.rodata'', ''.data'', ''.bss'', ''.stack_guard'', ''.stack'']"

definition constant_names :: "u8 list list" where
  "constant_names = map bytes_of
     [''KERNEL_BASE'', ''KERNEL_LOAD_LIMIT'', ''KERNEL_STACK_GUARD_BASE'', ''KERNEL_STACK_BASE'',
      ''KERNEL_STACK_SIZE'', ''PAGE_SIZE'']"

definition symbol_names :: "u8 list list" where
  "symbol_names = map bytes_of
     [''__kernel_start'', ''__text_start'', ''__text_end'', ''__rodata_start'', ''__rodata_end'',
      ''__data_start'', ''__data_end'', ''__bss_start'', ''__bss_end'',
      ''__bootstrap_stack_guard_start'', ''__bootstrap_stack_guard_end'',
      ''__bootstrap_stack_bottom'', ''__bootstrap_stack_top'', ''__kernel_end'',
      ''polytope_kernel_entry'']"

definition forbidden_sections :: "u8 list list" where
  "forbidden_sections = map bytes_of
     [''.interp'', ''.dynamic'', ''.dynsym'', ''.dynstr'', ''.rela.dyn'', ''.rel.dyn'', ''.plt'', ''.got.plt'']"

definition insert_unique ::
    "(u8 list \<rightharpoonup> 'v) \<Rightarrow> u8 list \<Rightarrow> 'v \<Rightarrow> (message, u8 list \<rightharpoonup> 'v) outcome" where
  "insert_unique values name v =
     and_then (ensure (values name = None) ''linker map contains duplicate'') (\<lambda>_. Ok (values(name \<mapsto> v)))"

fun has_window :: "'a list \<Rightarrow> 'a list \<Rightarrow> bool" where
  "has_window pattern [] \<longleftrightarrow> False"
| "has_window pattern (x # xs) \<longleftrightarrow>
     (length pattern \<le> length (x # xs) \<and> take (length pattern) (x # xs) = pattern) \<or> has_window pattern xs"

definition is_kernel_load_end_expression :: "u8 list list \<Rightarrow> bool" where
  "is_kernel_load_end_expression columns \<longleftrightarrow>
     has_window (map bytes_of [''__kernel_load_end'', ''='', ''ALIGN(PAGE_SIZE)'']) columns \<or>
     has_window (map bytes_of [''__kernel_load_end'', ''='', ''ALIGN'', ''('', ''PAGE_SIZE'', '')'']) columns"

definition layout_section :: "map_layout \<Rightarrow> string \<Rightarrow> (message, map_section) outcome" where
  "layout_section layout name =
     ok_or (ml_sections layout (bytes_of name)) ''linker map is missing output section''"

text \<open>One line of the map; \<open>number\<close> is \<^verbatim>\<open>line_index + 1\<close>.\<close>

definition map_line :: "usize \<Rightarrow> u8 list \<Rightarrow> map_layout \<Rightarrow> (message, map_layout) outcome" where
  "map_line number line layout =
     (let columns = split_whitespace line in
      if length columns < 5 then Ok layout
      else
        let name = columns ! 4 in
        and_then (ensure (\<not> List.member forbidden_sections name)
            ''kernel linker map contains forbidden dynamic output section'') (\<lambda>_.
        and_then
          (if List.member section_names name then
             and_then (parse_hex (columns ! 0)) (\<lambda>address.
             and_then (parse_hex (columns ! 2)) (\<lambda>bytes.
             and_then (insert_unique (ml_sections layout) name
               \<lparr>ms_name = name, ms_address = address, ms_size = bytes, ms_line = number\<rparr>) (\<lambda>sections.
             Ok (layout\<lparr>ml_sections := sections\<rparr>))))
           else if List.member constant_names name \<and> 5 < length columns \<and> columns ! 5 = bytes_of ''='' then
             and_then (ensure (6 < length columns) ''map line omits value'') (\<lambda>_.
             and_then (parse_hex (columns ! 6)) (\<lambda>v.
             and_then (insert_unique (ml_constants layout) name v) (\<lambda>constants.
             Ok (layout\<lparr>ml_constants := constants\<rparr>))))
           else if List.member symbol_names name then
             and_then (parse_hex (columns ! 0)) (\<lambda>v.
             and_then (insert_unique (ml_symbols layout) name v) (\<lambda>symbols.
             Ok (layout\<lparr>ml_symbols := symbols\<rparr>)))
           else Ok layout) (\<lambda>layout.
        Ok (if is_kernel_load_end_expression columns
            then layout\<lparr>ml_saw_load_end_expression := True\<rparr> else layout))))"

fun map_lines :: "usize \<Rightarrow> u8 list list \<Rightarrow> map_layout \<Rightarrow> (message, map_layout) outcome" where
  "map_lines number [] layout = Ok layout"
| "map_lines number (line # rest) layout =
     and_then (map_line number line layout) (map_lines (number + 1) rest)"

fun all_present :: "(u8 list \<rightharpoonup> 'v) \<Rightarrow> u8 list list \<Rightarrow> (message, unit) outcome" where
  "all_present m [] = Ok ()"
| "all_present m (name # rest) =
     and_then (ok_or (m name) ''linker map is missing output section'') (\<lambda>_. all_present m rest)"

definition map_layout_parse :: "u8 list \<Rightarrow> (message, map_layout) outcome" where
  "map_layout_parse text =
     and_then (map_lines 1 (text_lines text)
       \<lparr>ml_sections = Map.empty, ml_constants = Map.empty, ml_symbols = Map.empty,
        ml_saw_load_end_expression = False\<rparr>) (\<lambda>layout.
     and_then (all_present (ml_sections layout) section_names) (\<lambda>_.
     Ok layout))"

fun check_values ::
    "(u8 list \<rightharpoonup> u64) \<Rightarrow> message \<Rightarrow> message \<Rightarrow> (string \<times> u64) list \<Rightarrow> (message, unit) outcome" where
  "check_values m missing wrong [] = Ok ()"
| "check_values m missing wrong ((name, expected) # rest) =
     and_then (ok_or (m (bytes_of name)) missing) (\<lambda>actual.
     and_then (ensure (actual = expected) wrong) (\<lambda>_.
     check_values m missing wrong rest))"

definition validate_constants_and_symbols :: "map_layout \<Rightarrow> u64 \<Rightarrow> (message, unit) outcome" where
  "validate_constants_and_symbols layout entry_point =
     and_then (check_values (ml_constants layout) ''linker map is missing constant''
         ''linker constant differs''
       [(''KERNEL_BASE'', KERNEL_BASE_ADDRESS), (''KERNEL_LOAD_LIMIT'', KERNEL_LOAD_LIMIT),
        (''KERNEL_STACK_GUARD_BASE'', STACK_GUARD_ADDRESS), (''KERNEL_STACK_BASE'', STACK_BASE_ADDRESS),
        (''KERNEL_STACK_SIZE'', STACK_SIZE_BYTES), (''PAGE_SIZE'', ELF_PAGE_SIZE)]) (\<lambda>_.
     and_then (layout_section layout ''.text'') (\<lambda>code.
     and_then (layout_section layout ''.rodata'') (\<lambda>rodata.
     and_then (layout_section layout ''.data'') (\<lambda>data.
     and_then (layout_section layout ''.bss'') (\<lambda>bss.
     and_then (section_end code) (\<lambda>code_end.
     and_then (section_end rodata) (\<lambda>rodata_end.
     and_then (section_end data) (\<lambda>data_end.
     and_then (section_end bss) (\<lambda>bss_end.
     and_then (check_values (ml_symbols layout) ''linker map is missing symbol'' ''linker symbol differs''
       [(''__kernel_start'', KERNEL_BASE_ADDRESS), (''__text_start'', ms_address code),
        (''__text_end'', code_end), (''__rodata_start'', ms_address rodata),
        (''__rodata_end'', rodata_end), (''__data_start'', ms_address data), (''__data_end'', data_end),
        (''__bss_start'', ms_address bss), (''__bss_end'', bss_end),
        (''__bootstrap_stack_guard_start'', STACK_GUARD_ADDRESS),
        (''__bootstrap_stack_guard_end'', STACK_BASE_ADDRESS),
        (''__bootstrap_stack_bottom'', STACK_BASE_ADDRESS),
        (''__bootstrap_stack_top'', STACK_BASE_ADDRESS + STACK_SIZE_BYTES),
        (''__kernel_end'', STACK_BASE_ADDRESS + STACK_SIZE_BYTES),
        (''polytope_kernel_entry'', entry_point)]) (\<lambda>_.
     ensure (ml_saw_load_end_expression layout)
       ''linker map is missing the page-aligned __kernel_load_end expression''))))))))))"

section \<open>The combined checks\<close>

record segment_inspection =
  si_index :: u16
  si_flags :: u32
  si_file_offset :: u64
  si_virtual_address :: u64
  si_physical_address :: u64
  si_file_size :: u64
  si_memory_size :: u64
  si_zero_fill_size :: u64
  si_alignment :: u64

definition MAX_MAP_FILE_SIZE :: usize where "MAX_MAP_FILE_SIZE = 4 * 1024 * 1024"
definition EXPECTED_SEGMENTS :: usize where "EXPECTED_SEGMENTS = 4"
definition INSPECT_PF_X :: u32 where "INSPECT_PF_X = 1"
definition INSPECT_PF_W :: u32 where "INSPECT_PF_W = 2"
definition INSPECT_PF_R :: u32 where "INSPECT_PF_R = 4"

fun section_order :: "map_layout \<Rightarrow> usize option \<Rightarrow> string list \<Rightarrow> (message, unit) outcome" where
  "section_order layout previous_line [] = Ok ()"
| "section_order layout previous_line (name # rest) =
     and_then (layout_section layout name) (\<lambda>s.
     and_then (case previous_line of
           None \<Rightarrow> Ok ()
         | Some previous \<Rightarrow> ensure (ms_line s > previous) ''linker-map section is out of order'') (\<lambda>_.
     section_order layout (Some (ms_line s)) rest))"

definition validate_section_order :: "map_layout \<Rightarrow> (message, unit) outcome" where
  "validate_section_order layout =
     section_order layout None [''.text'', ''.rodata'', ''.data'', ''.bss'', ''.stack_guard'', ''.stack'']"

definition validate_segment ::
    "segment_inspection \<Rightarrow> map_section \<Rightarrow> u32 \<Rightarrow> bool \<Rightarrow> (message, unit) outcome" where
  "validate_segment s sec flags exact_memory_size =
     and_then (ensure (si_flags s = flags) ''PT_LOAD flags differ'') (\<lambda>_.
     and_then (ensure (si_physical_address s = ms_address sec)
         ''PT_LOAD address differs from the linker map'') (\<lambda>_.
     and_then (ensure (si_virtual_address s = si_physical_address s) ''PT_LOAD is not identity mapped'') (\<lambda>_.
     and_then (ensure (si_file_size s = ms_size sec)
         ''initialized size differs from the linker map'') (\<lambda>_.
     and_then (if exact_memory_size
         then ensure (si_memory_size s = ms_size sec) ''memory size contains unexpected zero fill''
         else Ok ()) (\<lambda>_.
     ensure (si_alignment s = ELF_PAGE_SIZE) ''PT_LOAD is not page aligned'')))))"

definition validate_data_segment ::
    "segment_inspection \<Rightarrow> map_section \<Rightarrow> map_section \<Rightarrow> (message, unit) outcome" where
  "validate_data_segment s data bss =
     and_then (validate_segment s data (INSPECT_PF_R OR INSPECT_PF_W) False) (\<lambda>_.
     and_then (ensure (si_zero_fill_size s \<ge> ms_size bss) ''data PT_LOAD does not reserve all .bss bytes'') (\<lambda>_.
     and_then (section_end bss) (\<lambda>bss_end.
     and_then (ensure (checked_add (si_physical_address s) (si_memory_size s) = Some bss_end)
         ''data PT_LOAD memory end differs from .bss end'') (\<lambda>_.
     and_then (section_end data) (\<lambda>data_end.
     ensure (checked_add (si_physical_address s) (si_file_size s) = Some data_end)
       ''data PT_LOAD file end differs from .data end'')))))"

definition validate_stack_segment :: "segment_inspection \<Rightarrow> map_section \<Rightarrow> (message, unit) outcome" where
  "validate_stack_segment s stack =
     and_then (ensure (si_flags s = INSPECT_PF_R OR INSPECT_PF_W)
         ''stack PT_LOAD must be readable, writable, and non-executable'') (\<lambda>_.
     and_then (ensure (si_physical_address s = STACK_BASE_ADDRESS \<and>
           si_virtual_address s = STACK_BASE_ADDRESS) ''stack PT_LOAD starts at the wrong address'') (\<lambda>_.
     and_then (ensure (si_file_size s = 0)
         ''stack PT_LOAD must not consume initialized file bytes'') (\<lambda>_.
     and_then (ensure (si_memory_size s = STACK_SIZE_BYTES \<and> si_zero_fill_size s = STACK_SIZE_BYTES)
         ''stack PT_LOAD has the wrong reservation size'') (\<lambda>_.
     and_then (ensure (si_alignment s = ELF_PAGE_SIZE) ''stack PT_LOAD is not page aligned'') (\<lambda>_.
     and_then (section_end stack) (\<lambda>stack_end.
     ensure (stack_end = STACK_BASE_ADDRESS + STACK_SIZE_BYTES)
       ''linker-map stack end is incorrect''))))))"

definition clears_guard :: "segment_inspection \<Rightarrow> bool" where
  "clears_guard s \<longleftrightarrow>
     (case checked_add (si_physical_address s) (si_memory_size s) of
        None \<Rightarrow> False
      | Some stop \<Rightarrow> stop \<le> STACK_GUARD_ADDRESS \<or> si_physical_address s \<ge> STACK_BASE_ADDRESS)"

definition validate_combined ::
    "u64 \<Rightarrow> segment_inspection list \<Rightarrow> map_layout \<Rightarrow> (message, unit) outcome" where
  "validate_combined entry_point segs layout =
     and_then (ensure (length segs = EXPECTED_SEGMENTS) ''wrong number of PT_LOAD records'') (\<lambda>_.
     and_then (ensure (entry_point = KERNEL_BASE_ADDRESS) ''wrong kernel entry point'') (\<lambda>_.
     and_then (validate_constants_and_symbols layout entry_point) (\<lambda>_.
     and_then (validate_section_order layout) (\<lambda>_.
     and_then (layout_section layout ''.text'') (\<lambda>code.
     and_then (layout_section layout ''.rodata'') (\<lambda>rodata.
     and_then (layout_section layout ''.data'') (\<lambda>data.
     and_then (layout_section layout ''.bss'') (\<lambda>bss.
     and_then (layout_section layout ''.stack_guard'') (\<lambda>guard.
     and_then (layout_section layout ''.stack'') (\<lambda>stack.
     and_then (ensure (ms_address code = KERNEL_BASE_ADDRESS \<and> ms_size code > 0)
         ''.text does not start at the non-empty kernel base'') (\<lambda>_.
     and_then (ensure (ms_address rodata mod ELF_PAGE_SIZE = 0 \<and> ms_size rodata > 0)
         ''.rodata is empty or misaligned'') (\<lambda>_.
     and_then (ensure (ms_address data mod ELF_PAGE_SIZE = 0 \<and> ms_size data > 0)
         ''.data is empty or misaligned'') (\<lambda>_.
     and_then (ensure (ms_address bss mod ELF_PAGE_SIZE = 0 \<and> ms_size bss > 0)
         ''.bss is empty or misaligned'') (\<lambda>_.
     and_then (section_end code) (\<lambda>code_end.
     and_then (ensure (code_end \<le> ms_address rodata) ''.text overlaps .rodata'') (\<lambda>_.
     and_then (section_end rodata) (\<lambda>rodata_end.
     and_then (ensure (rodata_end \<le> ms_address data) ''.rodata overlaps .data'') (\<lambda>_.
     and_then (section_end data) (\<lambda>data_end.
     and_then (ensure (data_end \<le> ms_address bss) ''.data overlaps .bss'') (\<lambda>_.
     and_then (ensure (ms_address guard = STACK_GUARD_ADDRESS \<and> ms_size guard = ELF_PAGE_SIZE)
         ''stack guard must be one page'') (\<lambda>_.
     and_then (ensure (ms_address stack = STACK_BASE_ADDRESS \<and> ms_size stack = STACK_SIZE_BYTES)
         ''bootstrap stack has the wrong place'') (\<lambda>_.
     and_then (section_end bss) (\<lambda>bss_end.
     and_then (inspect_align_up bss_end ELF_PAGE_SIZE) (\<lambda>load_end.
     and_then (ensure (load_end \<le> STACK_GUARD_ADDRESS)
         ''kernel load sections overlap the stack guard'') (\<lambda>_.
     and_then (index_at segs 0) (\<lambda>s0.
     and_then (validate_segment s0 code (INSPECT_PF_R OR INSPECT_PF_X) True) (\<lambda>_.
     and_then (index_at segs 1) (\<lambda>s1.
     and_then (validate_segment s1 rodata INSPECT_PF_R True) (\<lambda>_.
     and_then (index_at segs 2) (\<lambda>s2.
     and_then (validate_data_segment s2 data bss) (\<lambda>_.
     and_then (index_at segs 3) (\<lambda>s3.
     and_then (validate_stack_segment s3 stack) (\<lambda>_.
     ensure (list_all clears_guard segs)
       ''a PT_LOAD range maps the bootstrap-stack guard page'')))))))))))))))))))))))))))))))))"

section \<open>The report\<close>

record section_inspection =
  sc_name :: "u8 list"
  sc_address :: u64
  sc_size :: u64

record kernel_inspection =
  ki_schema_version :: u32
  ki_kernel_sha256 :: string
  ki_map_sha256 :: string
  ki_kernel_bytes :: u64
  ki_map_bytes :: u64
  ki_entry_point :: u64
  ki_kernel_base :: u64
  ki_kernel_load_end :: u64
  ki_stack_guard_base :: u64
  ki_stack_guard_bytes :: u64
  ki_stack_base :: u64
  ki_stack_top :: u64
  ki_bss_start :: u64
  ki_bss_end :: u64
  ki_data_zero_fill_bytes :: u64
  ki_write_xor_execute :: bool
  ki_segments :: "segment_inspection list"
  ki_sections :: "section_inspection list"

definition section_report :: "map_section \<Rightarrow> section_inspection" where
  "section_report s = \<lparr>sc_name = ms_name s, sc_address = ms_address s, sc_size = ms_size s\<rparr>"

definition report_sections :: "map_layout \<Rightarrow> section_inspection list" where
  "report_sections layout = map section_report (List.map_filter (ml_sections layout) section_names)"

fun inspect_segments :: "load_segment list \<Rightarrow> (message, segment_inspection list) outcome" where
  "inspect_segments [] = Ok []"
| "inspect_segments (s # rest) =
     and_then (zero_fill_size s) (\<lambda>zero_fill.
     and_then (inspect_segments rest) (\<lambda>others.
     Ok (\<lparr>si_index = seg_index s, si_flags = flag_bits (seg_flags s), si_file_offset = seg_file_offset s,
          si_virtual_address = seg_virtual_address s, si_physical_address = seg_physical_address s,
          si_file_size = seg_file_size s, si_memory_size = seg_memory_size s,
          si_zero_fill_size = zero_fill, si_alignment = seg_alignment s\<rparr> # others)))"

definition inspect_kernel_bytes ::
    "('u, 'g, 'v, 'd) image_crates \<Rightarrow> u8 list \<Rightarrow> u8 list \<Rightarrow> (message, kernel_inspection) outcome" where
  "inspect_kernel_bytes ic kernel_elf linker_map =
     and_then (ensure (length kernel_elf \<le> MAX_ELF_FILE_SIZE) ''kernel ELF is too large'') (\<lambda>_.
     and_then (ensure (length linker_map \<le> MAX_MAP_FILE_SIZE) ''kernel linker map is too large'') (\<lambda>_.
     and_then (ensure (0 \<notin> set linker_map) ''kernel linker map contains a NUL byte'') (\<lambda>_.
     and_then (ensure (utf8_valid linker_map) ''kernel linker map is not valid UTF-8'') (\<lambda>_.
     and_then (map_err (\<lambda>_. ''kernel ELF rejected'') (elf_parse kernel_elf)) (\<lambda>elf.
     and_then (map_layout_parse linker_map) (\<lambda>layout.
     and_then (map_err (\<lambda>_. []) (collect_segments (segments elf))) (\<lambda>loads.
     and_then (inspect_segments loads) (\<lambda>segs.
     and_then (validate_combined (elf_entry_point elf) segs layout) (\<lambda>_.
     and_then (layout_section layout ''.bss'') (\<lambda>bss.
     and_then (section_end bss) (\<lambda>bss_end.
     and_then (inspect_align_up bss_end ELF_PAGE_SIZE) (\<lambda>kernel_load_end.
     and_then (ok_or (u64_try_from_usize (length kernel_elf)) ''kernel byte count does not fit u64'')
       (\<lambda>kernel_bytes.
     and_then (ok_or (u64_try_from_usize (length linker_map)) ''map byte count does not fit u64'')
       (\<lambda>map_bytes.
     and_then (section_end bss) (\<lambda>bss_end'.
     and_then (index_at segs 2) (\<lambda>s2.
     Ok \<lparr>ki_schema_version = 1, ki_kernel_sha256 = sha256_hex ic kernel_elf,
         ki_map_sha256 = sha256_hex ic linker_map, ki_kernel_bytes = kernel_bytes,
         ki_map_bytes = map_bytes, ki_entry_point = elf_entry_point elf,
         ki_kernel_base = KERNEL_BASE_ADDRESS, ki_kernel_load_end = kernel_load_end,
         ki_stack_guard_base = STACK_GUARD_ADDRESS, ki_stack_guard_bytes = ELF_PAGE_SIZE,
         ki_stack_base = STACK_BASE_ADDRESS, ki_stack_top = STACK_BASE_ADDRESS + STACK_SIZE_BYTES,
         ki_bss_start = ms_address bss, ki_bss_end = bss_end',
         ki_data_zero_fill_bytes = si_zero_fill_size s2, ki_write_xor_execute = True,
         ki_segments = segs, ki_sections = report_sections layout\<rparr>))))))))))))))))"

section \<open>The inspected segments\<close>

definition inspected :: "load_segment \<Rightarrow> segment_inspection" where
  "inspected s =
     \<lparr>si_index = seg_index s, si_flags = flag_bits (seg_flags s), si_file_offset = seg_file_offset s,
      si_virtual_address = seg_virtual_address s, si_physical_address = seg_physical_address s,
      si_file_size = seg_file_size s, si_memory_size = seg_memory_size s,
      si_zero_fill_size = seg_memory_size s - seg_file_size s, si_alignment = seg_alignment s\<rparr>"

lemma inspect_segments_eq:
  "list_all (\<lambda>s. seg_file_size s \<le> seg_memory_size s) ss \<Longrightarrow> inspect_segments ss = Ok (map inspected ss)"
  by (induction ss) (simp_all add: zero_fill_size_def sub_or_panic_eq inspected_def word_le_nat_alt)

lemma loads_inspected:
  assumes "elf_parse bytes = Ok v"
  shows "\<exists>ss. collect_segments (segments v) = Ok ss \<and> inspect_segments ss = Ok (map inspected ss)"
proof -
  have ok: "elf_image_ok bytes" and v: "v = elf_view bytes" using assms by (simp_all add: elf_parse_Ok_iff)
  have "list_all (\<lambda>s. seg_file_size s \<le> seg_memory_size s) (map (segment_of bytes) (indexed_loads bytes 0))"
    using indexed_loads_ok(2) [OF ok]
    by (fastforce simp: list_all_iff segment_of_def segment_ok_def word_le_nat_alt)
  then show ?thesis
    using collect_segments_eq [OF ok] inspect_segments_eq by (auto simp: v)
qed

section \<open>No panic\<close>

lemma parse_hex_not_Panic: "parse_hex v \<noteq> Panic"
  by (simp add: parse_hex_def Let_def outcome_simps)

lemma map_line_not_Panic: "map_line n line layout \<noteq> Panic"
  by (simp add: map_line_def Let_def outcome_simps parse_hex_not_Panic insert_unique_def)

lemma map_lines_not_Panic: "map_lines n ls layout \<noteq> Panic"
  by (induction ls arbitrary: n layout) (simp_all add: outcome_simps map_line_not_Panic)

lemma all_present_not_Panic: "all_present m names \<noteq> Panic"
  by (induction names) (simp_all add: outcome_simps)

lemma map_layout_parse_not_Panic: "map_layout_parse text \<noteq> Panic"
  by (simp add: map_layout_parse_def outcome_simps map_lines_not_Panic all_present_not_Panic)

lemma check_values_not_Panic: "check_values m a b vs \<noteq> Panic"
  by (induction m a b vs rule: check_values.induct) (simp_all add: outcome_simps)

lemma section_order_not_Panic: "section_order layout p names \<noteq> Panic"
  by (induction layout p names rule: section_order.induct)
    (auto simp: outcome_simps layout_section_def split: option.splits)

lemma layout_section_not_Panic: "layout_section layout name \<noteq> Panic"
  by (simp add: layout_section_def ok_or_not_Panic)

lemma section_end_not_Panic: "section_end s \<noteq> Panic"
  by (simp add: section_end_def ok_or_not_Panic)

lemma inspect_align_up_not_Panic: "inspect_align_up v a \<noteq> Panic"
  unfolding inspect_align_up_def by (intro and_then_not_Panic ensure_not_Panic ok_or_not_Panic)

lemmas inspection_no_panic = and_then_not_Panic ensure_not_Panic layout_section_not_Panic
  section_end_not_Panic inspect_align_up_not_Panic check_values_not_Panic section_order_not_Panic

lemma validate_constants_not_Panic: "validate_constants_and_symbols layout e \<noteq> Panic"
  unfolding validate_constants_and_symbols_def by (intro inspection_no_panic)

lemma validate_segment_not_Panic: "validate_segment s sec flags exact \<noteq> Panic"
  unfolding validate_segment_def by (cases exact) (simp_all add: outcome_simps)

lemma validate_data_segment_not_Panic: "validate_data_segment s data bss \<noteq> Panic"
  unfolding validate_data_segment_def by (intro inspection_no_panic validate_segment_not_Panic)

lemma validate_stack_segment_not_Panic: "validate_stack_segment s stack \<noteq> Panic"
  unfolding validate_stack_segment_def by (intro inspection_no_panic)

lemma validate_combined_not_Panic: "validate_combined e segs layout \<noteq> Panic"
proof (cases "length segs = EXPECTED_SEGMENTS")
  case True
  then have index: "index_at segs 0 \<noteq> (Panic :: (message, _) outcome)"
    "index_at segs 1 \<noteq> (Panic :: (message, _) outcome)" "index_at segs 2 \<noteq> (Panic :: (message, _) outcome)"
    "index_at segs 3 \<noteq> (Panic :: (message, _) outcome)"
    by (simp_all add: EXPECTED_SEGMENTS_def index_at_Panic_iff)
  show ?thesis
    unfolding validate_combined_def validate_section_order_def
    by (intro inspection_no_panic validate_constants_not_Panic validate_segment_not_Panic
        validate_data_segment_not_Panic validate_stack_segment_not_Panic index)
qed (simp add: validate_combined_def)

lemma inspect_kernel_not_Panic: "inspect_kernel_bytes ic kernel_elf linker_map \<noteq> Panic"
proof (cases "elf_parse kernel_elf")
  case (Ok v)
  obtain ss where ss: "collect_segments (segments v) = Ok ss" "inspect_segments ss = Ok (map inspected ss)"
    using loads_inspected [OF Ok] by blast
  have last: "index_at segs 2 \<noteq> (Panic :: (message, _) outcome)"
    if "validate_combined e segs layout = Ok u" for e segs layout u
    using that by (auto simp: validate_combined_def and_then_Ok_iff [of "ensure _ _"] ensure_Ok_iff
        EXPECTED_SEGMENTS_def index_at_Panic_iff)
  show ?thesis
    unfolding inspect_kernel_bytes_def Ok map_err.simps and_then.simps ss
    by (intro inspection_no_panic map_layout_parse_not_Panic validate_combined_not_Panic ok_or_not_Panic)
      (auto simp: ss dest: last intro!: inspection_no_panic validate_combined_not_Panic ok_or_not_Panic)
qed (use elf_parse_not_Panic [of kernel_elf] in \<open>auto simp: inspect_kernel_bytes_def outcome_simps\<close>)

section \<open>The accepted layout\<close>

definition segment_range :: "segment_inspection \<Rightarrow> nat set" where
  "segment_range s = {unat (si_physical_address s) ..< unat (si_physical_address s) + unat (si_memory_size s)}"

definition guard_page :: "nat set" where
  "guard_page = {0x047ff000 ..< 0x04800000}"

lemma four_segments: "length segs = 4 \<Longrightarrow> segs = [segs ! 0, segs ! 1, segs ! 2, segs ! 3]"
  by (simp add: list_eq_iff_nth_eq less_Suc_eq numeral_eq_Suc)

lemma clears_guard_range: "clears_guard s \<Longrightarrow> segment_range s \<inter> guard_page = {}"
  by (auto simp: clears_guard_def segment_range_def guard_page_def STACK_GUARD_ADDRESS_def
      STACK_BASE_ADDRESS_def word_le_nat_alt checked_add_Some_iff unat_add_no_overflow
      split: option.splits)

lemma section_end_Ok:
  "section_end s = Ok e \<longleftrightarrow> unat (ms_address s) + unat (ms_size s) < 2 ^ 64 \<and> e = ms_address s + ms_size s"
  by (simp add: section_end_def ok_or_Ok_iff checked_add_Some_iff)

lemma section_end_unat: "section_end s = Ok e \<Longrightarrow> unat e = unat (ms_address s) + unat (ms_size s)"
  by (auto simp: section_end_Ok unat_add_no_overflow)

lemma inspect_align_up_page:
  assumes "inspect_align_up v ELF_PAGE_SIZE = Ok w"
  shows "4096 dvd unat w" and "unat v \<le> unat w"
proof -
  have "(mask 12 :: u64) = 4095" by (simp add: mask_eq_exp_minus_1)
  then have cut: "unat (x AND (- 4096 :: u64)) = unat x div 4096 * 4096" for x
    using unat_and_not_mask [of x 12] by simp
  have "unat v + 4095 < 2 ^ 64" "unat w = (unat v + 4095) div 4096 * 4096"
    using assms
    by (auto simp: inspect_align_up_def outcome_simps ELF_PAGE_SIZE_def checked_add_Some_iff cut
        unat_add_no_overflow)
  then show "4096 dvd unat w" and "unat v \<le> unat w" by (simp, linarith)
qed

lemma combined_facts:
  assumes "validate_combined e segs layout = Ok u"
  obtains code rodata data bss rodata_end data_end bss_end load_end where
    "length segs = 4" "e = KERNEL_BASE_ADDRESS" "ms_address code = KERNEL_BASE_ADDRESS"
    "layout_section layout ''.bss'' = Ok bss"
    "section_end bss = Ok bss_end" "inspect_align_up bss_end ELF_PAGE_SIZE = Ok load_end"
    "load_end \<le> STACK_GUARD_ADDRESS" "section_end rodata = Ok rodata_end" "rodata_end \<le> ms_address data"
    "section_end data = Ok data_end" "data_end \<le> ms_address bss"
    "\<exists>code_end. section_end code = Ok code_end \<and> code_end \<le> ms_address rodata"
    "validate_segment (segs ! 0) code (INSPECT_PF_R OR INSPECT_PF_X) True = Ok ()"
    "validate_segment (segs ! 1) rodata INSPECT_PF_R True = Ok ()"
    "validate_data_segment (segs ! 2) data bss = Ok ()"
    "\<exists>stack. validate_stack_segment (segs ! 3) stack = Ok ()"
    "list_all clears_guard segs"
proof -
  have len: "length segs = 4"
    using assms by (auto simp: validate_combined_def and_then_Ok_iff [of "ensure _ _"] ensure_Ok_iff
        EXPECTED_SEGMENTS_def)
  then have index: "index_at segs 0 = (Ok (segs ! 0) :: (message, _) outcome)"
    "index_at segs 1 = (Ok (segs ! 1) :: (message, _) outcome)"
    "index_at segs 2 = (Ok (segs ! 2) :: (message, _) outcome)"
    "index_at segs 3 = (Ok (segs ! 3) :: (message, _) outcome)"
    by (simp_all add: index_at_def)
  have ex_unit: "(\<exists>x :: unit. P x) \<longleftrightarrow> P ()" for P by auto
  show ?thesis
    using assms unfolding validate_combined_def index and_then.simps and_then_Ok_iff ensure_Ok_iff ex_unit
    by (elim exE conjE) (rule that [OF len], (assumption | intro exI conjI)+)
qed

lemma validate_segment_facts:
  assumes "validate_segment s sec flags exact = Ok ()"
  shows "si_flags s = flags" "si_physical_address s = ms_address sec" "si_file_size s = ms_size sec"
    "exact \<Longrightarrow> si_memory_size s = ms_size sec"
  using assms by (auto simp: validate_segment_def outcome_simps)

lemma validate_data_segment_facts:
  assumes "validate_data_segment s data bss = Ok ()" and "section_end bss = Ok bss_end"
    and "section_end data = Ok data_end"
  shows "validate_segment s data (INSPECT_PF_R OR INSPECT_PF_W) False = Ok ()"
    and "unat (si_physical_address s) + unat (si_memory_size s) = unat bss_end"
    and "unat (si_physical_address s) + unat (si_file_size s) = unat data_end"
  using assms
  by (auto simp: validate_data_segment_def outcome_simps checked_add_Some_iff unat_add_no_overflow)

lemma validate_stack_segment_facts:
  assumes "validate_stack_segment s stack = Ok ()"
  shows "si_flags s = INSPECT_PF_R OR INSPECT_PF_W" "segment_range s = {0x04800000 ..< 0x04810000}"
  using assms
  by (auto simp: validate_stack_segment_def outcome_simps segment_range_def STACK_BASE_ADDRESS_def
      STACK_SIZE_BYTES_def)

lemma inspect_kernel_parts:
  assumes "inspect_kernel_bytes ic kernel_elf linker_map = Ok r"
  obtains layout bss bss_end where "elf_image_ok kernel_elf"
    "validate_combined (ki_entry_point r) (ki_segments r) layout = Ok ()"
    "layout_section layout ''.bss'' = Ok bss" "section_end bss = Ok bss_end"
    "inspect_align_up bss_end ELF_PAGE_SIZE = Ok (ki_kernel_load_end r)"
    "ki_bss_start r = ms_address bss" "ki_bss_end r = bss_end"
proof -
  have err: "map_err f x = Ok y \<longleftrightarrow> x = Ok y" for f and x :: "('a, 'b) outcome" and y
    by (cases x) simp_all
  from assms obtain elf where elf: "elf_parse kernel_elf = Ok elf"
    by (cases "elf_parse kernel_elf") (auto simp: inspect_kernel_bytes_def outcome_simps)
  then have ok: "elf_image_ok kernel_elf" by (simp add: elf_parse_Ok_iff)
  obtain ss where ss: "collect_segments (segments elf) = Ok ss" "inspect_segments ss = Ok (map inspected ss)"
    using loads_inspected [OF elf] by blast
  show ?thesis
    using assms ok that
    by (auto simp: inspect_kernel_bytes_def elf ss outcome_simps)
qed

text \<open>
  C32: inspection never panics, and a kernel it accepts has the protected layout.  The ELF file
  satisfies the load policy; its four segments are code (read and execute), constants (read), data
  and stack (read and write), in this order and without overlap, from the kernel base on; the
  uninitialised data lie in the zero-filled tail of the data segment; the load image ends, rounded up
  to a page, before the stack guard; the stack is exactly the reserved range; and no segment touches
  the guard page.
\<close>

theorem inspected_kernel_layout:
  "case inspect_kernel_bytes ic kernel_elf linker_map of
     Panic \<Rightarrow> False
   | Err _ \<Rightarrow> True
   | Ok r \<Rightarrow> elf_image_ok kernel_elf \<and> ki_entry_point r = 0x04000000 \<and>
       (\<exists>code rodata data stack. ki_segments r = [code, rodata, data, stack] \<and>
          map si_flags (ki_segments r) = [5, 4, 6, 6] \<and>
          unat (si_physical_address code) = 0x04000000 \<and>
          unat (si_physical_address code) + unat (si_memory_size code) \<le> unat (si_physical_address rodata) \<and>
          unat (si_physical_address rodata) + unat (si_memory_size rodata) \<le> unat (si_physical_address data) \<and>
          unat (si_physical_address data) + unat (si_file_size data) \<le> unat (ki_bss_start r) \<and>
          unat (si_physical_address data) + unat (si_memory_size data) = unat (ki_bss_end r) \<and>
          segment_range stack = {0x04800000 ..< 0x04810000}) \<and>
       unat (ki_bss_end r) \<le> unat (ki_kernel_load_end r) \<and> 4096 dvd unat (ki_kernel_load_end r) \<and>
       unat (ki_kernel_load_end r) \<le> 0x047ff000 \<and>
       list_all (\<lambda>s. segment_range s \<inter> guard_page = {}) (ki_segments r)"
proof (cases "inspect_kernel_bytes ic kernel_elf linker_map")
  case Panic
  then show ?thesis using inspect_kernel_not_Panic [of ic kernel_elf linker_map] by simp
next
  case (Ok r)
  obtain layout bss bss_end where r: "elf_image_ok kernel_elf"
    "validate_combined (ki_entry_point r) (ki_segments r) layout = Ok ()"
    "layout_section layout ''.bss'' = Ok bss" "section_end bss = Ok bss_end"
    "inspect_align_up bss_end ELF_PAGE_SIZE = Ok (ki_kernel_load_end r)"
    "ki_bss_start r = ms_address bss" "ki_bss_end r = bss_end"
    by (rule inspect_kernel_parts [OF Ok])
  let ?s = "ki_segments r"
  obtain code rodata data bss' rodata_end data_end bss_end' load_end where
    len: "length ?s = 4" and entry: "ki_entry_point r = KERNEL_BASE_ADDRESS" "ms_address code = KERNEL_BASE_ADDRESS"
    and bss: "layout_section layout ''.bss'' = Ok bss'" "section_end bss' = Ok bss_end'"
    "inspect_align_up bss_end' ELF_PAGE_SIZE = Ok load_end" "load_end \<le> STACK_GUARD_ADDRESS"
    and ends: "section_end rodata = Ok rodata_end" "rodata_end \<le> ms_address data"
    "section_end data = Ok data_end" "data_end \<le> ms_address bss'"
    and code_ex: "\<exists>code_end. section_end code = Ok code_end \<and> code_end \<le> ms_address rodata"
    and segs: "validate_segment (?s ! 0) code (INSPECT_PF_R OR INSPECT_PF_X) True = Ok ()"
    "validate_segment (?s ! 1) rodata INSPECT_PF_R True = Ok ()"
    "validate_data_segment (?s ! 2) data bss' = Ok ()"
    and stack_ex: "\<exists>stack. validate_stack_segment (?s ! 3) stack = Ok ()"
    and guard: "list_all clears_guard ?s"
    by (rule combined_facts [OF r(2)])
  obtain code_end where code_end: "section_end code = Ok code_end" "code_end \<le> ms_address rodata"
    using code_ex by blast
  obtain stack where stack: "validate_stack_segment (?s ! 3) stack = Ok ()" using stack_ex by blast
  have same: "bss' = bss" "bss_end' = bss_end" "load_end = ki_kernel_load_end r"
    using bss r(3-5) by simp_all
  note f0 = validate_segment_facts [OF segs(1)] and f1 = validate_segment_facts [OF segs(2)]
  note d = validate_data_segment_facts [OF segs(3) bss(2) ends(3)]
  note f2 = validate_segment_facts [OF d(1)] and f3 = validate_stack_segment_facts [OF stack]
  have four: "?s = [?s ! 0, ?s ! 1, ?s ! 2, ?s ! 3]" by (rule four_segments [OF len])
  have flags: "map si_flags [?s ! 0, ?s ! 1, ?s ! 2, ?s ! 3] = [5, 4, 6, 6]"
    using f0(1) f1(1) f2(1) f3(1) by (simp add: INSPECT_PF_R_def INSPECT_PF_X_def INSPECT_PF_W_def)
  have order: "unat (si_physical_address (?s ! 0)) + unat (si_memory_size (?s ! 0)) \<le>
      unat (si_physical_address (?s ! 1))"
    "unat (si_physical_address (?s ! 1)) + unat (si_memory_size (?s ! 1)) \<le> unat (si_physical_address (?s ! 2))"
    "unat (si_physical_address (?s ! 2)) + unat (si_file_size (?s ! 2)) \<le> unat (ki_bss_start r)"
    using f0 f1 f2 d(3) ends(2,4) code_end(2) section_end_unat [OF ends(1)] section_end_unat [OF code_end(1)] r(6) same
    by (simp_all add: word_le_nat_alt)
  have load: "unat (ki_bss_end r) \<le> unat (ki_kernel_load_end r)" "4096 dvd unat (ki_kernel_load_end r)"
    "unat (ki_kernel_load_end r) \<le> 0x047ff000"
    using inspect_align_up_page [OF r(5)] bss(4) r(7) same
    by (simp_all add: word_le_nat_alt STACK_GUARD_ADDRESS_def)
  have clear: "list_all (\<lambda>s. segment_range s \<inter> guard_page = {}) ?s"
    using guard clears_guard_range by (auto simp: list_all_iff)
  show ?thesis
    unfolding Ok outcome.case
    using r(1,7) entry f0(2) d(2) f3(2) order load clear four flags same
    by (intro conjI exI [of _ "?s ! 0"] exI [of _ "?s ! 1"] exI [of _ "?s ! 2"] exI [of _ "?s ! 3"])
      (simp_all add: KERNEL_BASE_ADDRESS_def)
qed simp

end
