(* ===== verification/Host_Files.thy ===== *)
theory Host_Files
  imports Kernel_Inspection
begin

text \<open>
  The file operations of the host tools: bounded reading of input files, and replacing an output
  file through a temporary one (\<^verbatim>\<open>write_atomic\<close> of \<^verbatim>\<open>crates/xtask/src/image.rs\<close> and
  \<^verbatim>\<open>write_verified_file\<close> of \<^verbatim>\<open>crates/xtask/src/repro.rs\<close>), with the commands that use them.  The file
  system is a map from paths to contents; which system calls fail is an argument.
\<close>

section \<open>Paths\<close>

text \<open>A path is the list of its components, a name the bytes of it.\<close>

datatype component = RootDir | CurDir | ParentDir | NormalName "u8 list"

type_synonym path = "component list"

definition path_parent :: "path \<Rightarrow> path option" where
  "path_parent p = (if p = [] \<or> last p = RootDir then None else Some (butlast p))"

definition path_file_name :: "path \<Rightarrow> u8 list option" where
  "path_file_name p = (if p = [] then None else case last p of NormalName n \<Rightarrow> Some n | _ \<Rightarrow> None)"

definition path_join :: "path \<Rightarrow> u8 list \<Rightarrow> path" where
  "path_join p name = p @ [NormalName name]"

text \<open>Two paths that differ only in dot components name the same file.\<close>

definition resolved :: "path \<Rightarrow> path" where
  "resolved p = filter (\<lambda>c. c \<noteq> CurDir) p"

text \<open>
  \<^verbatim>\<open>String::from_utf8_lossy\<close>: each maximal part of an ill-formed sequence becomes U+FFFD.
\<close>

definition replacement :: "u8 list" where
  "replacement = [0xEF, 0xBF, 0xBD]"

definition second_ok :: "u8 \<Rightarrow> u8 \<Rightarrow> bool" where
  "second_ok a b \<longleftrightarrow> utf8_tail b \<and> (a = 0xE0 \<longrightarrow> 0xA0 \<le> b) \<and> (a = 0xED \<longrightarrow> b \<le> 0x9F) \<and>
     (a = 0xF0 \<longrightarrow> 0x90 \<le> b) \<and> (a = 0xF4 \<longrightarrow> b \<le> 0x8F)"

definition utf8_width :: "u8 \<Rightarrow> nat" where
  "utf8_width a =
     (if a < 0x80 then 1 else if 0xC2 \<le> a \<and> a \<le> 0xDF then 2 else if 0xE0 \<le> a \<and> a \<le> 0xEF then 3
      else if 0xF0 \<le> a \<and> a \<le> 0xF4 then 4 else 0)"

text \<open>The bytes after the first that belong to the same, possibly cut, sequence.\<close>

definition continuation :: "u8 \<Rightarrow> u8 list \<Rightarrow> u8 list" where
  "continuation a rest =
     (case rest of
        [] \<Rightarrow> []
      | b # further \<Rightarrow>
          if utf8_width a < 2 \<or> \<not> second_ok a b then []
          else b # takeWhile utf8_tail (take (utf8_width a - 2) further))"

function utf8_lossy :: "u8 list \<Rightarrow> u8 list" where
  "utf8_lossy [] = []"
| "utf8_lossy (a # rest) =
     (let tail = continuation a rest in
      (if Suc (length tail) = utf8_width a then a # tail else replacement) @
      utf8_lossy (drop (length tail) rest))"
  by pat_completeness auto
termination
  by (relation "measure length") auto

fun decimal_digits :: "nat \<Rightarrow> u8 list" where
  "decimal_digits n =
     (if n < 10 then [of_nat (48 + n)] else decimal_digits (n div 10) @ [of_nat (48 + n mod 10)])"

declare decimal_digits.simps [simp del]

section \<open>The file system and its failures\<close>

type_synonym host_files = "path \<rightharpoonup> u8 list"

record io_faults =
  io_create_dir_all :: bool
  io_create_new :: bool
  io_write_all :: "nat option"
  io_sync_all :: bool
  io_rename :: bool
  io_open_dir :: bool
  io_sync_dir :: bool
  io_remove :: bool

text \<open>A failing \<^verbatim>\<open>write_all\<close> leaves the bytes written so far.\<close>

definition create_new_file :: "io_faults \<Rightarrow> path \<Rightarrow> host_files \<Rightarrow> bool \<times> host_files" where
  "create_new_file io p fs =
     (if io_create_new io \<or> fs (resolved p) \<noteq> None then (False, fs) else (True, fs(resolved p \<mapsto> [])))"

definition write_all_file :: "io_faults \<Rightarrow> path \<Rightarrow> u8 list \<Rightarrow> host_files \<Rightarrow> bool \<times> host_files" where
  "write_all_file io p bytes fs =
     (case io_write_all io of
        Some n \<Rightarrow> (False, fs(resolved p \<mapsto> take n bytes))
      | None \<Rightarrow> (True, fs(resolved p \<mapsto> bytes)))"

definition rename_file :: "io_faults \<Rightarrow> path \<Rightarrow> path \<Rightarrow> host_files \<Rightarrow> bool \<times> host_files" where
  "rename_file io from_path to_path fs =
     (if io_rename io \<or> fs (resolved from_path) = None then (False, fs)
      else (True, (fs(resolved from_path := None))(resolved to_path := fs (resolved from_path))))"

definition remove_file :: "io_faults \<Rightarrow> path \<Rightarrow> host_files \<Rightarrow> host_files" where
  "remove_file io p fs = (if io_remove io then fs else fs(resolved p := None))"

section \<open>Replacing an output file\<close>

definition output_parent :: "path \<Rightarrow> path" where
  "output_parent output =
     (case path_parent output of
        Some p \<Rightarrow> if p = [] then [CurDir] else p
      | None \<Rightarrow> [CurDir])"

definition sync_directory :: "io_faults \<Rightarrow> (message, unit) outcome" where
  "sync_directory io =
     and_then (ensure (\<not> io_open_dir io) ''failed to open output directory'') (\<lambda>_.
     ensure (\<not> io_sync_dir io) ''failed to sync output directory'')"

text \<open>The closure of \<^verbatim>\<open>write_atomic\<close>.\<close>

definition write_atomic_steps ::
    "io_faults \<Rightarrow> path \<Rightarrow> path \<Rightarrow> u8 list \<Rightarrow> host_files \<Rightarrow> (message, unit) outcome \<times> host_files" where
  "write_atomic_steps io temporary output bytes fs =
     (case create_new_file io temporary fs of
        (False, fs) \<Rightarrow> (Err ''failed to create temporary'', fs)
      | (True, fs) \<Rightarrow>
          (case write_all_file io temporary bytes fs of
             (False, fs) \<Rightarrow> (Err ''failed to write temporary'', fs)
           | (True, fs) \<Rightarrow>
               if io_sync_all io then (Err ''failed to sync temporary'', fs)
               else
                 (case rename_file io temporary output fs of
                    (False, fs) \<Rightarrow> (Err ''failed to atomically rename'', fs)
                  | (True, fs) \<Rightarrow> (sync_directory io, fs))))"

definition write_atomic ::
    "nat \<Rightarrow> io_faults \<Rightarrow> path \<Rightarrow> u8 list \<Rightarrow> host_files \<Rightarrow> (message, unit) outcome \<times> host_files" where
  "write_atomic pid io output bytes fs =
     (let parent = output_parent output in
      if io_create_dir_all io then (Err ''failed to create output directory'', fs)
      else
        (case path_file_name output of
           None \<Rightarrow> (Err ''image output must include a file name'', fs)
         | Some file_name \<Rightarrow>
             let temporary = path_join parent
               (bytes_of ''.'' @ utf8_lossy file_name @ bytes_of ''.tmp-'' @ decimal_digits pid) in
             (case write_atomic_steps io temporary output bytes fs of
                (Ok u, fs) \<Rightarrow> (Ok u, fs)
              | (write_result, fs) \<Rightarrow> (write_result, remove_file io temporary fs))))"

text \<open>The closure of \<^verbatim>\<open>write_verified_file\<close>.\<close>

definition write_verified_steps ::
    "io_faults \<Rightarrow> path \<Rightarrow> path \<Rightarrow> u8 list \<Rightarrow> host_files \<Rightarrow> (message, unit) outcome \<times> host_files" where
  "write_verified_steps io temporary output bytes fs =
     (case create_new_file io temporary fs of
        (False, fs) \<Rightarrow> (Err ''failed to create temporary'', fs)
      | (True, fs) \<Rightarrow>
          (case write_all_file io temporary bytes fs of
             (False, fs) \<Rightarrow> (Err ''failed to write temporary'', fs)
           | (True, fs) \<Rightarrow>
               if io_sync_all io then (Err ''failed to sync temporary'', fs)
               else
                 (case rename_file io temporary output fs of
                    (False, fs) \<Rightarrow> (Err ''failed to move verified file'', fs)
                  | (True, fs) \<Rightarrow>
                      (and_then (ensure (\<not> io_open_dir io) ''failed to open output directory'') (\<lambda>_.
                       ensure (\<not> io_sync_dir io) ''failed to sync output directory''), fs))))"

definition write_verified_file ::
    "nat \<Rightarrow> io_faults \<Rightarrow> path \<Rightarrow> u8 list \<Rightarrow> host_files \<Rightarrow> (message, unit) outcome \<times> host_files" where
  "write_verified_file pid io output bytes fs =
     (let parent = output_parent output in
      if io_create_dir_all io then (Err ''failed to create parent'', fs)
      else
        (case path_file_name output of
           None \<Rightarrow> (Err ''verified output must include a file name'', fs)
         | Some file_name \<Rightarrow>
             let temporary = path_join parent
               (bytes_of ''.'' @ utf8_lossy file_name @ bytes_of ''.repro-'' @ decimal_digits pid) in
             (case write_verified_steps io temporary output bytes fs of
                (Ok u, fs) \<Rightarrow> (Ok u, fs)
              | (write_result, fs) \<Rightarrow> (write_result, remove_file io temporary fs))))"

section \<open>Bounded input files\<close>

record host_inputs =
  hi_metadata :: "path \<Rightarrow> (bool \<times> u64) option"
  hi_read :: "path \<Rightarrow> u8 list option"

definition read_host_artifact :: "host_inputs \<Rightarrow> path \<Rightarrow> (message, u8 list) outcome" where
  "read_host_artifact host p =
     and_then (ok_or (hi_metadata host p) ''failed to inspect artifact'') (\<lambda>(is_file, len).
     and_then (ensure is_file ''not a regular file'') (\<lambda>_.
     and_then (ensure (len \<le> of_nat MAX_PAYLOAD_BYTES) ''artifact is too large'') (\<lambda>_.
     ok_or (hi_read host p) ''failed to read artifact'')))"

definition read_bounded :: "host_inputs \<Rightarrow> path \<Rightarrow> usize \<Rightarrow> (message, u8 list) outcome" where
  "read_bounded host p maximum =
     and_then (ok_or (hi_metadata host p) ''failed to inspect input'') (\<lambda>(is_file, len).
     and_then (ensure is_file ''not a regular file'') (\<lambda>_.
     and_then (ok_or (u64_try_from_usize maximum) ''input size bound does not fit u64'') (\<lambda>bound.
     and_then (ensure (len \<le> bound) ''input is too large'') (\<lambda>_.
     ok_or (hi_read host p) ''failed to read input''))))"

definition build_image ::
    "('u, 'g, 'v, 'd) image_crates \<Rightarrow> host_inputs \<Rightarrow> nat \<Rightarrow> io_faults \<Rightarrow> path \<Rightarrow> path \<Rightarrow> path \<Rightarrow> image_scenario
      \<Rightarrow> host_files \<Rightarrow> (message, image_manifest) outcome \<times> host_files" where
  "build_image ic host pid io loader_path kernel_path output scn fs =
     (case and_then (read_host_artifact host loader_path) (\<lambda>loader.
        and_then (read_host_artifact host kernel_path) (\<lambda>kernel_elf.
        build_image_bytes ic loader kernel_elf scn)) of
        Ok (disk, manifest) \<Rightarrow>
          (case write_atomic pid io output disk fs of
             (r, fs) \<Rightarrow> (and_then r (\<lambda>_. Ok manifest), fs))
      | Err e \<Rightarrow> (Err e, fs)
      | Panic \<Rightarrow> (Panic, fs))"

definition inspect_kernel ::
    "('u, 'g, 'v, 'd) image_crates \<Rightarrow> host_inputs \<Rightarrow> path \<Rightarrow> path \<Rightarrow> (message, kernel_inspection) outcome" where
  "inspect_kernel ic host kernel_path map_path =
     and_then (read_bounded host kernel_path MAX_ELF_FILE_SIZE) (\<lambda>kernel_elf.
     and_then (read_bounded host map_path MAX_MAP_FILE_SIZE) (\<lambda>linker_map.
     inspect_kernel_bytes ic kernel_elf linker_map))"

section \<open>Replacement through a temporary file\<close>

text \<open>
  What staging and renaming do to the files when \<open>t\<close> is the temporary path and \<open>p\<close> the target: the
  state after any failure has been cleaned up.
\<close>

definition staged :: "io_faults \<Rightarrow> path \<Rightarrow> path \<Rightarrow> u8 list \<Rightarrow> host_files \<Rightarrow> host_files" where
  "staged io t p bytes fs =
     (if io_create_new io \<or> fs t \<noteq> None then (if io_remove io then fs else fs(t := None))
      else if io_write_all io \<noteq> None \<or> io_sync_all io \<or> io_rename io
      then (if io_remove io
            then fs(t \<mapsto> (case io_write_all io of Some n \<Rightarrow> take n bytes | None \<Rightarrow> bytes))
            else fs(t := None))
      else fs(p \<mapsto> bytes))"

definition staging_succeeds :: "io_faults \<Rightarrow> path \<Rightarrow> host_files \<Rightarrow> bool" where
  "staging_succeeds io t fs \<longleftrightarrow> \<not> io_create_new io \<and> fs t = None \<and> io_write_all io = None \<and>
     \<not> io_sync_all io \<and> \<not> io_rename io \<and> \<not> io_open_dir io \<and> \<not> io_sync_dir io"

locale replacing_writer =
  fixes writer :: "io_faults \<Rightarrow> path \<Rightarrow> u8 list \<Rightarrow> host_files \<Rightarrow> ('e, unit) outcome \<times> host_files"
    and temporary :: "path \<Rightarrow> path option"
  assumes refused: "io_create_dir_all io \<or> temporary target = None \<Longrightarrow>
      \<exists>e. writer io target bytes fs = (Err e, fs)"
    and replaces: "\<not> io_create_dir_all io \<Longrightarrow> temporary target = Some t \<Longrightarrow>
      snd (writer io target bytes fs) = staged io t (resolved target) bytes fs \<and>
      fst (writer io target bytes fs) \<noteq> Panic \<and>
      (fst (writer io target bytes fs) = Ok () \<longleftrightarrow> staging_succeeds io t fs)"
    and distinct_paths: "temporary target = Some t \<Longrightarrow> t \<noteq> resolved target"
begin

lemma never_panics: "fst (writer io target bytes fs) \<noteq> Panic"
proof (cases "io_create_dir_all io \<or> temporary target = None")
  case True
  then show ?thesis using refused [of io target bytes fs] by auto
next
  case False
  then show ?thesis using replaces by blast
qed

lemma all_or_nothing:
  "snd (writer io target bytes fs) (resolved target) \<in> {fs (resolved target), Some bytes}"
proof (cases "io_create_dir_all io \<or> temporary target = None")
  case True
  then show ?thesis using refused [of io target bytes fs] by auto
next
  case False
  then obtain t where t: "temporary target = Some t" "\<not> io_create_dir_all io" by blast
  then show ?thesis
    using replaces [OF t(2,1), of bytes fs] distinct_paths [OF t(1)] by (simp add: staged_def)
qed

lemma success:
  assumes "fst (writer io target bytes fs) = Ok ()"
  shows "snd (writer io target bytes fs) = fs(resolved target \<mapsto> bytes)"
proof -
  have ok: "\<not> (io_create_dir_all io \<or> temporary target = None)"
  proof
    assume "io_create_dir_all io \<or> temporary target = None"
    from refused [OF this, of bytes fs] show False using assms by auto
  qed
  then obtain t where t: "temporary target = Some t" "\<not> io_create_dir_all io" by blast
  then show ?thesis
    using assms replaces [OF t(2,1), of bytes fs] by (simp add: staged_def staging_succeeds_def)
qed

lemma changes_only: "{p. snd (writer io target bytes fs) p \<noteq> fs p} \<subseteq> {resolved target} \<union> set_option (temporary target)"
proof (cases "io_create_dir_all io \<or> temporary target = None")
  case True
  then show ?thesis using refused [of io target bytes fs] by auto
next
  case False
  then obtain t where t: "temporary target = Some t" "\<not> io_create_dir_all io" by blast
  then show ?thesis
    using replaces [OF t(2,1), of bytes fs] by (auto simp: staged_def split: if_splits)
qed

lemma no_leftover:
  assumes "\<not> io_remove io" and "temporary target = Some t" and "\<not> io_create_dir_all io"
  shows "snd (writer io target bytes fs) t = None"
  using assms replaces [OF assms(3,2), of bytes fs] distinct_paths [OF assms(2)]
  by (auto simp: staged_def)

end

lemma resolved_output:
  "path_file_name target = Some n \<Longrightarrow> resolved target = resolved (output_parent target) @ [NormalName n]"
proof -
  assume n: "path_file_name target = Some n"
  then have "target \<noteq> []" "last target = NormalName n"
    by (auto simp: path_file_name_def split: if_splits component.splits)
  then have out: "target = butlast target @ [NormalName n]" by (metis append_butlast_last_id)
  have "output_parent target = (if butlast target = [] then [CurDir] else butlast target)"
    using \<open>target \<noteq> []\<close> \<open>last target = NormalName n\<close> by (simp add: output_parent_def path_parent_def)
  then show "resolved target = resolved (output_parent target) @ [NormalName n]"
    by (subst out) (simp add: resolved_def)
qed

lemma continuation_length:
  "length (continuation a rest) < 4" "Suc (length (continuation a rest)) \<noteq> utf8_width a \<Longrightarrow>
    length (continuation a rest) < 3"
proof -
  have tail: "length (takeWhile utf8_tail (take (utf8_width a - 2) xs)) \<le> utf8_width a - 2" for xs
    using length_takeWhile_le [of utf8_tail "take (utf8_width a - 2) xs"] by simp
  have width: "utf8_width a \<le> 4" by (simp add: utf8_width_def)
  have "length (continuation a rest) = 0 \<or> (2 \<le> utf8_width a \<and> length (continuation a rest) \<le> utf8_width a - 1)"
    using tail [of "tl rest"] by (auto simp: continuation_def split: list.splits)
  then show "length (continuation a rest) < 4" "Suc (length (continuation a rest)) \<noteq> utf8_width a \<Longrightarrow>
    length (continuation a rest) < 3"
    using width by auto
qed

lemma continuation_prefix: "length (continuation a rest) \<le> length rest"
  using length_takeWhile_le [of utf8_tail "take (utf8_width a - 2) (tl rest)"]
  by (auto simp: continuation_def split: list.splits)

lemma utf8_lossy_length: "length bs \<le> length (utf8_lossy bs)"
proof (induction bs rule: utf8_lossy.induct)
  case (2 a rest)
  let ?t = "continuation a rest"
  have "length rest - length ?t \<le> length (utf8_lossy (drop (length ?t) rest))" using 2 by simp
  moreover have "length ?t \<le> length rest" by (rule continuation_prefix)
  moreover have "Suc (length ?t) \<noteq> utf8_width a \<Longrightarrow> length ?t < 3" by (rule continuation_length(2))
  ultimately show ?case by (auto simp: Let_def replacement_def)
qed simp

lemma temporary_distinct:
  assumes "path_file_name target = Some n"
  shows "resolved (path_join (output_parent target) (bytes_of ''.'' @ utf8_lossy n @ ending)) \<noteq> resolved target"
proof
  assume "resolved (path_join (output_parent target) (bytes_of ''.'' @ utf8_lossy n @ ending)) = resolved target"
  then have "bytes_of ''.'' @ utf8_lossy n @ ending = n"
    using resolved_output [OF assms] by (simp add: path_join_def resolved_def)
  then have "length (bytes_of ''.'' @ utf8_lossy n @ ending) = length n" by simp
  then show False using utf8_lossy_length [of n] by (simp add: bytes_of_def)
qed

lemmas staging_step_defs = create_new_file_def write_all_file_def rename_file_def remove_file_def
  staged_def staging_succeeds_def sync_directory_def

lemma staging_cases:
  obtains (uncreated) "io_create_new io \<or> fs (resolved t) \<noteq> None"
  | (unwritten) n where "\<not> io_create_new io" "fs (resolved t) = None" "io_write_all io = Some n"
  | (unsynced) "\<not> io_create_new io" "fs (resolved t) = None" "io_write_all io = None" "io_sync_all io"
  | (unmoved) "\<not> io_create_new io" "fs (resolved t) = None" "io_write_all io = None" "\<not> io_sync_all io"
      "io_rename io"
  | (complete) "\<not> io_create_new io" "fs (resolved t) = None" "io_write_all io = None" "\<not> io_sync_all io"
      "\<not> io_rename io"
  by fastforce

text \<open>
  The common shape of the output writers: \<open>e1\<close> to \<open>e8\<close> are their messages and \<open>ending\<close> what they append to
  the name of the temporary file.
\<close>

definition stage_steps ::
    "'e \<Rightarrow> 'e \<Rightarrow> 'e \<Rightarrow> 'e \<Rightarrow> 'e \<Rightarrow> 'e \<Rightarrow> io_faults \<Rightarrow> path \<Rightarrow> path \<Rightarrow> u8 list \<Rightarrow> host_files
      \<Rightarrow> ('e, unit) outcome \<times> host_files" where
  "stage_steps e1 e2 e3 e4 e5 e6 io temporary output bytes fs =
     (case create_new_file io temporary fs of
        (False, fs) \<Rightarrow> (Err e1, fs)
      | (True, fs) \<Rightarrow>
          (case write_all_file io temporary bytes fs of
             (False, fs) \<Rightarrow> (Err e2, fs)
           | (True, fs) \<Rightarrow>
               if io_sync_all io then (Err e3, fs)
               else
                 (case rename_file io temporary output fs of
                    (False, fs) \<Rightarrow> (Err e4, fs)
                  | (True, fs) \<Rightarrow>
                      (and_then (ensure (\<not> io_open_dir io) e5) (\<lambda>_. ensure (\<not> io_sync_dir io) e6), fs))))"

definition stage_writer ::
    "'e \<Rightarrow> 'e \<Rightarrow> 'e \<Rightarrow> 'e \<Rightarrow> 'e \<Rightarrow> 'e \<Rightarrow> 'e \<Rightarrow> 'e \<Rightarrow> u8 list \<Rightarrow> io_faults \<Rightarrow> path \<Rightarrow> u8 list \<Rightarrow> host_files
      \<Rightarrow> ('e, unit) outcome \<times> host_files" where
  "stage_writer e1 e2 e3 e4 e5 e6 e7 e8 ending io output bytes fs =
     (if io_create_dir_all io then (Err e7, fs)
      else
        (case path_file_name output of
           None \<Rightarrow> (Err e8, fs)
         | Some file_name \<Rightarrow>
             (case stage_steps e1 e2 e3 e4 e5 e6 io
                 (path_join (output_parent output) (bytes_of ''.'' @ utf8_lossy file_name @ ending))
                 output bytes fs of
                (Ok u, fs) \<Rightarrow> (Ok u, fs)
              | (r, fs) \<Rightarrow> (r, remove_file io
                  (path_join (output_parent output) (bytes_of ''.'' @ utf8_lossy file_name @ ending)) fs))))"

definition stage_temporary :: "u8 list \<Rightarrow> path \<Rightarrow> path option" where
  "stage_temporary ending target = map_option (\<lambda>n. resolved (path_join (output_parent target)
     (bytes_of ''.'' @ utf8_lossy n @ ending))) (path_file_name target)"

lemma stage_steps_staged:
  assumes "resolved t \<noteq> resolved p"
  shows "(case stage_steps e1 e2 e3 e4 e5 e6 io t p bytes fs of (Ok u, fs') \<Rightarrow> (Ok u, fs')
      | (r, fs') \<Rightarrow> (r, remove_file io t fs')) =
    (fst (stage_steps e1 e2 e3 e4 e5 e6 io t p bytes fs), staged io (resolved t) (resolved p) bytes fs)"
    and "fst (stage_steps e1 e2 e3 e4 e5 e6 io t p bytes fs) \<noteq> Panic"
    and "fst (stage_steps e1 e2 e3 e4 e5 e6 io t p bytes fs) = Ok () \<longleftrightarrow> staging_succeeds io (resolved t) fs"
proof (atomize (full), goal_cases)
  case 1
  note defs = stage_steps_def staging_step_defs
  show ?case
  proof (cases rule: staging_cases [where io = io and t = t and fs = fs])
    case complete
    then show ?thesis
      using assms by (cases "io_open_dir io"; cases "io_sync_dir io") (simp_all add: defs fun_upd_idem)
  qed (auto simp: defs)
qed

lemma stage_writer_replaces:
  "replacing_writer (stage_writer e1 e2 e3 e4 e5 e6 e7 e8 ending) (stage_temporary ending)"
    (is "replacing_writer ?w _")
proof
  fix io :: io_faults and target bytes and fs :: host_files
  assume "io_create_dir_all io \<or> stage_temporary ending target = None"
  then show "\<exists>e. ?w io target bytes fs = (Err e, fs)"
    by (auto simp: stage_writer_def stage_temporary_def)
next
  fix io :: io_faults and target t bytes and fs :: host_files
  assume dir: "\<not> io_create_dir_all io" and "stage_temporary ending target = Some t"
  then obtain n where n: "path_file_name target = Some n"
    and t: "t = resolved (path_join (output_parent target) (bytes_of ''.'' @ utf8_lossy n @ ending))"
    by (auto simp: stage_temporary_def)
  show "snd (?w io target bytes fs) = staged io t (resolved target) bytes fs \<and>
      fst (?w io target bytes fs) \<noteq> Panic \<and> (fst (?w io target bytes fs) = Ok () \<longleftrightarrow> staging_succeeds io t fs)"
    using dir n by (simp add: stage_writer_def t stage_steps_staged [OF temporary_distinct [OF n, of ending]])
next
  fix target t
  assume "stage_temporary ending target = Some t"
  then show "t \<noteq> resolved target"
    using temporary_distinct by (auto simp: stage_temporary_def)
qed

definition atomic_temporary :: "nat \<Rightarrow> path \<Rightarrow> path option" where
  "atomic_temporary pid = stage_temporary (bytes_of ''.tmp-'' @ decimal_digits pid)"

definition verified_temporary :: "nat \<Rightarrow> path \<Rightarrow> path option" where
  "verified_temporary pid = stage_temporary (bytes_of ''.repro-'' @ decimal_digits pid)"

interpretation atomic: replacing_writer "write_atomic pid" "atomic_temporary pid" for pid
proof -
  have "write_atomic pid = stage_writer ''failed to create temporary'' ''failed to write temporary''
      ''failed to sync temporary'' ''failed to atomically rename'' ''failed to open output directory''
      ''failed to sync output directory'' ''failed to create output directory''
      ''image output must include a file name'' (bytes_of ''.tmp-'' @ decimal_digits pid)"
    by (intro ext) (simp only: write_atomic_def write_atomic_steps_def sync_directory_def
        stage_writer_def stage_steps_def Let_def)
  then show "replacing_writer (write_atomic pid) (atomic_temporary pid)"
    by (simp only: atomic_temporary_def stage_writer_replaces)
qed

interpretation verified: replacing_writer "write_verified_file pid" "verified_temporary pid" for pid
proof -
  have "write_verified_file pid = stage_writer ''failed to create temporary'' ''failed to write temporary''
      ''failed to sync temporary'' ''failed to move verified file'' ''failed to open output directory''
      ''failed to sync output directory'' ''failed to create parent''
      ''verified output must include a file name'' (bytes_of ''.repro-'' @ decimal_digits pid)"
    by (intro ext) (simp only: write_verified_file_def write_verified_steps_def
        stage_writer_def stage_steps_def Let_def)
  then show "replacing_writer (write_verified_file pid) (verified_temporary pid)"
    by (simp only: verified_temporary_def stage_writer_replaces)
qed

text \<open>
  C35: an output file is replaced completely or not at all.  Whichever system calls fail, and however
  many bytes reached the temporary file, both writers leave at the output path either what was there
  or exactly the new bytes, touch no file but the output and the temporary one, and report success
  only when the new bytes are in place and every other file is as before.
\<close>

theorem outputs_replaced_atomically:
  "snd (write_atomic pid io target bytes fs) (resolved target) \<in> {fs (resolved target), Some bytes} \<and>
   snd (write_verified_file pid io target bytes fs) (resolved target) \<in> {fs (resolved target), Some bytes} \<and>
   {p. snd (write_atomic pid io target bytes fs) p \<noteq> fs p} \<subseteq>
     {resolved target} \<union> set_option (atomic_temporary pid target) \<and>
   {p. snd (write_verified_file pid io target bytes fs) p \<noteq> fs p} \<subseteq>
     {resolved target} \<union> set_option (verified_temporary pid target) \<and>
   (case write_atomic pid io target bytes fs of
      (Ok _, fs') \<Rightarrow> fs' = fs(resolved target \<mapsto> bytes) | (Err _, _) \<Rightarrow> True | (Panic, _) \<Rightarrow> False) \<and>
   (case write_verified_file pid io target bytes fs of
      (Ok _, fs') \<Rightarrow> fs' = fs(resolved target \<mapsto> bytes) | (Err _, _) \<Rightarrow> True | (Panic, _) \<Rightarrow> False)"
proof -
  have a: "case write_atomic pid io target bytes fs of
      (Ok _, fs') \<Rightarrow> fs' = fs(resolved target \<mapsto> bytes) | (Err _, _) \<Rightarrow> True | (Panic, _) \<Rightarrow> False"
    using atomic.success [of pid io target bytes fs] atomic.never_panics [of pid io target bytes fs]
    by (auto split: prod.splits outcome.splits)
  have v: "case write_verified_file pid io target bytes fs of
      (Ok _, fs') \<Rightarrow> fs' = fs(resolved target \<mapsto> bytes) | (Err _, _) \<Rightarrow> True | (Panic, _) \<Rightarrow> False"
    using verified.success [of pid io target bytes fs] verified.never_panics [of pid io target bytes fs]
    by (auto split: prod.splits outcome.splits)
  show ?thesis
    by (intro conjI atomic.all_or_nothing verified.all_or_nothing atomic.changes_only verified.changes_only a v)
qed

end
