(* ===== verification/Reproducibility.thy ===== *)
theory Reproducibility
  imports Host_Files
begin

text \<open>
  The two-build reproducibility check (\<^verbatim>\<open>crates/xtask/src/repro.rs\<close>, \<^verbatim>\<open>first_difference\<close> of
  \<^verbatim>\<open>crates/xtask/src/lib.rs\<close>, \<^verbatim>\<open>crates/xtask/src/temporary.rs\<close>).  Cargo, rustc, git and the host
  environment are the record \<open>repro_host\<close>; strings are the bytes of their UTF-8 form.
\<close>

section \<open>Comparing artifacts\<close>

record byte_difference =
  bd_offset :: usize
  bd_left :: "u8 option"
  bd_right :: "u8 option"

fun find_difference :: "nat \<Rightarrow> u8 list \<Rightarrow> u8 list \<Rightarrow> byte_difference option" where
  "find_difference i (a # left) (b # right) =
     (if a \<noteq> b then Some \<lparr>bd_offset = i, bd_left = Some a, bd_right = Some b\<rparr>
      else find_difference (Suc i) left right)"
| "find_difference i _ _ = None"

definition byte_get :: "u8 list \<Rightarrow> usize \<Rightarrow> u8 option" where
  "byte_get xs i = (if i < length xs then Some (xs ! i) else None)"

definition first_difference :: "u8 list \<Rightarrow> u8 list \<Rightarrow> byte_difference option" where
  "first_difference left right =
     (case find_difference 0 left right of
        Some d \<Rightarrow> Some d
      | None \<Rightarrow>
          if length left \<noteq> length right then
            let offset = min (length left) (length right) in
            Some \<lparr>bd_offset = offset, bd_left = byte_get left offset, bd_right = byte_get right offset\<rparr>
          else None)"

definition require_identical :: "u8 list \<Rightarrow> u8 list \<Rightarrow> (message, unit) outcome" where
  "require_identical left right =
     (case first_difference left right of
        Some _ \<Rightarrow> Err ''reproducibility failure''
      | None \<Rightarrow> Ok ())"

section \<open>Compiler flags\<close>

datatype artifact_rustc_flag = StaticRelocationModel | LinkArgument "u8 list"

record artifact_spec =
  as_package :: "u8 list"
  as_binary :: "u8 list"
  as_target :: "u8 list"
  as_relative_path :: path
  as_features :: "u8 list list"
  as_rustc_flags :: "artifact_rustc_flag list"

definition RUSTFLAG_SEPARATOR :: u8 where "RUSTFLAG_SEPARATOR = 0x1F"
definition WORKSPACE_REMAP_DESTINATION :: "u8 list" where
  "WORKSPACE_REMAP_DESTINATION = bytes_of ''/workspace/polytope-os''"
definition CARGO_HOME_REMAP_DESTINATION :: "u8 list" where
  "CARGO_HOME_REMAP_DESTINATION = bytes_of ''/build/cargo-home''"
definition USER_HOME_REMAP_DESTINATION :: "u8 list" where
  "USER_HOME_REMAP_DESTINATION = bytes_of ''/build/user-home''"
definition TARGET_REMAP_DESTINATION :: "u8 list" where
  "TARGET_REMAP_DESTINATION = bytes_of ''/build/target''"
definition MAX_ARTIFACT_BYTES :: u64 where "MAX_ARTIFACT_BYTES = 64 * 1024 * 1024"
definition SOURCE_DATE_EPOCH :: u64 where "SOURCE_DATE_EPOCH = 946684800"

definition validate_rustflag_value :: "u8 list \<Rightarrow> (message, unit) outcome" where
  "validate_rustflag_value v =
     ensure (\<not> (v = [] \<or> List.member v RUSTFLAG_SEPARATOR))
       ''empty or contains the Cargo rustflag separator''"

fun validate_rustflag_values :: "u8 list list \<Rightarrow> (message, unit) outcome" where
  "validate_rustflag_values [] = Ok ()"
| "validate_rustflag_values (v # rest) =
     and_then (validate_rustflag_value v) (\<lambda>_. validate_rustflag_values rest)"

definition validate_artifact_rustc_contract :: "artifact_spec \<Rightarrow> (message, unit) outcome" where
  "validate_artifact_rustc_contract artifact =
     (let has_link_argument = (\<lambda>expected. List.member (as_rustc_flags artifact) (LinkArgument (bytes_of expected))) in
      if as_target artifact = bytes_of ''x86_64-unknown-uefi'' \<and> \<not> has_link_argument ''/debug:none''
      then Err ''UEFI artifact contract must disable the nondeterministic CodeView record''
      else if as_target artifact = bytes_of ''x86_64-unknown-none'' \<and>
        (\<not> List.member (as_rustc_flags artifact) StaticRelocationModel \<or> \<not> has_link_argument ''-no-pie'')
      then Err ''kernel artifact contract must retain static relocation and -no-pie''
      else Ok ())"

fun flag_arguments :: "artifact_rustc_flag list \<Rightarrow> (message, u8 list list) outcome" where
  "flag_arguments [] = Ok []"
| "flag_arguments (StaticRelocationModel # rest) =
     and_then (flag_arguments rest) (\<lambda>others.
     Ok ([bytes_of ''-C'', bytes_of ''relocation-model=static''] @ others))"
| "flag_arguments (LinkArgument argument # rest) =
     and_then (validate_rustflag_value argument) (\<lambda>_.
     and_then (flag_arguments rest) (\<lambda>others.
     Ok ([bytes_of ''-C'', bytes_of ''link-arg='' @ argument] @ others)))"

definition artifact_rustc_arguments :: "artifact_spec \<Rightarrow> (message, u8 list list) outcome" where
  "artifact_rustc_arguments artifact =
     and_then (validate_artifact_rustc_contract artifact) (\<lambda>_.
     and_then (flag_arguments (as_rustc_flags artifact)) (\<lambda>arguments.
     and_then (validate_rustflag_values arguments) (\<lambda>_.
     Ok arguments)))"

section \<open>Path remapping\<close>

datatype path_kind = TargetPath | WorkspacePath | CargoHomePath | UserHomePath

record path_remap =
  pr_kind :: path_kind
  pr_source :: path
  pr_destination :: "u8 list"

text \<open>The text of a path: its components joined by slashes.\<close>

fun component_bytes :: "component \<Rightarrow> u8 list" where
  "component_bytes RootDir = []"
| "component_bytes CurDir = bytes_of ''.''"
| "component_bytes ParentDir = bytes_of ''..''"
| "component_bytes (NormalName n) = n"

definition path_bytes :: "path \<Rightarrow> u8 list" where
  "path_bytes p =
     (if p = [RootDir] then bytes_of ''/'' else join_bytes 0x2F (map component_bytes p))"

definition path_to_str :: "path \<Rightarrow> u8 list option" where
  "path_to_str p = (if utf8_valid (path_bytes p) then Some (path_bytes p) else None)"

definition validate_remap_path :: "path \<Rightarrow> (message, unit) outcome" where
  "validate_remap_path p =
     and_then (ok_or (path_to_str p) ''not valid UTF-8'') (\<lambda>v.
     ensure (\<not> (List.member v RUSTFLAG_SEPARATOR \<or> List.member v 0x3D))
       ''contains a character unsupported by the rustflag contract'')"

record host_paths =
  hp_cargo_home :: path
  hp_user_home :: path

fun duplicate_remap :: "path_remap list \<Rightarrow> path_remap list \<Rightarrow> bool" where
  "duplicate_remap seen [] \<longleftrightarrow> False"
| "duplicate_remap seen (r # rest) \<longleftrightarrow>
     list_ex (\<lambda>e. pr_source e = pr_source r) seen \<or> duplicate_remap (seen @ [r]) rest"

definition build_path_contract_new ::
    "path \<Rightarrow> path \<Rightarrow> host_paths \<Rightarrow> (message, path_remap list) outcome" where
  "build_path_contract_new workspace target_directory hp =
     and_then (validate_remap_path workspace) (\<lambda>_.
     and_then (validate_remap_path target_directory) (\<lambda>_.
     and_then (validate_remap_path (hp_cargo_home hp)) (\<lambda>_.
     and_then (validate_remap_path (hp_user_home hp)) (\<lambda>_.
     let remaps =
       [\<lparr>pr_kind = TargetPath, pr_source = target_directory, pr_destination = TARGET_REMAP_DESTINATION\<rparr>,
        \<lparr>pr_kind = WorkspacePath, pr_source = workspace, pr_destination = WORKSPACE_REMAP_DESTINATION\<rparr>,
        \<lparr>pr_kind = CargoHomePath, pr_source = hp_cargo_home hp, pr_destination = CARGO_HOME_REMAP_DESTINATION\<rparr>,
        \<lparr>pr_kind = UserHomePath, pr_source = hp_user_home hp, pr_destination = USER_HOME_REMAP_DESTINATION\<rparr>] in
     and_then (ensure (\<not> duplicate_remap [] remaps) ''path duplicates a more-specific remap source'') (\<lambda>_.
     Ok remaps)))))"

fun remap_arguments :: "path_remap list \<Rightarrow> (message, u8 list list) outcome" where
  "remap_arguments [] = Ok []"
| "remap_arguments (r # rest) =
     and_then (ok_or (path_to_str (pr_source r)) ''validated remap source unexpectedly became non-UTF-8'') (\<lambda>source.
     and_then (remap_arguments rest) (\<lambda>others.
     Ok ((bytes_of ''--remap-path-prefix='' @ source @ bytes_of ''='' @ pr_destination r) # others)))"

definition encoded_rustflags :: "artifact_spec \<Rightarrow> path_remap list \<Rightarrow> (message, u8 list) outcome" where
  "encoded_rustflags artifact contract =
     and_then (artifact_rustc_arguments artifact) (\<lambda>required.
     and_then (remap_arguments (rev contract)) (\<lambda>remaps.
     and_then (validate_rustflag_values (required @ remaps)) (\<lambda>_.
     Ok (join_bytes RUSTFLAG_SEPARATOR (required @ remaps)))))"

section \<open>Path privacy\<close>

record path_privacy_evidence =
  pe_host_patterns_scanned :: u32
  pe_unremapped_matches :: u32
  pe_workspace_destination_occurrences :: u64
  pe_cargo_home_destination_occurrences :: u64
  pe_user_home_destination_occurrences :: u64
  pe_target_destination_occurrences :: u64

fun window_position :: "nat \<Rightarrow> u8 list \<Rightarrow> u8 list \<Rightarrow> usize option" where
  "window_position i pattern [] = None"
| "window_position i pattern (b # bytes) =
     (if length pattern \<le> length (b # bytes) \<and> take (length pattern) (b # bytes) = pattern then Some i
      else window_position (Suc i) pattern bytes)"

definition first_subslice :: "u8 list \<Rightarrow> u8 list \<Rightarrow> usize option" where
  "first_subslice bytes pattern =
     (if pattern = [] \<or> length pattern > length bytes then None else window_position 0 pattern bytes)"

fun window_count :: "u64 \<Rightarrow> u8 list \<Rightarrow> u8 list \<Rightarrow> u64" where
  "window_count count pattern [] = count"
| "window_count count pattern (b # bytes) =
     window_count
       (if length pattern \<le> length (b # bytes) \<and> take (length pattern) (b # bytes) = pattern
        then (if count = - 1 then count else count + 1) else count) pattern bytes"

definition count_subslices :: "u8 list \<Rightarrow> u8 list \<Rightarrow> u64" where
  "count_subslices bytes pattern =
     (if pattern = [] \<or> length pattern > length bytes then 0 else window_count 0 pattern bytes)"

fun scan_remaps :: "u8 list \<Rightarrow> path_remap list \<Rightarrow> (message, unit) outcome" where
  "scan_remaps bytes [] = Ok ()"
| "scan_remaps bytes (r # rest) =
     and_then (ok_or (path_to_str (pr_source r)) ''validated remap source unexpectedly became non-UTF-8'') (\<lambda>pattern.
     and_then (ensure (first_subslice bytes pattern = None) ''path-privacy failure'') (\<lambda>_.
     scan_remaps bytes rest))"

definition verify_path_privacy ::
    "u8 list \<Rightarrow> path_remap list \<Rightarrow> (message, path_privacy_evidence) outcome" where
  "verify_path_privacy bytes contract =
     and_then (scan_remaps bytes contract) (\<lambda>_.
     and_then (ok_or (u32_try_from_usize (length contract)) ''path-pattern count does not fit u32'') (\<lambda>n.
     Ok \<lparr>pe_host_patterns_scanned = n, pe_unremapped_matches = 0,
         pe_workspace_destination_occurrences = count_subslices bytes WORKSPACE_REMAP_DESTINATION,
         pe_cargo_home_destination_occurrences = count_subslices bytes CARGO_HOME_REMAP_DESTINATION,
         pe_user_home_destination_occurrences = count_subslices bytes USER_HOME_REMAP_DESTINATION,
         pe_target_destination_occurrences = count_subslices bytes TARGET_REMAP_DESTINATION\<rparr>))"

definition require_privacy_evidence_identical ::
    "path_privacy_evidence \<Rightarrow> path_privacy_evidence \<Rightarrow> (message, unit) outcome" where
  "require_privacy_evidence_identical a b =
     ensure (a = b) ''path-privacy evidence differs between builds''"

section \<open>The host\<close>

datatype mkdir_result = Created | AlreadyExists | MkdirFailed

record cargo_command =
  cc_program :: path
  cc_current_dir :: path
  cc_arguments :: "u8 list list"
  cc_environment :: "(string \<times> u8 list) list"
  cc_removed :: "string list"

text \<open>
  \<open>rh_output\<close> runs a tool: whether it succeeded and its standard output, \<open>None\<close> when it cannot be
  started.  \<open>rh_git\<close> runs git in a directory.  \<open>rh_var\<close> is an environment variable read as a path.
\<close>

record repro_host =
  rh_canonicalize :: "path \<Rightarrow> path option"
  rh_is_dir :: "path \<Rightarrow> bool"
  rh_is_file :: "path \<Rightarrow> bool"
  rh_var :: "string \<Rightarrow> path option"
  rh_search_path :: "path list option"
  rh_output :: "path \<Rightarrow> u8 list list \<Rightarrow> (bool \<times> u8 list) option"
  rh_git :: "path \<Rightarrow> u8 list list \<Rightarrow> (bool \<times> u8 list) option"
  rh_cargo :: "cargo_command \<Rightarrow> bool option"
  rh_create_dir_all :: "path \<Rightarrow> bool"
  rh_create_dir :: "path \<Rightarrow> mkdir_result"
  rh_inputs :: host_inputs
  rh_next_id :: nat
  rh_pid :: nat

definition find_on_path :: "repro_host \<Rightarrow> string \<Rightarrow> path option" where
  "find_on_path host program =
     Option.bind (rh_search_path host) (\<lambda>dirs.
       List.find (rh_is_file host) (map (\<lambda>d. path_join d (bytes_of program)) dirs))"

definition require_executable :: "repro_host \<Rightarrow> path \<Rightarrow> (message, path) outcome" where
  "require_executable host p = (if rh_is_file host p then Ok p else Err ''does not identify a file'')"

definition homebrew :: "string \<Rightarrow> path" where
  "homebrew program = RootDir # map (\<lambda>n. NormalName (bytes_of n))
     [''opt'', ''homebrew'', ''opt'', ''rustup'', ''bin'', program]"

definition resolve_cargo :: "repro_host \<Rightarrow> path option \<Rightarrow> (message, path) outcome" where
  "resolve_cargo host override_path =
     (case override_path of
        Some p \<Rightarrow> require_executable host p
      | None \<Rightarrow>
          (case rh_var host ''POLYTOPE_CARGO'' of
             Some p \<Rightarrow> require_executable host p
           | None \<Rightarrow>
               (case find_on_path host ''cargo'' of
                  Some p \<Rightarrow> Ok p
                | None \<Rightarrow>
                    if rh_is_file host (homebrew ''cargo'') then Ok (homebrew ''cargo'')
                    else Err ''could not find Cargo'')))"

definition resolve_rustc :: "repro_host \<Rightarrow> (message, path) outcome" where
  "resolve_rustc host =
     (case rh_var host ''RUSTC'' of
        Some p \<Rightarrow> require_executable host p
      | None \<Rightarrow>
          (case find_on_path host ''rustc'' of
             Some p \<Rightarrow> Ok p
           | None \<Rightarrow>
               if rh_is_file host (homebrew ''rustc'') then Ok (homebrew ''rustc'')
               else Err ''could not find rustc''))"

definition tool_version :: "repro_host \<Rightarrow> path \<Rightarrow> string list \<Rightarrow> (message, u8 list) outcome" where
  "tool_version host tool arguments =
     and_then (ok_or (rh_output host tool (map bytes_of arguments)) ''failed to query version'') (\<lambda>(success, stdout).
     and_then (ensure success ''version query failed'') (\<lambda>_.
     and_then (ensure (utf8_valid stdout) ''version output is not UTF-8'') (\<lambda>_.
     Ok (trim_text stdout))))"

definition git_source_state :: "repro_host \<Rightarrow> path \<Rightarrow> u8 list option \<times> bool option" where
  "git_source_state host workspace =
     ((case rh_git host workspace (map bytes_of [''rev-parse'', ''--verify'', ''HEAD'']) of
         Some (True, stdout) \<Rightarrow> if utf8_valid stdout then Some (trim_text stdout) else None
       | _ \<Rightarrow> None),
      (case rh_git host workspace (map bytes_of [''status'', ''--porcelain=v1'', ''--untracked-files=normal'']) of
         Some (True, stdout) \<Rightarrow> Some (stdout = [])
       | _ \<Rightarrow> None))"

text \<open>\<^verbatim>\<open>Path::join\<close>: an absolute path replaces the base.\<close>

definition path_push :: "path \<Rightarrow> path \<Rightarrow> path" where
  "path_push base p = (if p \<noteq> [] \<and> hd p = RootDir then p else base @ p)"

definition canonical_directory :: "repro_host \<Rightarrow> path \<Rightarrow> path \<Rightarrow> (message, path) outcome" where
  "canonical_directory host p base =
     (let candidate = (if p \<noteq> [] \<and> hd p = RootDir then p else path_push base p) in
      and_then (ok_or (rh_canonicalize host candidate) ''not a readable directory'') (\<lambda>canonical.
      and_then (ensure (rh_is_dir host canonical) ''not a directory'') (\<lambda>_.
      and_then (validate_remap_path canonical) (\<lambda>_.
      Ok canonical))))"

definition host_paths_discover :: "repro_host \<Rightarrow> path \<Rightarrow> (message, host_paths) outcome" where
  "host_paths_discover host workspace =
     and_then (ok_or (rh_var host ''HOME'') ''HOME is unavailable'') (\<lambda>user_home_value.
     and_then (canonical_directory host user_home_value workspace) (\<lambda>user_home.
     and_then (ensure (path_parent user_home \<noteq> None) ''HOME resolves to a filesystem root'') (\<lambda>_.
     let cargo_home_value =
       (case rh_var host ''CARGO_HOME'' of
          None \<Rightarrow> path_join user_home (bytes_of ''.cargo'') | Some p \<Rightarrow> p) in
     and_then (canonical_directory host cargo_home_value workspace) (\<lambda>cargo_home.
     and_then (ensure (path_parent cargo_home \<noteq> None) ''Cargo home resolves to a filesystem root'') (\<lambda>_.
     Ok \<lparr>hp_cargo_home = cargo_home, hp_user_home = user_home\<rparr>)))))"

text \<open>\<open>n\<close> attempts, numbered from \<open>next_id\<close> on.\<close>

fun temporary_attempts :: "repro_host \<Rightarrow> path \<Rightarrow> u8 list \<Rightarrow> nat \<Rightarrow> nat \<Rightarrow> (message, path) outcome" where
  "temporary_attempts host parent purpose next_id 0 = Err ''could not allocate a unique temporary directory''"
| "temporary_attempts host parent purpose next_id (Suc n) =
     (let p = path_join parent (bytes_of ''.polytope-'' @ purpose @ bytes_of ''-'' @
         decimal_digits (rh_pid host) @ bytes_of ''-'' @ decimal_digits next_id) in
      case rh_create_dir host p of
        Created \<Rightarrow> Ok p
      | AlreadyExists \<Rightarrow> temporary_attempts host parent purpose (next_id + 1) n
      | MkdirFailed \<Rightarrow> Err ''failed to create temporary directory'')"

definition temporary_directory_create :: "repro_host \<Rightarrow> path \<Rightarrow> u8 list \<Rightarrow> (message, path) outcome" where
  "temporary_directory_create host parent purpose =
     and_then (ensure (rh_create_dir_all host parent) ''failed to create temporary parent'') (\<lambda>_.
     temporary_attempts host parent purpose (rh_next_id host) 128)"

section \<open>One build\<close>

record repro_request =
  rq_workspace :: path
  rq_cargo :: "path option"
  rq_loader :: artifact_spec
  rq_kernel :: artifact_spec
  rq_output :: path
  rq_verified_loader_output :: "path option"
  rq_verified_kernel_output :: "path option"
  rq_verified_kernel_map_output :: "path option"
  rq_kernel_map_relative_path :: "path option"
  rq_scenario :: image_scenario

definition names :: "string list \<Rightarrow> path" where
  "names = map (\<lambda>n. NormalName (bytes_of n))"

definition polytope_defaults :: "path \<Rightarrow> path \<Rightarrow> repro_request" where
  "polytope_defaults workspace out =
     \<lparr>rq_workspace = workspace, rq_cargo = None,
      rq_loader =
        \<lparr>as_package = bytes_of ''polytope-boot-uefi'', as_binary = bytes_of ''polytope-boot-uefi'',
         as_target = bytes_of ''x86_64-unknown-uefi'',
         as_relative_path = names [''x86_64-unknown-uefi'', ''boot'', ''polytope-boot-uefi.efi''],
         as_features = [bytes_of ''uefi-binary''],
         as_rustc_flags = [LinkArgument (bytes_of ''/debug:none'')]\<rparr>,
      rq_kernel =
        \<lparr>as_package = bytes_of ''polytope-kernel'', as_binary = bytes_of ''polytope-kernel-x86_64'',
         as_target = bytes_of ''x86_64-unknown-none'',
         as_relative_path = names [''x86_64-unknown-none'', ''boot'', ''polytope-kernel-x86_64''],
         as_features = [bytes_of ''boot-binary''],
         as_rustc_flags = [StaticRelocationModel, LinkArgument (bytes_of ''-no-pie'')]\<rparr>,
      rq_output = out, rq_verified_loader_output = None, rq_verified_kernel_output = None,
      rq_verified_kernel_map_output = None,
      rq_kernel_map_relative_path =
        Some (names [''x86_64-unknown-none'', ''boot'', ''polytope-kernel-x86_64.map'']),
      rq_scenario = ImgNormal\<rparr>"

record built_artifacts =
  ba_loader :: "u8 list"
  ba_kernel :: "u8 list"
  ba_kernel_map :: "u8 list option"
  ba_loader_path_privacy :: path_privacy_evidence
  ba_kernel_path_privacy :: path_privacy_evidence
  ba_path_contract :: "path_remap list"

definition build_artifact ::
    "repro_host \<Rightarrow> path \<Rightarrow> path \<Rightarrow> path \<Rightarrow> artifact_spec \<Rightarrow> path_remap list \<Rightarrow> host_paths \<Rightarrow> (message, unit) outcome"
  where
  "build_artifact host cargo workspace target_directory artifact contract hp =
     and_then (encoded_rustflags artifact contract) (\<lambda>flags.
     let command =
       \<lparr>cc_program = cargo, cc_current_dir = workspace,
        cc_arguments =
          map bytes_of [''rustc'', ''--locked'', ''--profile'', ''boot'', ''--manifest-path''] @
          [path_bytes (path_join workspace (bytes_of ''Cargo.toml'')), bytes_of ''--package'',
           as_package artifact, bytes_of ''--bin'', as_binary artifact, bytes_of ''--target'',
           as_target artifact] @
          (if as_features artifact \<noteq> []
           then [bytes_of ''--features'', join_bytes 0x2C (as_features artifact)] else []),
        cc_environment =
          [(''CARGO_TARGET_DIR'', path_bytes target_directory), (''CARGO_INCREMENTAL'', bytes_of ''0''),
           (''CARGO_HOME'', path_bytes (hp_cargo_home hp)), (''HOME'', path_bytes (hp_user_home hp)),
           (''CARGO_ENCODED_RUSTFLAGS'', flags),
           (''SOURCE_DATE_EPOCH'', decimal_digits (unat SOURCE_DATE_EPOCH))],
        cc_removed = [''RUSTFLAGS'']\<rparr> in
     and_then (ok_or (rh_cargo host command) ''failed to execute Cargo'') (\<lambda>success.
     ensure success ''clean build failed''))"

definition read_artifact :: "repro_host \<Rightarrow> path \<Rightarrow> artifact_spec \<Rightarrow> (message, u8 list) outcome" where
  "read_artifact host target_directory artifact =
     (let p = path_push target_directory (as_relative_path artifact) in
      and_then (ok_or (hi_metadata (rh_inputs host) p) ''expected artifact is absent'') (\<lambda>(is_file, len).
      and_then (ensure (\<not> (\<not> is_file \<or> len > MAX_ARTIFACT_BYTES))
          ''artifact is not a regular file within the bound'') (\<lambda>_.
      ok_or (hi_read (rh_inputs host) p) ''expected artifact is absent'')))"

definition read_bounded_path :: "repro_host \<Rightarrow> path \<Rightarrow> (message, u8 list) outcome" where
  "read_bounded_path host p =
     and_then (ok_or (hi_metadata (rh_inputs host) p) ''failed to inspect'') (\<lambda>(is_file, len).
     and_then (ensure (\<not> (\<not> is_file \<or> len > MAX_ARTIFACT_BYTES)) ''not a regular file within the bound'') (\<lambda>_.
     ok_or (hi_read (rh_inputs host) p) ''failed to read''))"

definition build_once ::
    "repro_host \<Rightarrow> path \<Rightarrow> path \<Rightarrow> path \<Rightarrow> repro_request \<Rightarrow> host_paths \<Rightarrow> (message, built_artifacts) outcome" where
  "build_once host cargo workspace target_directory request hp =
     and_then (ensure (rh_create_dir_all host target_directory) ''failed to create clean target directory'') (\<lambda>_.
     and_then (ok_or (rh_canonicalize host target_directory) ''failed to resolve clean target directory'') (\<lambda>target_directory.
     and_then (build_path_contract_new workspace target_directory hp) (\<lambda>contract.
     and_then (build_artifact host cargo workspace target_directory (rq_loader request) contract hp) (\<lambda>_.
     and_then (build_artifact host cargo workspace target_directory (rq_kernel request) contract hp) (\<lambda>_.
     and_then (read_artifact host target_directory (rq_loader request)) (\<lambda>loader.
     and_then (read_artifact host target_directory (rq_kernel request)) (\<lambda>kernel_elf.
     and_then (case rq_kernel_map_relative_path request of
           None \<Rightarrow> Ok None
         | Some relative \<Rightarrow>
             and_then (read_bounded_path host (path_push target_directory relative)) (\<lambda>m. Ok (Some m))) (\<lambda>kernel_map.
     and_then (verify_path_privacy loader contract) (\<lambda>loader_path_privacy.
     and_then (verify_path_privacy kernel_elf contract) (\<lambda>kernel_path_privacy.
     Ok \<lparr>ba_loader = loader, ba_kernel = kernel_elf, ba_kernel_map = kernel_map,
         ba_loader_path_privacy = loader_path_privacy, ba_kernel_path_privacy = kernel_path_privacy,
         ba_path_contract = contract\<rparr>))))))))))"

section \<open>The check\<close>

record repro_report =
  rr_schema_version :: u32
  rr_cargo_profile :: "u8 list"
  rr_scenario :: image_scenario
  rr_rustc_version :: "u8 list"
  rr_cargo_version :: "u8 list"
  rr_source_revision :: "u8 list option"
  rr_source_tree_clean :: "bool option"
  rr_cargo_lock_sha256 :: string
  rr_loader_target :: "u8 list"
  rr_kernel_target :: "u8 list"
  rr_loader_required_rustc_flags :: "u8 list list"
  rr_kernel_required_rustc_flags :: "u8 list list"
  rr_loader_sha256 :: string
  rr_loader_bytes :: u64
  rr_kernel_sha256 :: string
  rr_kernel_bytes :: u64
  rr_image_sha256 :: string
  rr_image_bytes :: u64
  rr_source_date_epoch :: u64
  rr_workspace_remap_destination :: "u8 list"
  rr_cargo_home_remap_destination :: "u8 list"
  rr_user_home_remap_destination :: "u8 list"
  rr_target_directory_remap_destination :: "u8 list"
  rr_loader_path_privacy :: path_privacy_evidence
  rr_kernel_path_privacy :: path_privacy_evidence
  rr_image_path_privacy :: path_privacy_evidence

text \<open>The two builds of \<^verbatim>\<open>verify\<close>, from the clean directories.\<close>

definition build_twice ::
    "repro_host \<Rightarrow> path \<Rightarrow> path \<Rightarrow> path \<Rightarrow> repro_request \<Rightarrow> host_paths
      \<Rightarrow> (message, built_artifacts \<times> built_artifacts) outcome" where
  "build_twice host cargo workspace temporary request hp =
     and_then (build_once host cargo workspace (path_join temporary (bytes_of ''build-a'')) request hp) (\<lambda>a.
     and_then (build_once host cargo workspace (path_join temporary (bytes_of ''build-b'')) request hp) (\<lambda>b.
     and_then (require_identical (ba_loader a) (ba_loader b)) (\<lambda>_.
     and_then (require_identical (ba_kernel a) (ba_kernel b)) (\<lambda>_.
     and_then (require_privacy_evidence_identical (ba_loader_path_privacy a) (ba_loader_path_privacy b)) (\<lambda>_.
     and_then (require_privacy_evidence_identical (ba_kernel_path_privacy a) (ba_kernel_path_privacy b)) (\<lambda>_.
     Ok (a, b)))))))"

text \<open>The images of the two builds: the first image, its manifest and its evidence.\<close>

definition assemble_images ::
    "('u, 'g, 'v, 'd) image_crates \<Rightarrow> image_scenario \<Rightarrow> built_artifacts \<Rightarrow> built_artifacts
      \<Rightarrow> (message, u8 list \<times> image_manifest \<times> path_privacy_evidence) outcome" where
  "assemble_images ic scn a b =
     and_then (build_image_bytes ic (ba_loader a) (ba_kernel a) scn) (\<lambda>(first_image, first_manifest).
     and_then (build_image_bytes ic (ba_loader b) (ba_kernel b) scn) (\<lambda>(second_image, _).
     and_then (require_identical first_image second_image) (\<lambda>_.
     and_then (verify_path_privacy first_image (ba_path_contract a)) (\<lambda>first_image_privacy.
     and_then (verify_path_privacy second_image (ba_path_contract b)) (\<lambda>second_image_privacy.
     and_then (require_privacy_evidence_identical first_image_privacy second_image_privacy) (\<lambda>_.
     Ok (first_image, first_manifest, first_image_privacy)))))))"

definition write_optional ::
    "nat \<Rightarrow> io_faults \<Rightarrow> path option \<Rightarrow> u8 list option \<Rightarrow> (message, unit) outcome \<times> host_files
      \<Rightarrow> (message, unit) outcome \<times> host_files" where
  "write_optional pid io target content st =
     (case st of
        (Ok _, fs) \<Rightarrow>
          (case target of
             None \<Rightarrow> (Ok (), fs)
           | Some p \<Rightarrow>
               (case content of
                  None \<Rightarrow> (Err ''verified output was requested without an artifact contract'', fs)
                | Some bytes \<Rightarrow> write_verified_file pid io p bytes fs))
      | _ \<Rightarrow> st)"

text \<open>\<open>io i\<close> are the failures during the \<open>i\<close>-th write.\<close>

definition write_outputs ::
    "nat \<Rightarrow> (nat \<Rightarrow> io_faults) \<Rightarrow> repro_request \<Rightarrow> u8 list \<Rightarrow> built_artifacts \<Rightarrow> host_files
      \<Rightarrow> (message, unit) outcome \<times> host_files" where
  "write_outputs pid io request disk a fs =
     write_optional pid (io 3) (rq_verified_kernel_map_output request) (ba_kernel_map a)
       (write_optional pid (io 2) (rq_verified_kernel_output request) (Some (ba_kernel a))
         (write_optional pid (io 1) (rq_verified_loader_output request) (Some (ba_loader a))
           (write_verified_file pid (io 0) (rq_output request) disk fs)))"

text \<open>The part of \<^verbatim>\<open>verify\<close> before the first output file is written.\<close>

record repro_evidence =
  rv_first :: built_artifacts
  rv_second :: built_artifacts
  rv_image :: "u8 list"
  rv_manifest :: image_manifest
  rv_image_privacy :: path_privacy_evidence
  rv_cargo_version :: "u8 list"
  rv_rustc_version :: "u8 list"
  rv_cargo_lock :: "u8 list"
  rv_source_state :: "u8 list option \<times> bool option"

definition gather_evidence ::
    "('u, 'g, 'v, 'd) image_crates \<Rightarrow> repro_host \<Rightarrow> repro_request \<Rightarrow> (message, repro_evidence) outcome" where
  "gather_evidence ic host request =
     and_then (ok_or (rh_canonicalize host (rq_workspace request)) ''workspace does not exist'') (\<lambda>workspace.
     and_then (resolve_cargo host (rq_cargo request)) (\<lambda>cargo.
     and_then (resolve_rustc host) (\<lambda>rustc.
     and_then (host_paths_discover host workspace) (\<lambda>hp.
     and_then (tool_version host cargo [''--version'']) (\<lambda>cargo_version.
     and_then (tool_version host rustc [''--version'', ''--verbose'']) (\<lambda>rustc_version.
     and_then (ok_or (hi_read (rh_inputs host) (path_join workspace (bytes_of ''Cargo.lock'')))
         ''reproducibility check requires a readable Cargo.lock'') (\<lambda>cargo_lock.
     let source_state = git_source_state host workspace;
         temporary_parent =
           (case path_parent (rq_output request) of
              Some p \<Rightarrow> if p = [] then [NormalName (bytes_of ''target'')] else p
            | None \<Rightarrow> [NormalName (bytes_of ''target'')]) in
     and_then (temporary_directory_create host temporary_parent (bytes_of ''repro'')) (\<lambda>temporary.
     and_then (build_twice host cargo workspace temporary request hp) (\<lambda>(a, b).
     and_then (assemble_images ic (rq_scenario request) a b) (\<lambda>(disk, manifest, image_privacy).
     Ok \<lparr>rv_first = a, rv_second = b, rv_image = disk, rv_manifest = manifest,
         rv_image_privacy = image_privacy, rv_cargo_version = cargo_version,
         rv_rustc_version = rustc_version, rv_cargo_lock = cargo_lock,
         rv_source_state = source_state\<rparr>))))))))))"

definition make_report ::
    "('u, 'g, 'v, 'd) image_crates \<Rightarrow> repro_request \<Rightarrow> repro_evidence \<Rightarrow> (message, repro_report) outcome" where
  "make_report ic request ev =
     (let a = rv_first ev in
     and_then (artifact_rustc_arguments (rq_loader request)) (\<lambda>loader_flags.
     and_then (artifact_rustc_arguments (rq_kernel request)) (\<lambda>kernel_flags.
     and_then (ok_or (u64_try_from_usize (length (ba_loader a))) ''loader size does not fit u64'') (\<lambda>loader_bytes.
     and_then (ok_or (u64_try_from_usize (length (ba_kernel a))) ''kernel size does not fit u64'') (\<lambda>kernel_bytes.
     Ok \<lparr>rr_schema_version = 3, rr_cargo_profile = bytes_of ''boot'', rr_scenario = rq_scenario request,
         rr_rustc_version = rv_rustc_version ev, rr_cargo_version = rv_cargo_version ev,
         rr_source_revision = fst (rv_source_state ev), rr_source_tree_clean = snd (rv_source_state ev),
         rr_cargo_lock_sha256 = sha256_hex ic (rv_cargo_lock ev),
         rr_loader_target = as_target (rq_loader request), rr_kernel_target = as_target (rq_kernel request),
         rr_loader_required_rustc_flags = loader_flags, rr_kernel_required_rustc_flags = kernel_flags,
         rr_loader_sha256 = sha256_hex ic (ba_loader a), rr_loader_bytes = loader_bytes,
         rr_kernel_sha256 = sha256_hex ic (ba_kernel a), rr_kernel_bytes = kernel_bytes,
         rr_image_sha256 = im_image_sha256 (rv_manifest ev), rr_image_bytes = im_image_bytes (rv_manifest ev),
         rr_source_date_epoch = SOURCE_DATE_EPOCH,
         rr_workspace_remap_destination = WORKSPACE_REMAP_DESTINATION,
         rr_cargo_home_remap_destination = CARGO_HOME_REMAP_DESTINATION,
         rr_user_home_remap_destination = USER_HOME_REMAP_DESTINATION,
         rr_target_directory_remap_destination = TARGET_REMAP_DESTINATION,
         rr_loader_path_privacy = ba_loader_path_privacy a, rr_kernel_path_privacy = ba_kernel_path_privacy a,
         rr_image_path_privacy = rv_image_privacy ev\<rparr>)))))"

definition repro_verify ::
    "('u, 'g, 'v, 'd) image_crates \<Rightarrow> repro_host \<Rightarrow> (nat \<Rightarrow> io_faults) \<Rightarrow> repro_request \<Rightarrow> host_files
      \<Rightarrow> (message, repro_report) outcome \<times> host_files" where
  "repro_verify ic host io request fs =
     (case gather_evidence ic host request of
        Panic \<Rightarrow> (Panic, fs)
      | Err e \<Rightarrow> (Err e, fs)
      | Ok ev \<Rightarrow>
          (case write_outputs (rh_pid host) io request (rv_image ev) (rv_first ev) fs of
             (r, fs) \<Rightarrow> (and_then r (\<lambda>_. make_report ic request ev), fs)))"

section \<open>Comparison and scanning\<close>

lemma find_difference_None: "find_difference i left right = None \<longleftrightarrow>
    take (min (length left) (length right)) left = take (min (length left) (length right)) right"
  by (induction i left right rule: find_difference.induct) auto

lemma first_difference_None: "first_difference left right = None \<longleftrightarrow> left = right"
  using find_difference_None [of 0 left right] find_difference_None [of 0 right right]
  by (auto simp: first_difference_def Let_def split: option.splits if_splits)

lemma require_identical_Ok: "require_identical left right = Ok () \<longleftrightarrow> left = right"
  using first_difference_None [of left right] by (auto simp: require_identical_def split: option.splits)

lemma find_difference_Some:
  "find_difference i left right = Some d \<Longrightarrow> \<exists>k. bd_offset d = i + k \<and> k < length left \<and> k < length right \<and>
    take k left = take k right \<and> left ! k \<noteq> right ! k \<and> bd_left d = Some (left ! k) \<and> bd_right d = Some (right ! k)"
proof (induction i left right rule: find_difference.induct)
  case (1 i a left b right)
  show ?case
  proof (cases "a = b")
    case True
    then obtain k where "bd_offset d = Suc i + k" "k < length left" "k < length right"
      "take k left = take k right" "left ! k \<noteq> right ! k" "bd_left d = Some (left ! k)"
      "bd_right d = Some (right ! k)"
      using 1 by auto
    then show ?thesis using True by (intro exI [of _ "Suc k"]) simp
  next
    case False
    then show ?thesis using 1 by (intro exI [of _ 0]) auto
  qed
qed simp_all

text \<open>A pattern occurs in a text.\<close>

definition occurs :: "'a list \<Rightarrow> 'a list \<Rightarrow> bool" where
  "occurs pattern xs \<longleftrightarrow> (\<exists>pre post. xs = pre @ pattern @ post)"

lemma occurs_Cons:
  "pattern \<noteq> [] \<Longrightarrow> occurs pattern (x # xs) \<longleftrightarrow>
    (length pattern \<le> length (x # xs) \<and> take (length pattern) (x # xs) = pattern) \<or> occurs pattern xs"
proof -
  assume ne: "pattern \<noteq> []"
  have "occurs pattern (x # xs) \<longleftrightarrow> (\<exists>post. x # xs = pattern @ post) \<or> occurs pattern xs"
  proof
    assume "occurs pattern (x # xs)"
    then obtain pre post where split: "x # xs = pre @ pattern @ post" by (auto simp: occurs_def)
    show "(\<exists>post. x # xs = pattern @ post) \<or> occurs pattern xs"
    proof (cases pre)
      case Nil
      then show ?thesis using split by auto
    next
      case (Cons y pre')
      then have "xs = pre' @ pattern @ post" using split by simp
      then show ?thesis unfolding occurs_def by blast
    qed
  next
    assume "(\<exists>post. x # xs = pattern @ post) \<or> occurs pattern xs"
    then show "occurs pattern (x # xs)"
    proof
      assume "\<exists>post. x # xs = pattern @ post"
      then obtain post where "x # xs = [] @ pattern @ post" by auto
      then show ?thesis unfolding occurs_def by blast
    next
      assume "occurs pattern xs"
      then obtain pre post where "xs = pre @ pattern @ post" unfolding occurs_def by blast
      then have "x # xs = (x # pre) @ pattern @ post" by simp
      then show ?thesis unfolding occurs_def by blast
    qed
  qed
  moreover have "(\<exists>post. x # xs = pattern @ post) \<longleftrightarrow>
      length pattern \<le> length (x # xs) \<and> take (length pattern) (x # xs) = pattern"
  proof
    assume "\<exists>post. x # xs = pattern @ post"
    then obtain post where p: "x # xs = pattern @ post" by blast
    show "length pattern \<le> length (x # xs) \<and> take (length pattern) (x # xs) = pattern" unfolding p by simp
  next
    assume "length pattern \<le> length (x # xs) \<and> take (length pattern) (x # xs) = pattern"
    then have "x # xs = pattern @ drop (length pattern) (x # xs)" by (metis append_take_drop_id)
    then show "\<exists>post. x # xs = pattern @ post" by blast
  qed
  ultimately show ?thesis by simp
qed

lemma occurs_Nil: "pattern \<noteq> [] \<Longrightarrow> \<not> occurs pattern []"
  by (simp add: occurs_def)

lemma window_position_None: "pattern \<noteq> [] \<Longrightarrow> window_position i pattern bytes = None \<longleftrightarrow> \<not> occurs pattern bytes"
  by (induction i pattern bytes rule: window_position.induct) (simp_all add: occurs_Nil occurs_Cons)

lemma first_subslice_None: "first_subslice bytes pattern = None \<longleftrightarrow> pattern = [] \<or> \<not> occurs pattern bytes"
  by (auto simp: first_subslice_def window_position_None) (auto simp: occurs_def)

definition hides_sources :: "path_remap list \<Rightarrow> u8 list \<Rightarrow> bool" where
  "hides_sources contract bytes \<longleftrightarrow>
     list_all (\<lambda>r. path_bytes (pr_source r) = [] \<or> \<not> occurs (path_bytes (pr_source r)) bytes) contract"

lemma scan_remaps_hides: "scan_remaps bytes contract = Ok () \<Longrightarrow> hides_sources contract bytes"
  by (induction bytes contract rule: scan_remaps.induct)
    (auto simp: hides_sources_def outcome_simps path_to_str_def first_subslice_None split: if_splits)

lemma verify_path_privacy_hides: "verify_path_privacy bytes contract = Ok ev \<Longrightarrow> hides_sources contract bytes"
  by (auto simp: verify_path_privacy_def outcome_simps scan_remaps_hides)

section \<open>What is published\<close>

lemma build_image_bytes_facts:
  assumes "build_image_bytes ic loader kernel_elf scn = Ok (disk, m)"
  shows "validate_image_bytes ic disk = Ok m" "im_scenario m = scn"
    "im_loader_sha256 m = sha256_hex ic loader" "im_kernel_sha256 m = sha256_hex ic kernel_elf"
  using assms by (auto simp: build_image_bytes_def Let_def outcome_simps)

lemma build_once_hides:
  assumes "build_once host cargo workspace t request hp = Ok b"
  shows "hides_sources (ba_path_contract b) (ba_loader b)" "hides_sources (ba_path_contract b) (ba_kernel b)"
  using assms by (auto simp: build_once_def outcome_simps dest: verify_path_privacy_hides)

lemma contract_shape:
  assumes "build_path_contract_new workspace target hp = Ok contract"
  shows "contract =
    [\<lparr>pr_kind = TargetPath, pr_source = target, pr_destination = TARGET_REMAP_DESTINATION\<rparr>,
     \<lparr>pr_kind = WorkspacePath, pr_source = workspace, pr_destination = WORKSPACE_REMAP_DESTINATION\<rparr>,
     \<lparr>pr_kind = CargoHomePath, pr_source = hp_cargo_home hp, pr_destination = CARGO_HOME_REMAP_DESTINATION\<rparr>,
     \<lparr>pr_kind = UserHomePath, pr_source = hp_user_home hp, pr_destination = USER_HOME_REMAP_DESTINATION\<rparr>]"
    and "distinct [target, workspace, hp_cargo_home hp, hp_user_home hp]"
  using assms by (auto simp: build_path_contract_new_def Let_def outcome_simps)

text \<open>
  \<open>free_of ps bytes\<close>: the text of none of the paths occurs in the bytes.  \<open>clean_build\<close>: the artifacts
  were read from the target directory in which Cargo was run for loader and kernel, and they and the
  disk are free of the four host paths of that build.
\<close>

definition free_of :: "path list \<Rightarrow> u8 list \<Rightarrow> bool" where
  "free_of ps bytes \<longleftrightarrow> list_all (\<lambda>p. path_bytes p = [] \<or> \<not> occurs (path_bytes p) bytes) ps"

definition clean_build ::
    "repro_host \<Rightarrow> path \<Rightarrow> path \<Rightarrow> path \<Rightarrow> repro_request \<Rightarrow> host_paths \<Rightarrow> u8 list \<Rightarrow> built_artifacts \<Rightarrow> bool"
  where
  "clean_build host cargo workspace directory request hp disk b \<longleftrightarrow>
     (\<exists>target. rh_create_dir_all host directory \<and> rh_canonicalize host directory = Some target \<and>
        build_artifact host cargo workspace target (rq_loader request) (ba_path_contract b) hp = Ok () \<and>
        build_artifact host cargo workspace target (rq_kernel request) (ba_path_contract b) hp = Ok () \<and>
        read_artifact host target (rq_loader request) = Ok (ba_loader b) \<and>
        read_artifact host target (rq_kernel request) = Ok (ba_kernel b) \<and>
        map pr_source (ba_path_contract b) = [target, workspace, hp_cargo_home hp, hp_user_home hp] \<and>
        list_all (free_of [target, workspace, hp_cargo_home hp, hp_user_home hp])
          [ba_loader b, ba_kernel b, disk])"

lemma build_once_clean:
  assumes "build_once host cargo workspace directory request hp = Ok b"
    and "hides_sources (ba_path_contract b) disk"
  shows "clean_build host cargo workspace directory request hp disk b"
proof -
  obtain target where t: "rh_create_dir_all host directory" "rh_canonicalize host directory = Some target"
    and c: "build_path_contract_new workspace target hp = Ok (ba_path_contract b)"
    and built: "build_artifact host cargo workspace target (rq_loader request) (ba_path_contract b) hp = Ok ()"
      "build_artifact host cargo workspace target (rq_kernel request) (ba_path_contract b) hp = Ok ()"
      "read_artifact host target (rq_loader request) = Ok (ba_loader b)"
      "read_artifact host target (rq_kernel request) = Ok (ba_kernel b)"
    using assms(1) by (auto simp: build_once_def outcome_simps)
  have hides: "hides_sources (ba_path_contract b) bytes \<longleftrightarrow>
      free_of [target, workspace, hp_cargo_home hp, hp_user_home hp] bytes" for bytes
    using contract_shape(1) [OF c] by (simp add: hides_sources_def free_of_def)
  have "map pr_source (ba_path_contract b) = [target, workspace, hp_cargo_home hp, hp_user_home hp]"
    using contract_shape(1) [OF c] by simp
  then show ?thesis
    using t built build_once_hides [OF assms(1)] assms(2) unfolding clean_build_def hides by auto
qed

lemma build_twice_facts:
  assumes "build_twice host cargo workspace t request hp = Ok (a, b)"
  shows "ba_loader a = ba_loader b" "ba_kernel a = ba_kernel b"
    "hides_sources (ba_path_contract a) (ba_loader a)" "hides_sources (ba_path_contract a) (ba_kernel a)"
    "hides_sources (ba_path_contract b) (ba_loader b)" "hides_sources (ba_path_contract b) (ba_kernel b)"
    "build_once host cargo workspace (path_join t (bytes_of ''build-a'')) request hp = Ok a"
    "build_once host cargo workspace (path_join t (bytes_of ''build-b'')) request hp = Ok b"
  using assms
  by (auto simp: build_twice_def outcome_simps require_identical_Ok dest: build_once_hides)

lemma assemble_images_facts:
  assumes "assemble_images ic scn a b = Ok (disk, m, ev)"
  shows "validate_image_bytes ic disk = Ok m" "im_scenario m = scn"
    "im_loader_sha256 m = sha256_hex ic (ba_loader a)" "im_kernel_sha256 m = sha256_hex ic (ba_kernel a)"
    "hides_sources (ba_path_contract a) disk" "hides_sources (ba_path_contract b) disk"
    "\<exists>m'. build_image_bytes ic (ba_loader b) (ba_kernel b) scn = Ok (disk, m')"
  using assms
  by (auto simp: assemble_images_def outcome_simps require_identical_Ok
      dest: build_image_bytes_facts verify_path_privacy_hides split: prod.splits)

text \<open>The files after an optional output was published.\<close>

definition published :: "path option \<Rightarrow> u8 list option \<Rightarrow> host_files \<Rightarrow> host_files" where
  "published target content fs =
     (case (target, content) of (Some p, Some bytes) \<Rightarrow> fs(resolved p \<mapsto> bytes) | _ \<Rightarrow> fs)"

lemma write_optional_Ok:
  assumes "write_optional pid io target content st = (Ok u, fs')"
  shows "\<exists>fs. st = (Ok (), fs) \<and> fs' = published target content fs"
proof -
  obtain fs where st: "st = (Ok (), fs)"
    using assms by (cases st; cases "fst st") (auto simp: write_optional_def)
  show ?thesis
  proof (cases "\<exists>p bytes. target = Some p \<and> content = Some bytes")
    case True
    then obtain p bytes where "target = Some p" "content = Some bytes" by blast
    then show ?thesis
      using assms verified.success [of pid io p bytes fs] by (simp add: st write_optional_def published_def)
  next
    case False
    then show ?thesis
      using assms by (auto simp: st write_optional_def published_def split: option.splits)
  qed
qed

lemma write_outputs_Ok:
  assumes "write_outputs pid io request disk a fs = (Ok u, fs')"
  shows "fs' = published (rq_verified_kernel_map_output request) (ba_kernel_map a)
    (published (rq_verified_kernel_output request) (Some (ba_kernel a))
      (published (rq_verified_loader_output request) (Some (ba_loader a))
        (published (Some (rq_output request)) (Some disk) fs)))"
proof -
  obtain fs1 where image: "write_verified_file pid (io 0) (rq_output request) disk fs = (Ok (), fs1)"
    and rest: "fs' = published (rq_verified_kernel_map_output request) (ba_kernel_map a)
      (published (rq_verified_kernel_output request) (Some (ba_kernel a))
        (published (rq_verified_loader_output request) (Some (ba_loader a)) fs1))"
    using assms unfolding write_outputs_def by (blast dest: write_optional_Ok)
  have "fs1 = published (Some (rq_output request)) (Some disk) fs"
    using verified.success [of pid "io 0" "rq_output request" disk fs] by (simp add: image published_def)
  then show ?thesis by (simp only: rest)
qed

lemma repro_verify_Ok:
  assumes "gather_evidence ic host request = Ok ev" and "repro_verify ic host io request fs = (Ok r, fs')"
  shows "write_outputs (rh_pid host) io request (rv_image ev) (rv_first ev) fs = (Ok (), fs')"
    and "make_report ic request ev = Ok r"
  using assms
  by (auto simp: repro_verify_def outcome_simps split: prod.splits)

lemma make_report_digests:
  assumes "make_report ic request ev = Ok r"
  shows "rr_image_sha256 r = im_image_sha256 (rv_manifest ev)"
    "rr_loader_sha256 r = sha256_hex ic (ba_loader (rv_first ev))"
    "rr_kernel_sha256 r = sha256_hex ic (ba_kernel (rv_first ev))"
  using assms by (auto simp: make_report_def Let_def outcome_simps)

text \<open>
  C36: only verified artifacts are published.  Evidence is gathered only if Cargo built loader and
  kernel in the directories \<^verbatim>\<open>build-a\<close> and \<^verbatim>\<open>build-b\<close> of a new temporary directory, the artifacts read
  from the two are byte-identical and give byte-identical images, none of these contains the text of
  the build's target directory, of the workspace, of the Cargo home or of the user home, and the image
  validates with the requested scenario and the digests of the built files.  A report is returned only with such evidence; it then carries these digests, and the output
  files hold exactly the verified bytes.  Without evidence no output file is written.
\<close>

theorem repro_publishes_only_verified:
  "case gather_evidence ic host request of
     Ok ev \<Rightarrow>
       (\<exists>cargo workspace parent temporary hp.
          rh_canonicalize host (rq_workspace request) = Some workspace \<and>
          resolve_cargo host (rq_cargo request) = Ok cargo \<and> host_paths_discover host workspace = Ok hp \<and>
          temporary_directory_create host parent (bytes_of ''repro'') = Ok temporary \<and>
          clean_build host cargo workspace (path_join temporary (bytes_of ''build-a'')) request hp
            (rv_image ev) (rv_first ev) \<and>
          clean_build host cargo workspace (path_join temporary (bytes_of ''build-b'')) request hp
            (rv_image ev) (rv_second ev)) \<and>
       ba_loader (rv_first ev) = ba_loader (rv_second ev) \<and>
       ba_kernel (rv_first ev) = ba_kernel (rv_second ev) \<and>
       (\<exists>m'. build_image_bytes ic (ba_loader (rv_second ev)) (ba_kernel (rv_second ev)) (rq_scenario request) =
          Ok (rv_image ev, m')) \<and>
       list_all (hides_sources (ba_path_contract (rv_first ev)))
         [ba_loader (rv_first ev), ba_kernel (rv_first ev), rv_image ev] \<and>
       list_all (hides_sources (ba_path_contract (rv_second ev)))
         [ba_loader (rv_second ev), ba_kernel (rv_second ev), rv_image ev] \<and>
       validate_image_bytes ic (rv_image ev) = Ok (rv_manifest ev) \<and>
       im_scenario (rv_manifest ev) = rq_scenario request \<and>
       im_loader_sha256 (rv_manifest ev) = sha256_hex ic (ba_loader (rv_first ev)) \<and>
       im_kernel_sha256 (rv_manifest ev) = sha256_hex ic (ba_kernel (rv_first ev)) \<and>
       (case repro_verify ic host io request fs of
          (Ok r, fs') \<Rightarrow>
            rr_image_sha256 r = im_image_sha256 (rv_manifest ev) \<and>
            rr_loader_sha256 r = im_loader_sha256 (rv_manifest ev) \<and>
            rr_kernel_sha256 r = im_kernel_sha256 (rv_manifest ev) \<and>
            fs' = published (rq_verified_kernel_map_output request) (ba_kernel_map (rv_first ev))
              (published (rq_verified_kernel_output request) (Some (ba_kernel (rv_first ev)))
                (published (rq_verified_loader_output request) (Some (ba_loader (rv_first ev)))
                  (published (Some (rq_output request)) (Some (rv_image ev)) fs)))
        | _ \<Rightarrow> True)
   | _ \<Rightarrow> snd (repro_verify ic host io request fs) = fs \<and>
       (\<nexists>r. fst (repro_verify ic host io request fs) = Ok r)"
proof (cases "gather_evidence ic host request")
  case (Ok ev)
  then obtain cargo workspace parent t hp where
    env: "rh_canonicalize host (rq_workspace request) = Some workspace"
      "resolve_cargo host (rq_cargo request) = Ok cargo" "host_paths_discover host workspace = Ok hp"
      "temporary_directory_create host parent (bytes_of ''repro'') = Ok t"
    and twice: "build_twice host cargo workspace t request hp = Ok (rv_first ev, rv_second ev)"
    and images: "assemble_images ic (rq_scenario request) (rv_first ev) (rv_second ev) =
      Ok (rv_image ev, rv_manifest ev, rv_image_privacy ev)"
    by (auto simp: gather_evidence_def Let_def outcome_simps)
  note twofacts = build_twice_facts [OF twice] and imgfacts = assemble_images_facts [OF images]
  have "clean_build host cargo workspace (path_join t (bytes_of ''build-a'')) request hp (rv_image ev) (rv_first ev)"
    "clean_build host cargo workspace (path_join t (bytes_of ''build-b'')) request hp (rv_image ev) (rv_second ev)"
    using build_once_clean [OF twofacts(7) imgfacts(5)] build_once_clean [OF twofacts(8) imgfacts(6)] by simp_all
  then have builds: "\<exists>cargo workspace parent temporary hp.
      rh_canonicalize host (rq_workspace request) = Some workspace \<and>
      resolve_cargo host (rq_cargo request) = Ok cargo \<and> host_paths_discover host workspace = Ok hp \<and>
      temporary_directory_create host parent (bytes_of ''repro'') = Ok temporary \<and>
      clean_build host cargo workspace (path_join temporary (bytes_of ''build-a'')) request hp
        (rv_image ev) (rv_first ev) \<and>
      clean_build host cargo workspace (path_join temporary (bytes_of ''build-b'')) request hp
        (rv_image ev) (rv_second ev)"
    using env by blast
  note facts = builds twofacts(1-6) imgfacts
  obtain res fs' where run: "repro_verify ic host io request fs = (res, fs')" by fastforce
  show ?thesis
  proof (cases res)
    case report: (Ok r)
    note fin = repro_verify_Ok [OF Ok run [unfolded report]]
    show ?thesis
      using facts make_report_digests [OF fin(2)] write_outputs_Ok [OF fin(1)] by (simp add: Ok run report)
  qed (use facts in \<open>simp_all add: Ok run\<close>)
qed (simp_all add: repro_verify_def)

section \<open>The flags that reach rustc\<close>

lemma validate_rustflag_values_Ok:
  "validate_rustflag_values vs = Ok () \<longleftrightarrow> list_all (\<lambda>v. v \<noteq> [] \<and> RUSTFLAG_SEPARATOR \<notin> set v) vs"
  by (induction vs) (auto simp: outcome_simps validate_rustflag_value_def)

definition remap_text :: "path_remap \<Rightarrow> u8 list" where
  "remap_text r = bytes_of ''--remap-path-prefix='' @ path_bytes (pr_source r) @ bytes_of ''='' @ pr_destination r"

lemma remap_arguments_Ok: "remap_arguments rs = Ok texts \<Longrightarrow> texts = map remap_text rs"
  by (induction rs arbitrary: texts rule: remap_arguments.induct)
    (auto simp: outcome_simps path_to_str_def remap_text_def split: if_splits)

lemma join_split_flags:
  assumes "validate_rustflag_values vs = Ok ()" and "vs \<noteq> []"
  shows "split_bytes RUSTFLAG_SEPARATOR (join_bytes RUSTFLAG_SEPARATOR vs) = vs"
  using assms by (intro split_bytes_join) (auto simp: validate_rustflag_values_Ok list_all_iff)

text \<open>
  C37: the encoded compiler flags are decoded to exactly the intended arguments.  Splitting the value
  of the environment variable at the separator gives the required flags of the artifact followed by
  the four remappings from the least to the most specific source, user home, Cargo home, workspace
  and target directory, and the four sources are distinct paths: no path or link argument can add
  or merge a flag.
\<close>

theorem rustflags_exact:
  "case build_path_contract_new workspace target hp of
     Ok contract \<Rightarrow>
       (case encoded_rustflags artifact contract of
          Ok flags \<Rightarrow> \<exists>required. artifact_rustc_arguments artifact = Ok required \<and>
            split_bytes RUSTFLAG_SEPARATOR flags = required @
              [bytes_of ''--remap-path-prefix='' @ path_bytes (hp_user_home hp) @ bytes_of ''='' @
                 USER_HOME_REMAP_DESTINATION,
               bytes_of ''--remap-path-prefix='' @ path_bytes (hp_cargo_home hp) @ bytes_of ''='' @
                 CARGO_HOME_REMAP_DESTINATION,
               bytes_of ''--remap-path-prefix='' @ path_bytes workspace @ bytes_of ''='' @
                 WORKSPACE_REMAP_DESTINATION,
               bytes_of ''--remap-path-prefix='' @ path_bytes target @ bytes_of ''='' @
                 TARGET_REMAP_DESTINATION] \<and>
            distinct [target, workspace, hp_cargo_home hp, hp_user_home hp]
        | _ \<Rightarrow> True)
   | _ \<Rightarrow> True"
proof (cases "build_path_contract_new workspace target hp")
  case (Ok contract)
  show ?thesis
  proof (cases "encoded_rustflags artifact contract")
    case flags: (Ok flags)
    then obtain required remaps where parts: "artifact_rustc_arguments artifact = Ok required"
      "remap_arguments (rev contract) = Ok remaps" "validate_rustflag_values (required @ remaps) = Ok ()"
      "flags = join_bytes RUSTFLAG_SEPARATOR (required @ remaps)"
      by (auto simp: encoded_rustflags_def outcome_simps)
    have remaps: "remaps = map remap_text (rev contract)" by (rule remap_arguments_Ok [OF parts(2)])
    then have "required @ remaps \<noteq> []" by (simp add: contract_shape(1) [OF Ok])
    then have "split_bytes RUSTFLAG_SEPARATOR flags = required @ remaps"
      unfolding parts(4) by (rule join_split_flags [OF parts(3)])
    then show ?thesis
      using Ok flags parts(1) contract_shape(2) [OF Ok]
      by (simp add: remaps contract_shape(1) [OF Ok] remap_text_def)
  qed (use Ok in simp_all)
qed simp_all

end
