(* ===== verification/Xtask_Harness.thy ===== *)
theory Xtask_Harness
  imports Reproducibility
begin

text \<open>
  The boot harness around the bounded execution (\<^verbatim>\<open>crates/xtask/src/qemu.rs\<close>): the command line of
  the emulator, the captured logs, the observation of a boot, the checks of its report, and the
  baselines of repeated boots with their statistics.  The host is the record \<open>harness_host\<close>; the
  emulator process is the environment of \<^verbatim>\<open>execute_bounded_qemu\<close>.
\<close>

section \<open>The command line\<close>

record qemu_invocation =
  qi_arguments :: "u8 list list"
  qi_sanitized_argv :: "u8 list list"

definition invocation_new :: "path \<Rightarrow> qemu_invocation" where
  "invocation_new qemu =
     \<lparr>qi_arguments = [],
      qi_sanitized_argv =
        [case path_file_name qemu of None \<Rightarrow> bytes_of ''<QEMU_EXECUTABLE>'' | Some name \<Rightarrow> utf8_lossy name]\<rparr>"

definition invocation_push :: "u8 list \<Rightarrow> u8 list \<Rightarrow> qemu_invocation \<Rightarrow> qemu_invocation" where
  "invocation_push argument sanitized invo =
     \<lparr>qi_arguments = qi_arguments invo @ [argument], qi_sanitized_argv = qi_sanitized_argv invo @ [sanitized]\<rparr>"

definition push_literal :: "string \<Rightarrow> qemu_invocation \<Rightarrow> qemu_invocation" where
  "push_literal argument invo = invocation_push (bytes_of argument) (bytes_of argument) invo"

definition qemu_option_path :: "path \<Rightarrow> u8 list" where
  "qemu_option_path p = concat (map (\<lambda>b. if b = 0x2C then [0x2C, 0x2C] else [b]) (utf8_lossy (path_bytes p)))"

definition path_display :: "path \<Rightarrow> u8 list" where
  "path_display p = utf8_lossy (path_bytes p)"

definition make_invocation ::
    "bool \<Rightarrow> path \<Rightarrow> path \<Rightarrow> path \<Rightarrow> path \<Rightarrow> path \<Rightarrow> path \<Rightarrow> bool \<Rightarrow> (message, qemu_invocation) outcome" where
  "make_invocation linux qemu ovmf_code ovmf_vars disk serial_log debug_log attach_debug_exit =
     (let invo = fold push_literal
            [''-machine'', ''q35,accel=tcg'', ''-cpu'', ''max'', ''-smp'', ''1'', ''-m'', ''256M'',
             ''-display'', ''none'', ''-monitor'', ''none'', ''-nic'', ''none'', ''-no-reboot'', ''-boot'',
             ''order=c,strict=on'', ''-snapshot'', ''-drive''] (invocation_new qemu);
          invo = invocation_push
            (bytes_of ''if=pflash,format=raw,unit=0,readonly=on,file='' @ qemu_option_path ovmf_code)
            (bytes_of ''if=pflash,format=raw,unit=0,readonly=on,file=<OVMF_CODE>'') invo;
          invo = push_literal ''-drive'' invo;
          invo = invocation_push (bytes_of ''if=pflash,format=raw,unit=1,file='' @ qemu_option_path ovmf_vars)
            (bytes_of ''if=pflash,format=raw,unit=1,file=<OVMF_VARS_MUTABLE>'') invo;
          invo = push_literal ''-drive'' invo;
          invo = invocation_push (bytes_of ''format=raw,if=virtio,readonly=on,file='' @ qemu_option_path disk)
            (bytes_of ''format=raw,if=virtio,readonly=on,file=<BOOT_IMAGE>'') invo;
          invo = push_literal ''-serial'' invo;
          invo = invocation_push (bytes_of ''file:'' @ path_display serial_log) (bytes_of ''file:<SERIAL_LOG>'') invo;
          invo = push_literal ''-debugcon'' invo;
          invo = invocation_push (bytes_of ''file:'' @ path_display debug_log) (bytes_of ''file:<DEBUGCON_LOG>'') invo;
          invo = fold push_literal [''-global'', ''isa-debugcon.iobase=0xe9''] invo;
          invo = (if attach_debug_exit
            then push_literal ''isa-debug-exit,iobase=0xf4,iosize=0x04'' (push_literal ''-device'' invo)
            else invo);
          invo = (if linux
            then push_literal
              ''on,obsolete=deny,elevateprivileges=deny,spawn=deny,resourcecontrol=deny''
              (push_literal ''-sandbox'' invo)
            else invo) in
      if length (qi_arguments invo) + 1 = length (qi_sanitized_argv invo) then Ok invo else Panic)"

section \<open>Logs\<close>

datatype log_file = LogMissing | LogUnreadable | LogContent "u8 list"

definition MAX_CAPTURED_LOG_BYTES :: nat where "MAX_CAPTURED_LOG_BYTES = 4 * 1024 * 1024"

definition read_log_bounded :: "log_file \<Rightarrow> (message, u8 list \<times> bool) outcome" where
  "read_log_bounded log =
     (case log of
        LogMissing \<Rightarrow> Ok ([], False)
      | LogUnreadable \<Rightarrow> Err ''failed to open log''
      | LogContent content \<Rightarrow>
          let bytes = take (MAX_CAPTURED_LOG_BYTES + 1) content;
              truncated = length bytes > MAX_CAPTURED_LOG_BYTES in
          Ok (if truncated then take MAX_CAPTURED_LOG_BYTES bytes else bytes, truncated))"

fun collect_logs_from :: "u8 list \<Rightarrow> log_file list \<Rightarrow> (message, u8 list) outcome" where
  "collect_logs_from combined [] = Ok combined"
| "collect_logs_from combined (log # rest) =
     and_then (read_log_bounded log) (\<lambda>(bytes, truncated).
     let combined = combined @ utf8_lossy bytes;
         combined = (if combined \<noteq> [] \<and> last combined \<noteq> 0x0A then combined @ [0x0A] else combined);
         combined = (if truncated
           then combined @ bytes_of ''[host: log truncated at 4194304 bytes]'' @ [0x0A] else combined) in
     collect_logs_from combined rest)"

definition collect_logs :: "log_file list \<Rightarrow> (message, u8 list) outcome" where
  "collect_logs logs = collect_logs_from [] logs"

section \<open>Tools and firmware\<close>

record firmware_paths =
  fp_code :: path
  fp_vars :: path
  fp_release :: "u8 list"

text \<open>
  \<open>hh_fetch\<close> is the download of the pinned firmware by the ovmf-prebuilt crate: the two files of it.
  \<open>hh_write\<close> and \<open>hh_create\<close> tell whether a file of the temporary directory could be written or
  created, \<open>hh_log\<close> is a log file when the emulator has ended, \<open>hh_os\<close> and \<open>hh_arch\<close> are the names of
  the host system.
\<close>

record harness_host =
  hh_repro :: repro_host
  hh_os :: "u8 list"
  hh_arch :: "u8 list"
  hh_temp_dir :: path
  hh_fetch :: "path \<Rightarrow> (path \<times> path) option"
  hh_write :: "path \<Rightarrow> u8 list \<Rightarrow> bool"
  hh_create :: "path \<Rightarrow> bool"
  hh_log :: "path \<Rightarrow> log_file"

definition OVMF_RELEASE :: "u8 list" where "OVMF_RELEASE = bytes_of ''edk2-stable202605-r1''"

definition require_file :: "harness_host \<Rightarrow> path \<Rightarrow> (message, path) outcome" where
  "require_file host p = (if rh_is_file (hh_repro host) p then Ok p else Err ''does not identify a file'')"

definition qemu_find_on_path :: "harness_host \<Rightarrow> string \<Rightarrow> path option" where
  "qemu_find_on_path host program =
     Option.bind (rh_search_path (hh_repro host)) (\<lambda>dirs.
       List.find (rh_is_file (hh_repro host)) (map (\<lambda>d. path_join d (bytes_of program)) dirs))"

definition qemu_candidates :: "path list" where
  "qemu_candidates = map (\<lambda>names. RootDir # map (\<lambda>n. NormalName (bytes_of n)) names)
     [[''opt'', ''homebrew'', ''bin'', ''qemu-system-x86_64''],
      [''usr'', ''local'', ''bin'', ''qemu-system-x86_64''], [''usr'', ''bin'', ''qemu-system-x86_64'']]"

definition resolve_qemu :: "harness_host \<Rightarrow> path option \<Rightarrow> (message, path) outcome" where
  "resolve_qemu host override_path =
     (case override_path of
        Some p \<Rightarrow> require_file host p
      | None \<Rightarrow>
          (case rh_var (hh_repro host) ''POLYTOPE_QEMU'' of
             Some p \<Rightarrow> require_file host p
           | None \<Rightarrow>
               (case qemu_find_on_path host ''qemu-system-x86_64'' of
                  Some p \<Rightarrow> Ok p
                | None \<Rightarrow>
                    ok_or (List.find (rh_is_file (hh_repro host)) qemu_candidates)
                      ''qemu-system-x86_64 is unavailable'')))"

definition resolve_firmware :: "harness_host \<Rightarrow> path \<Rightarrow> (message, firmware_paths) outcome" where
  "resolve_firmware host cache =
     (case (rh_var (hh_repro host) ''POLYTOPE_OVMF_CODE'', rh_var (hh_repro host) ''POLYTOPE_OVMF_VARS'') of
        (Some code, Some vars) \<Rightarrow>
          and_then (ensure (rh_is_file (hh_repro host) code) ''POLYTOPE_OVMF_CODE is not a file'') (\<lambda>_.
          and_then (ensure (rh_is_file (hh_repro host) vars) ''POLYTOPE_OVMF_VARS is not a file'') (\<lambda>_.
          Ok \<lparr>fp_code = code, fp_vars = vars, fp_release = bytes_of ''environment-override''\<rparr>))
      | (None, None) \<Rightarrow>
          and_then (ok_or (hh_fetch host cache) ''failed to fetch checksum-pinned OVMF'') (\<lambda>(code, vars).
          Ok \<lparr>fp_code = code, fp_vars = vars, fp_release = OVMF_RELEASE\<rparr>)
      | _ \<Rightarrow> Err ''POLYTOPE_OVMF_CODE and POLYTOPE_OVMF_VARS must be set together'')"

definition qemu_read_bounded :: "host_inputs \<Rightarrow> path \<Rightarrow> usize \<Rightarrow> (message, u8 list) outcome" where
  "qemu_read_bounded host p maximum =
     and_then (ok_or (hi_metadata host p) ''failed to inspect input'') (\<lambda>(is_file, len).
     and_then (ensure is_file ''not a regular file'') (\<lambda>_.
     and_then (or_panic (u64_try_from_usize maximum)) (\<lambda>bound.
     and_then (ensure (len \<le> bound) ''input is too large'') (\<lambda>_.
     ok_or (hi_read host p) ''failed to read input''))))"

definition qemu_version :: "harness_host \<Rightarrow> path \<Rightarrow> (message, u8 list) outcome" where
  "qemu_version host qemu =
     and_then (ok_or (rh_output (hh_repro host) qemu [bytes_of ''--version'']) ''failed to query version'')
       (\<lambda>(success, stdout).
     and_then (ensure success ''QEMU version command failed'') (\<lambda>_.
     Ok (case text_lines (utf8_lossy stdout) of
           [] \<Rightarrow> bytes_of ''unknown QEMU version'' | line # _ \<Rightarrow> line)))"

section \<open>One boot\<close>

record boot_request =
  br_image :: path
  br_scenario :: image_scenario
  br_timeout :: nat
  br_qemu :: "path option"
  br_ovmf_cache :: path

record boot_run =
  run_schema_version :: u32
  run_mode :: boot_mode
  run_scenario :: image_scenario
  run_classification :: boot_classification
  run_exit_status :: exit_status
  run_duration_ms :: nat
  run_timeout_ms :: nat
  run_time_to_ready_marker_ms :: "nat option"
  run_peak_rss_kib :: "nat option"
  run_image_sha256 :: string
  run_image_bytes :: u64
  run_ovmf_code_sha256 :: string
  run_ovmf_vars_sha256 :: string
  run_qemu_version :: "u8 list"
  run_ovmf_release :: "u8 list"
  run_qemu_argv :: "u8 list list"
  run_saw_ready_marker :: bool
  run_saw_reject_marker :: bool
  run_saw_panic_marker :: bool
  run_terminal_code :: "string option"
  run_diagnostic_protocol_error :: "string option"
  run_log :: "u8 list"

text \<open>What \<^verbatim>\<open>observe_boot\<close> has at hand when it starts the emulator.\<close>

record staged_boot =
  sb_disk :: "u8 list"
  sb_qemu_version :: "u8 list"
  sb_firmware :: firmware_paths
  sb_ovmf_code :: "u8 list"
  sb_ovmf_vars :: "u8 list"
  sb_temporary :: path
  sb_invocation :: qemu_invocation

definition stage_boot ::
    "('u, 'g, 'v, 'd) image_crates \<Rightarrow> harness_host \<Rightarrow> boot_request \<Rightarrow> boot_mode \<Rightarrow> (message, staged_boot) outcome" where
  "stage_boot ic host request mode =
     and_then (ensure (br_timeout request > 0) ''boot timeout must be positive'') (\<lambda>_.
     and_then (qemu_read_bounded (rh_inputs (hh_repro host)) (br_image request) DISK_BYTES) (\<lambda>disk.
     and_then (ensure (length disk = DISK_BYTES) ''boot image has a wrong size'') (\<lambda>_.
     and_then (validate_image_bytes ic disk) (\<lambda>manifest.
     and_then (ensure (im_scenario manifest = br_scenario request)
         ''requested scenario does not match image scenario'') (\<lambda>_.
     and_then (resolve_qemu host (br_qemu request)) (\<lambda>qemu.
     and_then (qemu_version host qemu) (\<lambda>version.
     and_then (resolve_firmware host (br_ovmf_cache request)) (\<lambda>fp.
     and_then (qemu_read_bounded (rh_inputs (hh_repro host)) (fp_code fp) (64 * 1024 * 1024)) (\<lambda>ovmf_code.
     and_then (qemu_read_bounded (rh_inputs (hh_repro host)) (fp_vars fp) (64 * 1024 * 1024)) (\<lambda>ovmf_vars.
     and_then (temporary_directory_create (hh_repro host) (hh_temp_dir host) (bytes_of ''qemu'')) (\<lambda>temporary.
     let file_in = (\<lambda>name. path_join temporary (bytes_of name)) in
     and_then (ensure (hh_write host (file_in ''validated-boot.img'') disk) ''failed to stage boot image'') (\<lambda>_.
     and_then (ensure (hh_write host (file_in ''validated-code.fd'') ovmf_code) ''failed to stage OVMF code'') (\<lambda>_.
     and_then (ensure (hh_write host (file_in ''vars.fd'') ovmf_vars) ''failed to create mutable OVMF vars'') (\<lambda>_.
     and_then (ensure (hh_create host (file_in ''stdout.log'')) ''failed to create QEMU stdout log'') (\<lambda>_.
     and_then (ensure (hh_create host (file_in ''stderr.log'')) ''failed to create QEMU stderr log'') (\<lambda>_.
     and_then (make_invocation (hh_os host = bytes_of ''linux'') qemu (file_in ''validated-code.fd'')
       (file_in ''vars.fd'') (file_in ''validated-boot.img'') (file_in ''serial.log'') (file_in ''debug.log'')
       (mode = Scenario)) (\<lambda>invocation.
     Ok \<lparr>sb_disk = disk, sb_qemu_version = version, sb_firmware = fp, sb_ovmf_code = ovmf_code,
         sb_ovmf_vars = ovmf_vars, sb_temporary = temporary, sb_invocation = invocation\<rparr>)))))))))))))))))"

text \<open>The evidence collected once the emulator has ended.\<close>

definition boot_evidence ::
    "('u, 'g, 'v, 'd) image_crates \<Rightarrow> harness_host \<Rightarrow> boot_request \<Rightarrow> boot_mode \<Rightarrow> staged_boot \<Rightarrow> qemu_execution
      \<Rightarrow> (message, boot_run) outcome" where
  "boot_evidence ic host request mode sb ex =
     (let log_of = (\<lambda>name. hh_log host (path_join (sb_temporary sb) (bytes_of name))) in
     and_then (read_log_bounded (log_of ''debug.log'')) (\<lambda>(debug_bytes, debug_truncated).
     and_then (parse_protocol_stream debug_bytes debug_truncated) (\<lambda>trace.
     and_then (collect_logs (map log_of [''serial.log'', ''debug.log'', ''stderr.log'', ''stdout.log''])) (\<lambda>log.
     and_then (ok_or (u64_try_from_usize (length (sb_disk sb))) ''disk image length does not fit u64'') (\<lambda>image_bytes.
     Ok \<lparr>run_schema_version = 2, run_mode = mode, run_scenario = br_scenario request,
         run_classification = classify_boot (ex_timed_out ex) (ex_exit_status ex) trace,
         run_exit_status = ex_exit_status ex, run_duration_ms = ex_duration_ms ex,
         run_timeout_ms = as_millis_u64 (br_timeout request),
         run_time_to_ready_marker_ms = ex_time_to_ready_marker_ms ex,
         run_peak_rss_kib = ex_peak_rss_kib ex, run_image_sha256 = sha256_hex ic (sb_disk sb),
         run_image_bytes = image_bytes, run_ovmf_code_sha256 = sha256_hex ic (sb_ovmf_code sb),
         run_ovmf_vars_sha256 = sha256_hex ic (sb_ovmf_vars sb), run_qemu_version = sb_qemu_version sb,
         run_ovmf_release = fp_release (sb_firmware sb),
         run_qemu_argv = qi_sanitized_argv (sb_invocation sb),
         run_saw_ready_marker = ev_ready (pt_markers trace),
         run_saw_reject_marker = ev_rejected (pt_markers trace),
         run_saw_panic_marker = ev_panic (pt_markers trace),
         run_terminal_code = ev_terminal_code (pt_markers trace),
         run_diagnostic_protocol_error = pt_violation trace, run_log = log\<rparr>)))))"

text \<open>\<open>None\<close> stands for an execution that has not ended within the fuel.\<close>

definition observe_boot ::
    "('u, 'g, 'v, 'd) image_crates \<Rightarrow> harness_host \<Rightarrow> nat \<Rightarrow> qemu_env \<Rightarrow> boot_request \<Rightarrow> boot_mode
      \<Rightarrow> (message, boot_run) outcome option" where
  "observe_boot ic host fuel env request mode =
     (case stage_boot ic host request mode of
        Panic \<Rightarrow> Some Panic
      | Err e \<Rightarrow> Some (Err e)
      | Ok sb \<Rightarrow>
          (case execute_bounded_qemu fuel env (br_timeout request) ''debug.log'' of
             None \<Rightarrow> None
           | Some (execution, _) \<Rightarrow>
               Some (and_then (map_err (\<lambda>_. ''execution failed'') execution)
                 (boot_evidence ic host request mode sb))))"

section \<open>The checks of a report\<close>

definition log_contains :: "u8 list \<Rightarrow> u8 list \<Rightarrow> bool" where
  "log_contains log marker \<longleftrightarrow> first_subslice log marker \<noteq> None"

definition validate_scenario_outcome :: "boot_run \<Rightarrow> (message, unit) outcome" where
  "validate_scenario_outcome run =
     (case run_scenario run of
        ImgNormal \<Rightarrow>
          ensure (run_classification run = ClassReady \<and> run_exit_status run = Some READY_EXIT_STATUS \<and>
              run_saw_ready_marker run \<and> \<not> run_saw_reject_marker run \<and> \<not> run_saw_panic_marker run \<and>
              run_time_to_ready_marker_ms run \<noteq> None \<and> run_terminal_code run = Some ''KERNEL_READY'' \<and>
              run_diagnostic_protocol_error run = None) ''normal boot failed''
      | ImgBadVersion \<Rightarrow>
          ensure (run_classification run = ClassRejected \<and> run_exit_status run = Some REJECT_EXIT_STATUS \<and>
              log_contains (run_log run) BAD_VERSION_MARKER \<and> \<not> log_contains (run_log run) TRUNCATED_MARKER \<and>
              \<not> run_saw_ready_marker run \<and> \<not> run_saw_panic_marker run \<and>
              run_time_to_ready_marker_ms run = None \<and> run_terminal_code run = Some ''ABI_VERSION'' \<and>
              run_diagnostic_protocol_error run = None)
            ''bad-version boot did not produce the exact rejection''
      | ImgTruncated \<Rightarrow>
          ensure (run_classification run = ClassRejected \<and> run_exit_status run = Some REJECT_EXIT_STATUS \<and>
              log_contains (run_log run) TRUNCATED_MARKER \<and> \<not> log_contains (run_log run) BAD_VERSION_MARKER \<and>
              \<not> run_saw_ready_marker run \<and> \<not> run_saw_panic_marker run \<and>
              run_time_to_ready_marker_ms run = None \<and> run_terminal_code run = Some ''CONTRACT_LENGTH'' \<and>
              run_diagnostic_protocol_error run = None)
            ''truncated boot did not produce the exact rejection''
      | ImgPanic \<Rightarrow>
          ensure (run_classification run = ClassPanic \<and> run_exit_status run = Some PANIC_EXIT_STATUS \<and>
              \<not> run_saw_ready_marker run \<and> \<not> run_saw_reject_marker run \<and>
              run_time_to_ready_marker_ms run = None \<and> run_terminal_code run = Some ''KERNEL_PANIC'' \<and>
              run_diagnostic_protocol_error run = None)
            ''panic scenario did not terminate through the panic path'')"

definition validate_boot_outcome :: "boot_run \<Rightarrow> (message, unit) outcome" where
  "validate_boot_outcome run =
     and_then (ensure (run_mode run = Scenario) ''scenario validation received a timeout-probe report'') (\<lambda>_.
     validate_scenario_outcome run)"

definition validate_timeout_probe :: "boot_run \<Rightarrow> (message, unit) outcome" where
  "validate_timeout_probe run =
     ensure (run_mode run = TimeoutProbe \<and> run_classification run = ClassTimeout \<and>
       run_duration_ms run \<ge> run_timeout_ms run) ''timeout probe failed''"

definition run_boot ::
    "('u, 'g, 'v, 'd) image_crates \<Rightarrow> harness_host \<Rightarrow> nat \<Rightarrow> qemu_env \<Rightarrow> boot_request
      \<Rightarrow> (message, boot_run) outcome option" where
  "run_boot ic host fuel env request =
     map_option (\<lambda>r. and_then r (\<lambda>run. and_then (validate_boot_outcome run) (\<lambda>_. Ok run)))
       (observe_boot ic host fuel env request Scenario)"

section \<open>Repeated boots\<close>

text \<open>
  The operations of \<^verbatim>\<open>f64\<close> that the statistics use; nothing is assumed of them.  The measurements are
  \<^verbatim>\<open>u64\<close> values.
\<close>

record 'f f64_ops =
  f_of_u32 :: "u32 \<Rightarrow> 'f"
  f_two_to_32 :: 'f
  f_zero :: 'f
  f_mul_add :: "'f \<Rightarrow> 'f \<Rightarrow> 'f \<Rightarrow> 'f"
  f_midpoint :: "'f \<Rightarrow> 'f \<Rightarrow> 'f"
  f_add :: "'f \<Rightarrow> 'f \<Rightarrow> 'f"
  f_sub :: "'f \<Rightarrow> 'f \<Rightarrow> 'f"
  f_mul :: "'f \<Rightarrow> 'f \<Rightarrow> 'f"
  f_div :: "'f \<Rightarrow> 'f \<Rightarrow> 'f"
  f_sqrt :: "'f \<Rightarrow> 'f"

record 'f sample_stats =
  ss_min :: nat
  ss_median :: 'f
  ss_p95 :: nat
  ss_max :: nat
  ss_mean :: 'f
  ss_population_stddev :: 'f

definition u64_to_f64 :: "'f f64_ops \<Rightarrow> nat \<Rightarrow> 'f" where
  "u64_to_f64 fo v =
     (let bytes = to_le_bytes (of_nat v :: u64);
          low = from_le_bytes (take 4 bytes) :: u32;
          high = from_le_bytes (drop 4 bytes) :: u32 in
      f_mul_add fo (f_of_u32 fo high) (f_two_to_32 fo) (f_of_u32 fo low))"

definition usize_sub :: "usize \<Rightarrow> usize \<Rightarrow> ('e, usize) outcome" where
  "usize_sub a b = (if b \<le> a then Ok (a - b) else Panic)"

definition median_of :: "'f f64_ops \<Rightarrow> nat list \<Rightarrow> (message, 'f) outcome" where
  "median_of fo xs =
     (let middle = length xs div 2 in
      if length xs mod 2 = 0 then
        and_then (usize_sub middle 1) (\<lambda>i.
        and_then (index_at xs i) (\<lambda>a.
        and_then (index_at xs middle) (\<lambda>b.
        Ok (f_midpoint fo (u64_to_f64 fo a) (u64_to_f64 fo b)))))
      else and_then (index_at xs middle) (\<lambda>a. Ok (u64_to_f64 fo a)))"

definition f64_sum :: "'f f64_ops \<Rightarrow> 'f list \<Rightarrow> 'f" where
  "f64_sum fo vs = foldl (f_add fo) (f_zero fo) vs"

definition p95_index :: "usize \<Rightarrow> usize" where
  "p95_index len =
     (let scaled = min (len * 95) (2 ^ 64 - 1) in
      (scaled div 100 + (if scaled mod 100 > 0 then 1 else 0)) - 1)"

definition sample_statistics :: "'f f64_ops \<Rightarrow> nat list \<Rightarrow> (message, 'f sample_stats option) outcome" where
  "sample_statistics fo samples =
     (if samples = [] then Ok None
      else
        let xs = sort samples in
        and_then (median_of fo xs) (\<lambda>median.
        case u32_try_from_usize (length xs) of
          None \<Rightarrow> Ok None
        | Some n \<Rightarrow>
            let count = f_of_u32 fo n;
                mean = f_div fo (f64_sum fo (map (u64_to_f64 fo) xs)) count;
                population_variance = f_div fo (f64_sum fo
                  (map (\<lambda>v. let d = f_sub fo (u64_to_f64 fo v) mean in f_mul fo d d) xs)) count in
            and_then (index_at xs 0) (\<lambda>lowest.
            and_then (index_at xs (p95_index (length xs))) (\<lambda>p95.
            and_then (usize_sub (length xs) 1) (\<lambda>i.
            and_then (index_at xs i) (\<lambda>highest.
            Ok (Some \<lparr>ss_min = lowest, ss_median = median, ss_p95 = p95, ss_max = highest, ss_mean = mean,
                 ss_population_stddev = f_sqrt fo population_variance\<rparr>)))))))"

text \<open>The closure of \<^verbatim>\<open>write_json_atomic\<close>; \<open>serialized\<close> is what serde made of the value.\<close>

definition write_json_steps ::
    "io_faults \<Rightarrow> path \<Rightarrow> path \<Rightarrow> u8 list \<Rightarrow> host_files \<Rightarrow> (message, unit) outcome \<times> host_files" where
  "write_json_steps io temporary output bytes fs =
     (case create_new_file io temporary fs of
        (False, fs) \<Rightarrow> (Err ''failed to create temporary'', fs)
      | (True, fs) \<Rightarrow>
          (case write_all_file io temporary bytes fs of
             (False, fs) \<Rightarrow> (Err ''failed to write temporary'', fs)
           | (True, fs) \<Rightarrow>
               if io_sync_all io then (Err ''failed to sync temporary'', fs)
               else
                 (case rename_file io temporary output fs of
                    (False, fs) \<Rightarrow> (Err ''failed to move baseline'', fs)
                  | (True, fs) \<Rightarrow>
                      (and_then (ensure (\<not> io_open_dir io) ''failed to open output directory'') (\<lambda>_.
                       ensure (\<not> io_sync_dir io) ''failed to sync output directory''), fs))))"

definition write_json_atomic ::
    "nat \<Rightarrow> io_faults \<Rightarrow> path \<Rightarrow> u8 list option \<Rightarrow> host_files \<Rightarrow> (message, unit) outcome \<times> host_files" where
  "write_json_atomic pid io output serialized fs =
     (let parent = output_parent output in
      if io_create_dir_all io then (Err ''failed to create parent'', fs)
      else
        (case path_file_name output of
           None \<Rightarrow> (Err ''baseline output must include a file name'', fs)
         | Some file_name \<Rightarrow>
             let temporary = path_join parent
               (bytes_of ''.'' @ utf8_lossy file_name @ bytes_of ''.tmp-'' @ decimal_digits pid) in
             (case serialized of
                None \<Rightarrow> (Err ''failed to serialize baseline'', fs)
              | Some bytes \<Rightarrow>
                  (case write_json_steps io temporary output bytes fs of
                     (Ok u, fs) \<Rightarrow> (Ok u, fs)
                   | (write_result, fs) \<Rightarrow> (write_result, remove_file io temporary fs)))))"

record baseline_request =
  bq_boot :: boot_request
  bq_runs :: usize
  bq_output :: path

record 'f baseline_report =
  bl_schema_version :: u32
  bl_runs :: usize
  bl_time_to_ready_marker_ms :: "'f sample_stats"
  bl_peak_rss_kib :: "'f sample_stats"
  bl_peak_rss_sample_count :: usize
  bl_host_os :: "u8 list"
  bl_host_arch :: "u8 list"
  bl_ovmf_release :: "u8 list"
  bl_samples :: "boot_run list"

text \<open>\<open>n\<close> boots numbered from \<open>i\<close>, stopping at the first that fails; \<open>None\<close> if one of them does not end.\<close>

fun baseline_samples ::
    "(nat \<Rightarrow> (message, boot_run) outcome option) \<Rightarrow> nat \<Rightarrow> nat \<Rightarrow> (message, boot_run list) outcome option" where
  "baseline_samples boot i 0 = Some (Ok [])"
| "baseline_samples boot i (Suc n) =
     (case boot i of
        None \<Rightarrow> None
      | Some Panic \<Rightarrow> Some Panic
      | Some (Err e) \<Rightarrow> Some (Err e)
      | Some (Ok run) \<Rightarrow>
          map_option (\<lambda>rest. and_then rest (\<lambda>runs. Ok (run # runs))) (baseline_samples boot (Suc i) n))"

fun collect_values :: "message \<Rightarrow> 'a option list \<Rightarrow> (message, 'a list) outcome" where
  "collect_values missing [] = Ok []"
| "collect_values missing (v # rest) =
     and_then (ok_or v missing) (\<lambda>x. and_then (collect_values missing rest) (\<lambda>xs. Ok (x # xs)))"

definition same_identity :: "boot_run \<Rightarrow> boot_run \<Rightarrow> bool" where
  "same_identity sample first \<longleftrightarrow>
     run_mode sample = run_mode first \<and> run_scenario sample = run_scenario first \<and>
     run_timeout_ms sample = run_timeout_ms first \<and> run_image_sha256 sample = run_image_sha256 first \<and>
     run_image_bytes sample = run_image_bytes first \<and>
     run_ovmf_code_sha256 sample = run_ovmf_code_sha256 first \<and>
     run_ovmf_vars_sha256 sample = run_ovmf_vars_sha256 first \<and>
     run_qemu_version sample = run_qemu_version first \<and> run_ovmf_release sample = run_ovmf_release first \<and>
     run_qemu_argv sample = run_qemu_argv first"

fun check_identity :: "boot_run \<Rightarrow> boot_run list \<Rightarrow> (message, unit) outcome" where
  "check_identity first [] = Ok ()"
| "check_identity first (sample # rest) =
     and_then (ensure (same_identity sample first) ''baseline run does not share the execution identity'')
       (\<lambda>_. check_identity first rest)"

definition baseline_report_of ::
    "'f f64_ops \<Rightarrow> u8 list \<Rightarrow> u8 list \<Rightarrow> boot_run list \<Rightarrow> (message, 'f baseline_report) outcome" where
  "baseline_report_of fo os arch samples =
     and_then (collect_values ''a validated normal boot did not retain its observation time''
         (map run_time_to_ready_marker_ms samples)) (\<lambda>marker_times.
     and_then (collect_values ''baseline run has no peak-RSS sample'' (map run_peak_rss_kib samples))
       (\<lambda>peak_rss_samples.
     case samples of
       [] \<Rightarrow> Err ''the baseline unexpectedly has no samples''
     | first # others \<Rightarrow>
         and_then (check_identity first others) (\<lambda>_.
         and_then (sample_statistics fo marker_times) (\<lambda>times.
         and_then (ok_or times ''the non-empty baseline unexpectedly has no marker-time samples'') (\<lambda>times.
         and_then (sample_statistics fo peak_rss_samples) (\<lambda>rss.
         and_then (ok_or rss ''the non-empty baseline unexpectedly has no RSS samples'') (\<lambda>rss.
         Ok \<lparr>bl_schema_version = 2, bl_runs = length samples, bl_time_to_ready_marker_ms = times,
             bl_peak_rss_kib = rss, bl_peak_rss_sample_count = length peak_rss_samples,
             bl_host_os = os, bl_host_arch = arch, bl_ovmf_release = run_ovmf_release first,
             bl_samples = samples\<rparr>)))))))"

text \<open>
  \<open>host i\<close>, \<open>env i\<close> are what the \<open>i\<close>-th boot meets; \<open>to_json\<close> is serde's pretty printer.
\<close>

definition baseline_gather ::
    "('u, 'g, 'v, 'd) image_crates \<Rightarrow> 'f f64_ops \<Rightarrow> (nat \<Rightarrow> harness_host) \<Rightarrow> nat \<Rightarrow> (nat \<Rightarrow> qemu_env) \<Rightarrow> baseline_request
      \<Rightarrow> (message, 'f baseline_report) outcome option" where
  "baseline_gather ic fo host fuel env request =
     (if \<not> bq_runs request > 0 then Some (Err ''baseline requires at least one run'')
      else if \<not> bq_runs request \<le> 100 then Some (Err ''baseline run count is capped at 100'')
      else if br_scenario (bq_boot request) \<noteq> ImgNormal
        then Some (Err ''boot-time baselines require the normal scenario'')
      else
        map_option (\<lambda>r. and_then r (\<lambda>samples. baseline_report_of fo (hh_os (host 0)) (hh_arch (host 0)) samples))
          (baseline_samples (\<lambda>i. run_boot ic (host i) fuel (env i) (bq_boot request)) 0 (bq_runs request)))"

definition run_baseline ::
    "('u, 'g, 'v, 'd) image_crates \<Rightarrow> 'f f64_ops \<Rightarrow> ('f baseline_report \<Rightarrow> u8 list option) \<Rightarrow> (nat \<Rightarrow> harness_host)
      \<Rightarrow> nat \<Rightarrow> (nat \<Rightarrow> qemu_env) \<Rightarrow> nat \<Rightarrow> io_faults \<Rightarrow> baseline_request \<Rightarrow> host_files
      \<Rightarrow> ((message, 'f baseline_report) outcome \<times> host_files) option" where
  "run_baseline ic fo to_json host fuel env pid io request fs =
     (case baseline_gather ic fo host fuel env request of
        None \<Rightarrow> None
      | Some Panic \<Rightarrow> Some (Panic, fs)
      | Some (Err e) \<Rightarrow> Some (Err e, fs)
      | Some (Ok report) \<Rightarrow>
          (case write_json_atomic pid io (bq_output request) (to_json report) fs of
             (r, fs) \<Rightarrow> Some (and_then r (\<lambda>_. Ok report), fs)))"

section \<open>The evidence of a boot\<close>

text \<open>The reported command line: labels stand for every host path but the name of the program.\<close>

definition executable_label :: "path \<Rightarrow> u8 list" where
  "executable_label qemu =
     (case path_file_name qemu of None \<Rightarrow> bytes_of ''<QEMU_EXECUTABLE>'' | Some name \<Rightarrow> utf8_lossy name)"

definition sanitized_arguments :: "bool \<Rightarrow> bool \<Rightarrow> u8 list list" where
  "sanitized_arguments linux attach_debug_exit = map bytes_of
     ([''-machine'', ''q35,accel=tcg'', ''-cpu'', ''max'', ''-smp'', ''1'', ''-m'', ''256M'', ''-display'', ''none'',
       ''-monitor'', ''none'', ''-nic'', ''none'', ''-no-reboot'', ''-boot'', ''order=c,strict=on'', ''-snapshot'',
       ''-drive'', ''if=pflash,format=raw,unit=0,readonly=on,file=<OVMF_CODE>'',
       ''-drive'', ''if=pflash,format=raw,unit=1,file=<OVMF_VARS_MUTABLE>'',
       ''-drive'', ''format=raw,if=virtio,readonly=on,file=<BOOT_IMAGE>'',
       ''-serial'', ''file:<SERIAL_LOG>'', ''-debugcon'', ''file:<DEBUGCON_LOG>'',
       ''-global'', ''isa-debugcon.iobase=0xe9''] @
      (if attach_debug_exit then [''-device'', ''isa-debug-exit,iobase=0xf4,iosize=0x04''] else []) @
      (if linux then [''-sandbox'', ''on,obsolete=deny,elevateprivileges=deny,spawn=deny,resourcecontrol=deny'']
       else []))"

lemmas invocation_defs = invocation_new_def invocation_push_def push_literal_def

lemma fold_push_literal:
  "fold push_literal args invo =
    \<lparr>qi_arguments = qi_arguments invo @ map bytes_of args, qi_sanitized_argv = qi_sanitized_argv invo @ map bytes_of args\<rparr>"
  by (induction args arbitrary: invo) (simp_all add: push_literal_def invocation_push_def)

lemma make_invocation_sanitized:
  "\<exists>invo. make_invocation linux qemu code vars disk serial_log debug_log attach = Ok invo \<and>
    qi_sanitized_argv invo = executable_label qemu # sanitized_arguments linux attach"
  unfolding make_invocation_def Let_def fold_push_literal sanitized_arguments_def map_append
  by (cases attach; cases linux) (simp_all add: invocation_defs executable_label_def)

lemma qemu_read_bounded_Ok: "qemu_read_bounded host p maximum = Ok bytes \<Longrightarrow> hi_read host p = Some bytes"
  by (auto simp: qemu_read_bounded_def outcome_simps)

lemma stage_boot_Ok:
  assumes "stage_boot ic host request mode = Ok sb"
  obtains manifest qemu where "hi_read (rh_inputs (hh_repro host)) (br_image request) = Some (sb_disk sb)"
    "validate_image_bytes ic (sb_disk sb) = Ok manifest" "im_scenario manifest = br_scenario request"
    "resolve_qemu host (br_qemu request) = Ok qemu"
    "qi_sanitized_argv (sb_invocation sb) =
      executable_label qemu # sanitized_arguments (hh_os host = bytes_of ''linux'') (mode = Scenario)"
proof -
  obtain disk manifest qemu t invo where facts:
    "qemu_read_bounded (rh_inputs (hh_repro host)) (br_image request) DISK_BYTES = Ok disk"
    "validate_image_bytes ic disk = Ok manifest" "im_scenario manifest = br_scenario request"
    "resolve_qemu host (br_qemu request) = Ok qemu"
    "make_invocation (hh_os host = bytes_of ''linux'') qemu (path_join t (bytes_of ''validated-code.fd''))
      (path_join t (bytes_of ''vars.fd'')) (path_join t (bytes_of ''validated-boot.img''))
      (path_join t (bytes_of ''serial.log'')) (path_join t (bytes_of ''debug.log'')) (mode = Scenario) = Ok invo"
    "sb_disk sb = disk" "sb_invocation sb = invo"
    using assms by (auto simp: stage_boot_def Let_def outcome_simps)
  then show thesis
    using that [of manifest qemu] make_invocation_sanitized qemu_read_bounded_Ok [OF facts(1)]
    by (metis outcome.inject(2))
qed

lemma boot_evidence_Ok:
  assumes "boot_evidence ic host request mode sb ex = Ok run"
  obtains bytes log_truncated trace where
    "read_log_bounded (hh_log host (path_join (sb_temporary sb) (bytes_of ''debug.log''))) = Ok (bytes, log_truncated)"
    "parse_protocol_stream bytes log_truncated = (Ok trace :: (message, protocol_trace) outcome)"
    "run_mode run = mode" "run_scenario run = br_scenario request"
    "run_classification run = classify_boot (ex_timed_out ex) (ex_exit_status ex) trace"
    "run_terminal_code run = ev_terminal_code (pt_markers trace)"
    "run_image_sha256 run = sha256_hex ic (sb_disk sb)"
    "run_qemu_argv run = qi_sanitized_argv (sb_invocation sb)"
    "run_time_to_ready_marker_ms run = ex_time_to_ready_marker_ms ex"
  using assms by (auto simp: boot_evidence_def Let_def outcome_simps)

fun expected_record :: "image_scenario \<Rightarrow> u8 list" where
  "expected_record ImgNormal = READY_MARKER"
| "expected_record ImgBadVersion = BAD_VERSION_MARKER"
| "expected_record ImgTruncated = TRUNCATED_MARKER"
| "expected_record ImgPanic = PANIC_MARKER"

fun expected_status :: "image_scenario \<Rightarrow> int" where
  "expected_status ImgNormal = 33"
| "expected_status ImgBadVersion = 65"
| "expected_status ImgTruncated = 65"
| "expected_status ImgPanic = 67"

lemma read_log_complete:
  assumes "read_log_bounded log = Ok (bytes, False)" and "bytes \<noteq> []"
  shows "log = LogContent bytes"
  using assms by (auto simp: read_log_bounded_def Let_def split: log_file.splits if_splits)

lemma scenario_verdict:
  assumes parse: "parse_protocol_stream bytes log_truncated = (Ok trace :: (message, protocol_trace) outcome)"
    and cls: "run_classification run = classify_boot timed_out status trace"
    and code: "run_terminal_code run = ev_terminal_code (pt_markers trace)"
    and valid: "validate_scenario_outcome run = Ok ()"
  shows "\<not> timed_out" "clean_stream bytes log_truncated" "status = Some (expected_status (run_scenario run))"
    "stream_records bytes = loader_run @ [expected_record (run_scenario run)]"
proof -
  have "classify_boot timed_out status trace \<in> {ClassReady, ClassRejected, ClassPanic}"
    using valid cls by (auto simp: validate_scenario_outcome_def outcome_simps split: image_scenario.splits)
  then show time: "\<not> timed_out" by (auto simp: classify_boot_def)
  have markers: "pt_markers trace = verdict_evidence (stream_records bytes)" if "clean_stream bytes log_truncated"
    using parse_protocol_stream_verdict [where 'a = message, of bytes log_truncated] that unfolding parse by auto
  note iffs = boot_class_cases [where 'a = message, of bytes log_truncated status, unfolded parse]
  have "clean_stream bytes log_truncated \<and> status = Some (expected_status (run_scenario run)) \<and>
      stream_records bytes = loader_run @ [expected_record (run_scenario run)]"
  proof (cases "run_scenario run")
    case ImgNormal
    then show ?thesis
      using valid cls iffs time by (auto simp: validate_scenario_outcome_def outcome_simps)
  next
    case ImgPanic
    then show ?thesis
      using valid cls iffs time by (auto simp: validate_scenario_outcome_def outcome_simps)
  next
    case ImgBadVersion
    then show ?thesis
      using valid cls iffs time code markers
      by (auto simp: validate_scenario_outcome_def outcome_simps verdict_evidence_verdict)
  next
    case ImgTruncated
    then show ?thesis
      using valid cls iffs time code markers
      by (auto simp: validate_scenario_outcome_def outcome_simps verdict_evidence_verdict)
  qed
  then show "clean_stream bytes log_truncated" "status = Some (expected_status (run_scenario run))"
    "stream_records bytes = loader_run @ [expected_record (run_scenario run)]" by blast+
qed

lemma observe_boot_Ok:
  assumes "observe_boot ic host fuel env request mode = Some (Ok run)"
  obtains sb ex children where "stage_boot ic host request mode = Ok sb"
    "execute_bounded_qemu fuel env (br_timeout request) ''debug.log'' = Some (Ok ex, children)"
    "boot_evidence ic host request mode sb ex = Ok run"
  using assms
  by (auto simp: observe_boot_def outcome_simps split: outcome.splits option.splits)

text \<open>What is known of a boot whose report passed the checks of its scenario.\<close>

definition scenario_evidence ::
    "('u, 'g, 'v, 'd) image_crates \<Rightarrow> harness_host \<Rightarrow> nat \<Rightarrow> qemu_env \<Rightarrow> boot_request \<Rightarrow> boot_run \<Rightarrow> bool" where
  "scenario_evidence ic host fuel env request run \<longleftrightarrow>
     (\<exists>disk manifest qemu ex children temporary bytes.
        hi_read (rh_inputs (hh_repro host)) (br_image request) = Some disk \<and>
        validate_image_bytes ic disk = Ok manifest \<and> im_scenario manifest = br_scenario request \<and>
        run_image_sha256 run = sha256_hex ic disk \<and> run_scenario run = br_scenario request \<and>
        resolve_qemu host (br_qemu request) = Ok qemu \<and>
        run_qemu_argv run = executable_label qemu # sanitized_arguments (hh_os host = bytes_of ''linux'') True \<and>
        execute_bounded_qemu fuel env (br_timeout request) ''debug.log'' = Some (Ok ex, children) \<and>
        \<not> ex_timed_out ex \<and> ex_exit_status ex = Some (expected_status (br_scenario request)) \<and>
        hh_log host (path_join temporary (bytes_of ''debug.log'')) = LogContent bytes \<and>
        clean_stream bytes False \<and>
        stream_records bytes = loader_run @ [expected_record (br_scenario request)])"

lemma validated_boot_evidence:
  assumes "observe_boot ic host fuel env request Scenario = Some (Ok run)"
    and "validate_boot_outcome run = Ok ()"
  shows "scenario_evidence ic host fuel env request run"
proof -
  obtain sb ex children where sb: "stage_boot ic host request Scenario = Ok sb"
    and ex: "execute_bounded_qemu fuel env (br_timeout request) ''debug.log'' = Some (Ok ex, children)"
    and ev: "boot_evidence ic host request Scenario sb ex = Ok run"
    using assms(1) by (rule observe_boot_Ok)
  obtain manifest qemu where st: "hi_read (rh_inputs (hh_repro host)) (br_image request) = Some (sb_disk sb)"
    "validate_image_bytes ic (sb_disk sb) = Ok manifest" "im_scenario manifest = br_scenario request"
    "resolve_qemu host (br_qemu request) = Ok qemu"
    "qi_sanitized_argv (sb_invocation sb) =
      executable_label qemu # sanitized_arguments (hh_os host = bytes_of ''linux'') (Scenario = Scenario)"
    using sb by (rule stage_boot_Ok)
  obtain bytes log_truncated trace where
    log: "read_log_bounded (hh_log host (path_join (sb_temporary sb) (bytes_of ''debug.log''))) = Ok (bytes, log_truncated)"
    and parse: "parse_protocol_stream bytes log_truncated = (Ok trace :: (message, protocol_trace) outcome)"
    and run: "run_mode run = Scenario" "run_scenario run = br_scenario request"
      "run_classification run = classify_boot (ex_timed_out ex) (ex_exit_status ex) trace"
      "run_terminal_code run = ev_terminal_code (pt_markers trace)"
      "run_image_sha256 run = sha256_hex ic (sb_disk sb)"
      "run_qemu_argv run = qi_sanitized_argv (sb_invocation sb)"
    using ev by (rule boot_evidence_Ok)
  have "validate_scenario_outcome run = Ok ()"
    using assms(2) by (simp add: validate_boot_outcome_def outcome_simps)
  note verdict = scenario_verdict [OF parse run(3,4) this]
  have "bytes \<noteq> []" using verdict(4) by (auto simp: stream_records_def whole_lines_def)
  moreover have "\<not> log_truncated" using verdict(2) by (simp add: clean_stream_def)
  ultimately have "hh_log host (path_join (sb_temporary sb) (bytes_of ''debug.log'')) = LogContent bytes"
    using log by (auto intro: read_log_complete)
  then show ?thesis
    unfolding scenario_evidence_def
    using st ex run verdict \<open>\<not> log_truncated\<close> by (intro exI conjI) auto
qed

lemma run_boot_Ok:
  "run_boot ic host fuel env request = Some (Ok run) \<longleftrightarrow>
    observe_boot ic host fuel env request Scenario = Some (Ok run) \<and> validate_boot_outcome run = Ok ()"
  by (auto simp: run_boot_def outcome_simps)

text \<open>
  The verdict on a timeout probe depends on nothing but mode, class and duration: a guest that never
  wrote the ready marker passes like one that did.
\<close>

lemma timeout_probe_ignores_markers:
  "validate_timeout_probe (run\<lparr>run_saw_ready_marker := ready, run_time_to_ready_marker_ms := at_ms,
     run_exit_status := status, run_diagnostic_protocol_error := violation\<rparr>) = validate_timeout_probe run"
  by (simp add: validate_timeout_probe_def)

section \<open>Statistics\<close>

text \<open>
  The 95th percentile by nearest rank: at least 95 percent of the samples are at most that value, and
  fewer than 95 percent are below it.
\<close>

definition describes :: "'f sample_stats \<Rightarrow> nat list \<Rightarrow> bool" where
  "describes st xs \<longleftrightarrow> ss_min st = Min (set xs) \<and> ss_max st = Max (set xs) \<and> ss_p95 st \<in> set xs \<and>
     95 * length xs \<le> 100 * length (filter (\<lambda>x. x \<le> ss_p95 st) xs) \<and>
     100 * length (filter (\<lambda>x. x < ss_p95 st) xs) < 95 * length xs"

lemma length_filter_sort: "length (filter P (sort xs)) = length (filter P xs)"
  by (simp add: filter_sort)

lemma sorted_at_most:
  assumes "sorted xs" and "k < length xs"
  shows "Suc k \<le> length (filter (\<lambda>x. x \<le> xs ! k) xs)"
proof -
  have "filter (\<lambda>x. x \<le> xs ! k) (take (Suc k) xs) = take (Suc k) xs"
    using assms by (auto simp: filter_id_conv in_set_conv_nth intro!: sorted_nth_mono)
  then have "length (filter (\<lambda>x. x \<le> xs ! k) (take (Suc k) xs)) = Suc k" using assms(2) by simp
  then show ?thesis
    by (metis append_take_drop_id filter_append le_add1 length_append)
qed

lemma sorted_below:
  assumes "sorted xs" and "k < length xs"
  shows "length (filter (\<lambda>x. x < xs ! k) xs) \<le> k"
proof -
  have "filter (\<lambda>x. x < xs ! k) (drop k xs) = []"
    using assms by (auto simp: filter_empty_conv in_set_conv_nth not_less intro!: sorted_nth_mono)
  then have "filter (\<lambda>x. x < xs ! k) xs = filter (\<lambda>x. x < xs ! k) (take k xs)"
    by (metis append_Nil2 append_take_drop_id filter_append)
  then show ?thesis by (metis length_filter_le length_take min.bounded_iff)
qed

lemma sorted_ends:
  fixes xs :: "nat list"
  assumes "sorted xs" and "0 < length xs"
  shows "xs ! 0 = Min (set xs)" "xs ! (length xs - 1) = Max (set xs)"
proof -
  have "xs ! 0 \<le> y" "y \<le> xs ! (length xs - 1)" if "y \<in> set xs" for y
    using that assms by (auto simp: in_set_conv_nth intro!: sorted_nth_mono)
  then show "xs ! 0 = Min (set xs)" "xs ! (length xs - 1) = Max (set xs)"
    using assms(2) by (auto intro!: Min_eqI [symmetric] Max_eqI [symmetric] nth_mem)
qed

lemma p95_index_rank:
  assumes "0 < n" and "n < 2 ^ 32"
  shows "p95_index n < n" "95 * n \<le> 100 * Suc (p95_index n)" "100 * p95_index n < 95 * n"
proof -
  have "n * 95 < 2 ^ 64 - 1" using assms(2) by simp
  then have "min (n * 95) (2 ^ 64 - 1) = n * 95" by (rule min.absorb1 [OF less_imp_le])
  then have p: "p95_index n = (n * 95 div 100 + (if n * 95 mod 100 > 0 then 1 else 0)) - 1"
    unfolding p95_index_def Let_def by (simp only:)
  obtain q r where qr: "n * 95 div 100 = q" "n * 95 mod 100 = r" by blast
  then have m: "n * 95 = 100 * q + r" "r < 100" using mult_div_mod_eq [of 100 "n * 95"] by simp_all
  have "p95_index n = (if 0 < r then q else q - 1)" unfolding p qr by simp
  then show "p95_index n < n" "95 * n \<le> 100 * Suc (p95_index n)" "100 * p95_index n < 95 * n"
    using m assms(1) by (cases "0 < r"; simp; linarith)+
qed

lemma sample_statistics_describes:
  assumes "sample_statistics fo samples = Ok (Some st)"
  shows "describes st samples"
proof -
  let ?xs = "sort samples"
  have ne: "samples \<noteq> []" using assms by (auto simp: sample_statistics_def)
  then have n: "0 < length samples" "length samples < 2 ^ 32"
    and st: "ss_min st = ?xs ! 0" "ss_p95 st = ?xs ! p95_index (length samples)"
      "ss_max st = ?xs ! (length samples - 1)"
    using assms
    by (auto simp: sample_statistics_def Let_def outcome_simps u32_try_from_usize_def index_at_def usize_sub_def
        split: option.splits if_splits)
  note rank = p95_index_rank [OF n]
  have "ss_min st = Min (set samples)" "ss_max st = Max (set samples)"
    using sorted_ends [OF sorted_sort, of samples] n(1) by (simp_all add: st length_greater_0_conv)
  moreover have "ss_p95 st \<in> set samples"
    using rank(1) nth_mem [of "p95_index (length samples)" ?xs] by (simp add: st(2))
  moreover have "95 * length samples \<le> 100 * length (filter (\<lambda>x. x \<le> ss_p95 st) samples)"
    using rank sorted_at_most [of ?xs "p95_index (length samples)"] by (simp add: st(2) length_filter_sort)
  moreover have "100 * length (filter (\<lambda>x. x < ss_p95 st) samples) < 95 * length samples"
    using rank sorted_below [of ?xs "p95_index (length samples)"] by (simp add: st(2) length_filter_sort)
  ultimately show ?thesis by (simp add: describes_def)
qed

section \<open>Baselines\<close>

interpretation json: replacing_writer "\<lambda>io target bytes. write_json_atomic pid io target (Some bytes)"
  "atomic_temporary pid" for pid
proof -
  have "(\<lambda>io target bytes. write_json_atomic pid io target (Some bytes)) =
      stage_writer ''failed to create temporary'' ''failed to write temporary'' ''failed to sync temporary''
        ''failed to move baseline'' ''failed to open output directory'' ''failed to sync output directory''
        ''failed to create parent'' ''baseline output must include a file name''
        (bytes_of ''.tmp-'' @ decimal_digits pid)"
    by (intro ext) (simp only: write_json_atomic_def write_json_steps_def stage_writer_def stage_steps_def
        Let_def option.case)
  then show "replacing_writer (\<lambda>io target bytes. write_json_atomic pid io target (Some bytes)) (atomic_temporary pid)"
    by (simp only: atomic_temporary_def stage_writer_replaces)
qed

lemma baseline_samples_Ok:
  "baseline_samples boot i n = Some (Ok runs) \<Longrightarrow>
    length runs = n \<and> (\<forall>k < n. boot (i + k) = Some (Ok (runs ! k)))"
proof (induction boot i n arbitrary: runs rule: baseline_samples.induct)
  case (2 boot i n)
  then obtain run rest where first: "boot i = Some (Ok run)"
    and rest: "baseline_samples boot (Suc i) n = Some (Ok rest)" and runs: "runs = run # rest"
    by (auto simp: outcome_simps split: option.splits outcome.splits)
  show ?case
    using 2(1) [OF first refl rest] first by (auto simp: runs nth_Cons split: nat.splits)
qed simp

lemma collect_values_Ok: "collect_values missing vs = Ok xs \<Longrightarrow> vs = map Some xs"
  by (induction vs arbitrary: xs) (auto simp: outcome_simps)

lemma check_identity_Ok: "check_identity first rest = Ok () \<longleftrightarrow> list_all (\<lambda>s. same_identity s first) rest"
  by (induction rest) (auto simp: outcome_simps)

lemma baseline_report_of_Ok:
  assumes "baseline_report_of fo os arch samples = Ok report"
  obtains times rss where "bl_samples report = samples" "map run_time_to_ready_marker_ms samples = map Some times"
    "map run_peak_rss_kib samples = map Some rss" "describes (bl_time_to_ready_marker_ms report) times"
    "describes (bl_peak_rss_kib report) rss" "list_all (\<lambda>s. same_identity s (hd samples)) samples"
    "bl_runs report = length samples" "bl_peak_rss_sample_count report = length rss"
proof -
  obtain times rss first others where r: "samples = first # others"
    "collect_values ''a validated normal boot did not retain its observation time''
      (map run_time_to_ready_marker_ms samples) = Ok times"
    "collect_values ''baseline run has no peak-RSS sample'' (map run_peak_rss_kib samples) = Ok rss"
    "check_identity first others = Ok ()"
    "sample_statistics fo times = Ok (Some (bl_time_to_ready_marker_ms report))"
    "sample_statistics fo rss = Ok (Some (bl_peak_rss_kib report))"
    "bl_samples report = samples" "bl_runs report = length samples" "bl_peak_rss_sample_count report = length rss"
    using assms by (cases samples) (auto simp: baseline_report_of_def outcome_simps)
  show thesis
    using that [of times rss] r(7-9) collect_values_Ok [OF r(2)] collect_values_Ok [OF r(3)]
      sample_statistics_describes [OF r(5)] sample_statistics_describes [OF r(6)] r(4)
    by (simp add: r(1) check_identity_Ok same_identity_def)
qed

lemma baseline_gather_Ok:
  assumes "baseline_gather ic fo host fuel env request = Some (Ok report)"
  shows "0 < bq_runs request" "bq_runs request \<le> 100" "br_scenario (bq_boot request) = ImgNormal"
    "\<exists>samples. baseline_samples (\<lambda>i. run_boot ic (host i) fuel (env i) (bq_boot request)) 0 (bq_runs request) =
      Some (Ok samples) \<and> baseline_report_of fo (hh_os (host 0)) (hh_arch (host 0)) samples = Ok report"
  using assms by (auto simp: baseline_gather_def outcome_simps split: if_splits)

lemma write_json_atomic_file:
  "snd (write_json_atomic pid io target serialized fs) (resolved target) \<in> {fs (resolved target)} \<union> Some ` set_option serialized"
proof (cases serialized)
  case None
  then show ?thesis by (auto simp: write_json_atomic_def Let_def split: option.splits)
next
  case (Some bytes)
  then show ?thesis using json.all_or_nothing [of pid io target bytes fs] by auto
qed

lemma option_range: "Some ` set_option (f x) \<subseteq> range f"
  by (cases "f x") (auto, metis rangeI)

lemma write_json_atomic_Ok:
  assumes "write_json_atomic pid io target serialized fs = (Ok u, fs')"
  obtains bytes where "serialized = Some bytes" "fs' = fs(resolved target \<mapsto> bytes)"
proof (cases serialized)
  case None
  then show thesis using assms by (auto simp: write_json_atomic_def Let_def split: option.splits if_splits)
next
  case (Some bytes)
  then show thesis using that [of bytes] assms json.success [of pid io target bytes fs] by simp
qed

text \<open>
  C39: a baseline is what its runs were.  A baseline report is returned only for 1 to 100 boots of the
  normal scenario, each of which ended with exactly the evidence of a ready kernel; all runs share the
  image, firmware, emulator and command line of the first; the minimum, maximum and nearest-rank 95th
  percentile are those of the recorded times and memory sizes; and the report file then holds its
  JSON, every other file being as before.  In all other cases the report file is either as before or a
  complete report.
\<close>

theorem baseline_exact:
  "case run_baseline ic fo to_json host fuel env pid io request fs of
     None \<Rightarrow> True
   | Some (result, fs') \<Rightarrow>
       fs' (resolved (bq_output request)) \<in> {fs (resolved (bq_output request))} \<union> range to_json \<and>
       (case result of
          Ok report \<Rightarrow>
            0 < bq_runs request \<and> bq_runs request \<le> 100 \<and> length (bl_samples report) = bq_runs request \<and>
            bl_runs report = bq_runs request \<and> bl_peak_rss_sample_count report = bq_runs request \<and>
            br_scenario (bq_boot request) = ImgNormal \<and>
            list_all (\<lambda>i. scenario_evidence ic (host i) fuel (env i) (bq_boot request) (bl_samples report ! i))
              [0..<bq_runs request] \<and>
            list_all (\<lambda>s. same_identity s (hd (bl_samples report))) (bl_samples report) \<and>
            (\<exists>times rss. map run_time_to_ready_marker_ms (bl_samples report) = map Some times \<and>
               map run_peak_rss_kib (bl_samples report) = map Some rss \<and>
               describes (bl_time_to_ready_marker_ms report) times \<and> describes (bl_peak_rss_kib report) rss) \<and>
            (\<exists>bytes. to_json report = Some bytes \<and> fs' = fs(resolved (bq_output request) \<mapsto> bytes))
        | _ \<Rightarrow> True)"
proof (cases "baseline_gather ic fo host fuel env request")
  case (Some gathered)
  show ?thesis
  proof (cases gathered)
    case (Ok report)
    note gather = Some [unfolded Ok]
    obtain r fs' where w: "write_json_atomic pid io (bq_output request) (to_json report) fs = (r, fs')" by fastforce
    have written: "fs' (resolved (bq_output request)) \<in> {fs (resolved (bq_output request))} \<union> range to_json"
      using write_json_atomic_file [of pid io "bq_output request" "to_json report" fs]
        option_range [of to_json report] unfolding w snd_conv by blast
    have run: "run_baseline ic fo to_json host fuel env pid io request fs = Some (and_then r (\<lambda>_. Ok report), fs')"
      by (simp add: run_baseline_def gather w)
    obtain samples where samples:
      "baseline_samples (\<lambda>i. run_boot ic (host i) fuel (env i) (bq_boot request)) 0 (bq_runs request) = Some (Ok samples)"
      "baseline_report_of fo (hh_os (host 0)) (hh_arch (host 0)) samples = Ok report"
      using baseline_gather_Ok(4) [OF gather] by blast
    obtain times rss where rep: "bl_samples report = samples"
      "map run_time_to_ready_marker_ms samples = map Some times" "map run_peak_rss_kib samples = map Some rss"
      "describes (bl_time_to_ready_marker_ms report) times" "describes (bl_peak_rss_kib report) rss"
      "list_all (\<lambda>s. same_identity s (hd samples)) samples" "bl_runs report = length samples"
      "bl_peak_rss_sample_count report = length rss"
      using samples(2) by (rule baseline_report_of_Ok)
    have counted: "length rss = length samples" using rep(3) by (metis length_map)
    have boots: "length samples = bq_runs request"
      "list_all (\<lambda>i. scenario_evidence ic (host i) fuel (env i) (bq_boot request) (samples ! i)) [0..<bq_runs request]"
      using baseline_samples_Ok [OF samples(1)] by (auto simp: list_all_iff run_boot_Ok validated_boot_evidence)
    show ?thesis
    proof (cases r)
      case ok: (Ok u)
      obtain bytes where bytes: "to_json report = Some bytes" "fs' = fs(resolved (bq_output request) \<mapsto> bytes)"
        using w [unfolded ok] by (rule write_json_atomic_Ok)
      show ?thesis
        using baseline_gather_Ok(1-3) [OF gather] written boots rep counted bytes by (auto simp: run ok)
    qed (use written in \<open>simp_all add: run\<close>)
  qed (simp_all add: run_baseline_def Some)
qed (simp add: run_baseline_def)

end
