(* ===== verification/Xtask_Cli.thy ===== *)
theory Xtask_Cli
  imports Xtask_Harness "HOL-Library.AList"
begin

text \<open>
  The command line of the boot tools (\<^verbatim>\<open>crates/xtask/src/main.rs\<close>): option parsing, the requests the
  commands make of it, and the commands.  Arguments are byte strings; a command yields its verdict
  and the text it prints.
\<close>

section \<open>Options\<close>

text \<open>A \<^verbatim>\<open>BTreeMap\<close> is the association list of its entries.\<close>

type_synonym options = "(u8 list \<times> u8 list) list"

fun options_loop :: "u8 list list \<Rightarrow> options \<Rightarrow> (message, options) outcome" where
  "options_loop [] values = Ok values"
| "options_loop (name # rest) values =
     and_then (ensure (utf8_valid name) ''option names must be valid UTF-8'') (\<lambda>_.
     and_then (ensure (starts_with name (bytes_of ''--'')) ''expected an option'') (\<lambda>_.
     and_then (ensure (name \<noteq> bytes_of ''--help'') ''use cargo xtask help for usage'') (\<lambda>_.
     case rest of
       [] \<Rightarrow> Err ''option requires a value''
     | v # rest \<Rightarrow>
         and_then (ensure (map_of values name = None) ''option was provided more than once'') (\<lambda>_.
         options_loop rest (AList.update name v values)))))"

definition options_parse :: "u8 list list \<Rightarrow> (message, options) outcome" where
  "options_parse arguments = options_loop arguments []"

definition options_remove :: "string \<Rightarrow> options \<Rightarrow> u8 list option \<times> options" where
  "options_remove name opts = (map_of opts (bytes_of name), AList.delete (bytes_of name) opts)"

text \<open>\<^verbatim>\<open>PathBuf::from\<close>, read by components: repeated separators and inner dots have no component.\<close>

fun path_parts :: "bool \<Rightarrow> u8 list list \<Rightarrow> path" where
  "path_parts leading [] = []"
| "path_parts leading (part # rest) =
     (if part = [] then []
      else if part = bytes_of ''.'' then (if leading then [CurDir] else [])
      else if part = bytes_of ''..'' then [ParentDir]
      else [NormalName part]) @ path_parts False rest"

definition path_from :: "u8 list \<Rightarrow> path" where
  "path_from bytes =
     (if starts_with bytes (bytes_of ''/'') then [RootDir] else []) @ path_parts True (split_bytes 0x2F bytes)"

definition optional_path :: "string \<Rightarrow> options \<Rightarrow> path option \<times> options" where
  "optional_path name opts = (case options_remove name opts of (v, opts) \<Rightarrow> (map_option path_from v, opts))"

definition required_path :: "string \<Rightarrow> options \<Rightarrow> (message, path \<times> options) outcome" where
  "required_path name opts =
     (case optional_path name opts of
        (p, opts) \<Rightarrow> and_then (ok_or p ''required option is missing'') (\<lambda>p. Ok (p, opts)))"

definition optional_string :: "string \<Rightarrow> options \<Rightarrow> (message, u8 list option \<times> options) outcome" where
  "optional_string name opts =
     (case options_remove name opts of
        (None, opts) \<Rightarrow> Ok (None, opts)
      | (Some v, opts) \<Rightarrow> if utf8_valid v then Ok (Some v, opts) else Err ''option must be valid UTF-8'')"

definition optional_u64 :: "string \<Rightarrow> options \<Rightarrow> (message, nat option \<times> options) outcome" where
  "optional_u64 name opts =
     and_then (optional_string name opts) (\<lambda>(v, opts).
     case v of
       None \<Rightarrow> Ok (None, opts)
     | Some v \<Rightarrow> and_then (ok_or (parse_u64 v) ''option must be an unsigned integer'') (\<lambda>n. Ok (Some n, opts)))"

definition optional_usize :: "string \<Rightarrow> options \<Rightarrow> (message, usize option \<times> options) outcome" where
  "optional_usize name opts =
     and_then (optional_string name opts) (\<lambda>(v, opts).
     case v of
       None \<Rightarrow> Ok (None, opts)
     | Some v \<Rightarrow> and_then (ok_or (parse_u64 v) ''option must be a positive integer'') (\<lambda>n. Ok (Some n, opts)))"

definition options_scenario :: "options \<Rightarrow> (message, image_scenario \<times> options) outcome" where
  "options_scenario opts =
     and_then (optional_string ''--scenario'' opts) (\<lambda>(v, opts).
     case v of
       None \<Rightarrow> Ok (ImgNormal, opts)
     | Some v \<Rightarrow>
         and_then (map_err (\<lambda>_. ''unknown boot scenario'') (scenario_from_str v)) (\<lambda>scn. Ok (scn, opts)))"

definition options_finish :: "options \<Rightarrow> (message, unit) outcome" where
  "options_finish opts = (case opts of [] \<Rightarrow> Ok () | _ # _ \<Rightarrow> Err ''unsupported option'')"

section \<open>Requests\<close>

definition DEFAULT_IMAGE :: "u8 list" where
  "DEFAULT_IMAGE = bytes_of ''target/polytope/polytope-x86_64.img''"
definition DEFAULT_BASELINE :: "u8 list" where
  "DEFAULT_BASELINE = bytes_of ''target/polytope/boot-baseline.json''"
definition DEFAULT_OVMF_CACHE :: "u8 list" where
  "DEFAULT_OVMF_CACHE = bytes_of ''target/ovmf''"

definition path_or :: "string \<Rightarrow> u8 list \<Rightarrow> options \<Rightarrow> path \<times> options" where
  "path_or name fallback opts =
     (case optional_path name opts of (p, opts) \<Rightarrow> (case p of None \<Rightarrow> path_from fallback | Some p \<Rightarrow> p, opts))"

record inspection_request =
  iq_kernel :: path
  iq_map :: path

record image_request =
  ir_loader :: path
  ir_kernel :: path
  ir_output :: path
  ir_scenario :: image_scenario

definition inspection_request_of :: "options \<Rightarrow> (message, inspection_request) outcome" where
  "inspection_request_of opts =
     and_then (required_path ''--kernel'' opts) (\<lambda>(k, opts).
     and_then (required_path ''--map'' opts) (\<lambda>(m, opts).
     and_then (options_finish opts) (\<lambda>_.
     Ok \<lparr>iq_kernel = k, iq_map = m\<rparr>)))"

definition image_request_of :: "options \<Rightarrow> (message, image_request) outcome" where
  "image_request_of opts =
     and_then (required_path ''--loader'' opts) (\<lambda>(l, opts).
     and_then (required_path ''--kernel'' opts) (\<lambda>(k, opts).
     let (out, opts) = path_or ''--output'' DEFAULT_IMAGE opts in
     and_then (options_scenario opts) (\<lambda>(scn, opts).
     and_then (options_finish opts) (\<lambda>_.
     Ok \<lparr>ir_loader = l, ir_kernel = k, ir_output = out, ir_scenario = scn\<rparr>))))"

definition boot_request_of :: "options \<Rightarrow> (message, boot_request \<times> options) outcome" where
  "boot_request_of opts =
     and_then (optional_u64 ''--timeout-secs'' opts) (\<lambda>(t, opts).
     let timeout_seconds = (case t of None \<Rightarrow> 15 | Some t \<Rightarrow> t) in
     and_then (ensure (timeout_seconds > 0) ''--timeout-secs must be positive'') (\<lambda>_.
     let (disk, opts) = path_or ''--image'' DEFAULT_IMAGE opts in
     and_then (options_scenario opts) (\<lambda>(scn, opts).
     let (qemu, opts) = optional_path ''--qemu'' opts;
         (cache, opts) = path_or ''--ovmf-cache'' DEFAULT_OVMF_CACHE opts in
     Ok (\<lparr>br_image = disk, br_scenario = scn, br_timeout = timeout_seconds * 1000000000, br_qemu = qemu,
          br_ovmf_cache = cache\<rparr>, opts))))"

definition override_string :: "string \<Rightarrow> u8 list \<Rightarrow> options \<Rightarrow> (message, u8 list \<times> options) outcome" where
  "override_string name destination opts =
     and_then (optional_string name opts) (\<lambda>(v, opts).
     Ok (case v of None \<Rightarrow> destination | Some v \<Rightarrow> v, opts))"

definition override_features ::
    "string \<Rightarrow> u8 list list \<Rightarrow> options \<Rightarrow> (message, u8 list list \<times> options) outcome" where
  "override_features name destination opts =
     and_then (optional_string name opts) (\<lambda>(v, opts).
     case v of
       None \<Rightarrow> Ok (destination, opts)
     | Some v \<Rightarrow>
         let features = filter (\<lambda>f. f \<noteq> []) (map trim_text (split_bytes 0x2C v)) in
         and_then (ensure (features \<noteq> []) ''option must contain at least one feature'') (\<lambda>_.
         Ok (features, opts)))"

definition override_artifact ::
    "string \<Rightarrow> artifact_spec \<Rightarrow> options \<Rightarrow> (message, artifact_spec \<times> options) outcome" where
  "override_artifact kind spec opts =
     and_then (override_string (''--'' @ kind @ ''-package'') (as_package spec) opts) (\<lambda>(package, opts).
     and_then (override_string (''--'' @ kind @ ''-bin'') (as_binary spec) opts) (\<lambda>(binary, opts).
     and_then (override_string (''--'' @ kind @ ''-target'') (as_target spec) opts) (\<lambda>(target, opts).
     let (p, opts) = optional_path (''--'' @ kind @ ''-artifact'') opts in
     Ok (spec\<lparr>as_package := package, as_binary := binary, as_target := target,
          as_relative_path := (case p of None \<Rightarrow> as_relative_path spec | Some p \<Rightarrow> p)\<rparr>, opts))))"

definition repro_request_of :: "options \<Rightarrow> (message, repro_request) outcome" where
  "repro_request_of opts =
     (let (workspace, opts) = path_or ''--workspace'' (bytes_of ''.'') opts;
          (out, opts) = path_or ''--output'' DEFAULT_IMAGE opts;
          request = polytope_defaults workspace out;
          (cargo, opts) = optional_path ''--cargo'' opts in
      and_then (options_scenario opts) (\<lambda>(scn, opts).
      let (lo, opts) = optional_path ''--verified-loader-output'' opts;
          (ko, opts) = optional_path ''--verified-kernel-output'' opts;
          (mo, opts) = optional_path ''--verified-kernel-map-output'' opts in
      and_then (override_artifact ''loader'' (rq_loader request) opts) (\<lambda>(loader, opts).
      and_then (override_features ''--loader-features'' (as_features loader) opts) (\<lambda>(loader_features, opts).
      and_then (override_artifact ''kernel'' (rq_kernel request) opts) (\<lambda>(kernel_spec, opts).
      let (m, opts) = optional_path ''--kernel-map-artifact'' opts in
      and_then (override_features ''--kernel-features'' (as_features kernel_spec) opts) (\<lambda>(kernel_features, opts).
      and_then (options_finish opts) (\<lambda>_.
      Ok (request\<lparr>rq_cargo := cargo, rq_scenario := scn, rq_verified_loader_output := lo,
           rq_verified_kernel_output := ko, rq_verified_kernel_map_output := mo,
           rq_loader := loader\<lparr>as_features := loader_features\<rparr>,
           rq_kernel := kernel_spec\<lparr>as_features := kernel_features\<rparr>,
           rq_kernel_map_relative_path :=
             (case m of None \<Rightarrow> rq_kernel_map_relative_path request | Some p \<Rightarrow> Some p)\<rparr>))))))))"

section \<open>Commands\<close>

text \<open>
  What the commands run against: the crates, the host and the emulator of each boot, the failures of
  each output write, and the JSON that serde prints for the reports.
\<close>

record ('u, 'g, 'v, 'd, 'f) xtask_env =
  xe_crates :: "('u, 'g, 'v, 'd) image_crates"
  xe_f64 :: "'f f64_ops"
  xe_host :: "nat \<Rightarrow> harness_host"
  xe_qemu :: "nat \<Rightarrow> qemu_env"
  xe_fuel :: nat
  xe_io :: "nat \<Rightarrow> io_faults"
  xe_json_inspection :: "kernel_inspection \<Rightarrow> u8 list option"
  xe_json_manifest :: "image_manifest \<Rightarrow> u8 list option"
  xe_json_repro :: "repro_report \<Rightarrow> u8 list option"
  xe_json_run :: "boot_run \<Rightarrow> u8 list option"
  xe_json_baseline :: "'f baseline_report \<Rightarrow> u8 list option"

type_synonym verdict = "(message, unit) outcome \<times> u8 list"

definition print_json :: "u8 list option \<Rightarrow> verdict" where
  "print_json serialized =
     (case serialized of
        None \<Rightarrow> (Err ''failed to serialize command result'', [])
      | Some text_bytes \<Rightarrow> (Ok (), text_bytes @ [0x0A]))"

text \<open>\<^verbatim>\<open>print_json(&operation?)\<close>.\<close>

definition print_result :: "('a \<Rightarrow> u8 list option) \<Rightarrow> (message, 'a) outcome \<Rightarrow> verdict" where
  "print_result json r =
     (case r of Panic \<Rightarrow> (Panic, []) | Err e \<Rightarrow> (Err e, []) | Ok v \<Rightarrow> print_json (json v))"

definition command_inspect_kernel :: "('u, 'g, 'v, 'd, 'f) xtask_env \<Rightarrow> options \<Rightarrow> verdict" where
  "command_inspect_kernel xe opts =
     print_result (xe_json_inspection xe)
       (and_then (inspection_request_of opts) (\<lambda>rq.
        inspect_kernel (xe_crates xe) (rh_inputs (hh_repro (xe_host xe 0))) (iq_kernel rq) (iq_map rq)))"

definition command_image ::
    "('u, 'g, 'v, 'd, 'f) xtask_env \<Rightarrow> options \<Rightarrow> host_files \<Rightarrow> verdict \<times> host_files" where
  "command_image xe opts fs =
     (case image_request_of opts of
        Panic \<Rightarrow> ((Panic, []), fs)
      | Err e \<Rightarrow> ((Err e, []), fs)
      | Ok rq \<Rightarrow>
          (case build_image (xe_crates xe) (rh_inputs (hh_repro (xe_host xe 0))) (rh_pid (hh_repro (xe_host xe 0)))
              (xe_io xe 0) (ir_loader rq) (ir_kernel rq) (ir_output rq) (ir_scenario rq) fs of
             (r, fs) \<Rightarrow> (print_result (xe_json_manifest xe) r, fs)))"

definition command_repro ::
    "('u, 'g, 'v, 'd, 'f) xtask_env \<Rightarrow> options \<Rightarrow> host_files \<Rightarrow> verdict \<times> host_files" where
  "command_repro xe opts fs =
     (case repro_request_of opts of
        Panic \<Rightarrow> ((Panic, []), fs)
      | Err e \<Rightarrow> ((Err e, []), fs)
      | Ok rq \<Rightarrow>
          (case repro_verify (xe_crates xe) (hh_repro (xe_host xe 0)) (xe_io xe) rq fs of
             (r, fs) \<Rightarrow> (print_result (xe_json_repro xe) r, fs)))"

text \<open>The report of a boot is printed before its verdict is taken.\<close>

definition observed_command ::
    "('u, 'g, 'v, 'd, 'f) xtask_env \<Rightarrow> boot_mode \<Rightarrow> (boot_run \<Rightarrow> (message, unit) outcome) \<Rightarrow> boot_request
      \<Rightarrow> verdict option" where
  "observed_command xe mode check rq =
     map_option (\<lambda>r. case r of
         Panic \<Rightarrow> (Panic, [])
       | Err e \<Rightarrow> (Err e, [])
       | Ok run \<Rightarrow>
           (case print_json (xe_json_run xe run) of
              (printed, out) \<Rightarrow> (and_then printed (\<lambda>_. check run), out)))
       (observe_boot (xe_crates xe) (xe_host xe 0) (xe_fuel xe) (xe_qemu xe 0) rq mode)"

definition command_boot_test :: "('u, 'g, 'v, 'd, 'f) xtask_env \<Rightarrow> options \<Rightarrow> verdict option" where
  "command_boot_test xe opts =
     (case and_then (boot_request_of opts) (\<lambda>(rq, opts). and_then (options_finish opts) (\<lambda>_. Ok rq)) of
        Panic \<Rightarrow> Some (Panic, [])
      | Err e \<Rightarrow> Some (Err e, [])
      | Ok rq \<Rightarrow> observed_command xe Scenario validate_boot_outcome rq)"

definition command_timeout_probe :: "('u, 'g, 'v, 'd, 'f) xtask_env \<Rightarrow> options \<Rightarrow> verdict option" where
  "command_timeout_probe xe opts =
     (case and_then (boot_request_of opts) (\<lambda>(rq, opts).
        and_then (ensure (br_scenario rq = ImgNormal) ''timeout probes require the normal image scenario'') (\<lambda>_.
        and_then (options_finish opts) (\<lambda>_. Ok rq))) of
        Panic \<Rightarrow> Some (Panic, [])
      | Err e \<Rightarrow> Some (Err e, [])
      | Ok rq \<Rightarrow> observed_command xe TimeoutProbe validate_timeout_probe rq)"

definition baseline_request_of :: "options \<Rightarrow> (message, baseline_request) outcome" where
  "baseline_request_of opts =
     and_then (boot_request_of opts) (\<lambda>(boot, opts).
     and_then (optional_usize ''--runs'' opts) (\<lambda>(runs, opts).
     let (out, opts) = path_or ''--output'' DEFAULT_BASELINE opts in
     and_then (options_finish opts) (\<lambda>_.
     Ok \<lparr>bq_boot = boot, bq_runs = (case runs of None \<Rightarrow> 10 | Some n \<Rightarrow> n), bq_output = out\<rparr>)))"

definition command_baseline ::
    "('u, 'g, 'v, 'd, 'f) xtask_env \<Rightarrow> options \<Rightarrow> host_files \<Rightarrow> (verdict \<times> host_files) option" where
  "command_baseline xe opts fs =
     (case baseline_request_of opts of
        Panic \<Rightarrow> Some ((Panic, []), fs)
      | Err e \<Rightarrow> Some ((Err e, []), fs)
      | Ok rq \<Rightarrow>
          map_option (\<lambda>(r, fs). (print_result (xe_json_baseline xe) r, fs))
            (run_baseline (xe_crates xe) (xe_f64 xe) (xe_json_baseline xe) (xe_host xe) (xe_fuel xe) (xe_qemu xe)
              (rh_pid (hh_repro (xe_host xe 0))) (xe_io xe 0) rq fs))"

definition usage_text :: "u8 list" where
  "usage_text = concat (map (\<lambda>line. line @ [0x0A])
     ([bytes_of ''PolytopeOS deterministic boot tooling'', [], bytes_of ''Usage:'',
       bytes_of ''cargo xtask image --loader PATH --kernel PATH [--output PATH] [--scenario TOKEN]'',
       bytes_of ''cargo xtask inspect-kernel --kernel PATH --map PATH'',
       bytes_of ''cargo xtask repro-check [--workspace PATH] [--output PATH] [artifact overrides]'',
       bytes_of ''cargo xtask boot-test [--image PATH] [--scenario TOKEN] [--timeout-secs N]'',
       bytes_of ''cargo xtask timeout-probe [--image PATH] [--timeout-secs N]'',
       bytes_of ''cargo xtask baseline [--image PATH] [--runs N] [--output PATH]'', [],
       bytes_of ''Scenario tokens: normal, bad-version, truncated, panic'',
       bytes_of ''Firmware overrides: POLYTOPE_OVMF_CODE and POLYTOPE_OVMF_VARS'',
       bytes_of ''Tool overrides: --cargo/POLYTOPE_CARGO and --qemu/POLYTOPE_QEMU'',
       bytes_of ''Default image: '' @ DEFAULT_IMAGE, bytes_of ''Default baseline: '' @ DEFAULT_BASELINE]))"

definition xtask_run ::
    "('u, 'g, 'v, 'd, 'f) xtask_env \<Rightarrow> u8 list list \<Rightarrow> host_files \<Rightarrow> (verdict \<times> host_files) option" where
  "xtask_run xe arguments fs =
     (case drop 1 arguments of
        [] \<Rightarrow> Some ((Ok (), usage_text), fs)
      | command # rest \<Rightarrow>
          if \<not> utf8_valid command then Some ((Err ''command name must be valid UTF-8'', []), fs)
          else if command \<in> set (map bytes_of [''help'', ''--help'', ''-h'']) then Some ((Ok (), usage_text), fs)
          else
            (case options_parse rest of
               Panic \<Rightarrow> Some ((Panic, []), fs)
             | Err e \<Rightarrow> Some ((Err e, []), fs)
             | Ok opts \<Rightarrow>
                 if command = bytes_of ''image'' then Some (command_image xe opts fs)
                 else if command = bytes_of ''inspect-kernel'' then Some (command_inspect_kernel xe opts, fs)
                 else if command = bytes_of ''repro-check'' then Some (command_repro xe opts fs)
                 else if command = bytes_of ''boot-test''
                   then map_option (\<lambda>v. (v, fs)) (command_boot_test xe opts)
                 else if command = bytes_of ''timeout-probe''
                   then map_option (\<lambda>v. (v, fs)) (command_timeout_probe xe opts)
                 else if command = bytes_of ''baseline'' then command_baseline xe opts fs
                 else Some ((Err ''unknown xtask command'', []), fs)))"

text \<open>The exit status of the process; a panic unwinds with status 101.\<close>

definition xtask_main ::
    "('u, 'g, 'v, 'd, 'f) xtask_env \<Rightarrow> u8 list list \<Rightarrow> host_files \<Rightarrow> (nat \<times> u8 list \<times> host_files) option" where
  "xtask_main xe arguments fs =
     map_option (\<lambda>((r, out), fs). (case r of Ok _ \<Rightarrow> 0 | Err _ \<Rightarrow> 1 | Panic \<Rightarrow> 101, out, fs))
       (xtask_run xe arguments fs)"

section \<open>Accepted options\<close>

definition option_name :: "u8 list \<Rightarrow> bool" where
  "option_name n \<longleftrightarrow> utf8_valid n \<and> starts_with n (bytes_of ''--'') \<and> n \<noteq> bytes_of ''--help''"

lemma update_fresh: "map_of values n = None \<Longrightarrow> AList.update n v values = values @ [(n, v)]"
  by (induction "values") (auto split: if_splits)

text \<open>The arguments that spell a list of options.\<close>

definition spelled :: "options \<Rightarrow> u8 list list" where
  "spelled opts = concat (map (\<lambda>(n, v). [n, v]) opts)"

lemma options_loop_complete:
  assumes "list_all (\<lambda>p. option_name (fst p)) pairs" and "distinct (map fst pairs)"
    and "\<And>p. p \<in> set pairs \<Longrightarrow> map_of values (fst p) = None"
  shows "options_loop (spelled pairs) values = Ok (values @ pairs)"
  using assms
proof (induction pairs arbitrary: "values")
  case (Cons p pairs)
  obtain n v where p: "p = (n, v)" by fastforce
  have "options_loop (spelled pairs) (values @ [(n, v)]) = Ok ((values @ [(n, v)]) @ pairs)"
    using Cons.prems by (intro Cons.IH) (auto simp: p map_add_def split: option.splits)
  moreover have "map_of values n = None" using Cons.prems(3) [of p] by (simp add: p)
  ultimately show ?case
    using Cons.prems(1) by (simp add: p spelled_def option_name_def update_fresh outcome_simps ensure_def)
qed (simp add: spelled_def)

lemma options_loop_sound:
  "options_loop args values = Ok opts \<Longrightarrow>
    \<exists>pairs. opts = values @ pairs \<and> args = spelled pairs \<and> list_all (\<lambda>p. option_name (fst p)) pairs \<and>
      distinct (map fst pairs) \<and> list_all (\<lambda>p. map_of values (fst p) = None) pairs"
proof (induction args "values" rule: options_loop.induct)
  case (1 "values")
  then show ?case by (intro exI [of _ "[]"]) (simp add: spelled_def)
next
  case (2 name rest "values")
  then obtain v rest' where rest: "rest = v # rest'" and name: "option_name name" "map_of values name = None"
    and run: "options_loop rest' (values @ [(name, v)]) = Ok opts"
    by (cases rest) (auto simp: outcome_simps option_name_def update_fresh)
  obtain pairs where pairs: "opts = (values @ [(name, v)]) @ pairs" "rest' = spelled pairs"
    "list_all (\<lambda>p. option_name (fst p)) pairs" "distinct (map fst pairs)"
    "list_all (\<lambda>p. map_of (values @ [(name, v)]) (fst p) = None) pairs"
    using "2.IH" [OF rest] name run by (auto simp: update_fresh)
  then show ?case
    using name by (intro exI [of _ "(name, v) # pairs"])
      (auto simp: rest spelled_def list_all_iff map_add_def split: option.splits)
qed

lemma options_parse_Ok:
  "options_parse args = Ok opts \<longleftrightarrow>
    args = spelled opts \<and> list_all (\<lambda>p. option_name (fst p)) opts \<and> distinct (map fst opts)"
  using options_loop_sound [of args "[]" opts] options_loop_complete [of opts "[]"]
  by (auto simp: options_parse_def)

lemma options_loop_not_Panic: "options_loop args values \<noteq> Panic"
  by (induction args "values" rule: options_loop.induct)
    (auto simp: outcome_simps split: list.splits)

text \<open>The names still to be read; each reading removes one.\<close>

definition option_names :: "options \<Rightarrow> u8 list set" where
  "option_names opts = fst ` set opts"

lemma option_names_delete: "option_names opts \<subseteq> insert n (option_names (AList.delete n opts))"
  by (auto simp: option_names_def AList.delete_eq image_iff)

lemma options_finish_Ok: "options_finish opts = Ok () \<longleftrightarrow> option_names opts = {}"
  by (auto simp: options_finish_def option_names_def split: list.splits)

text \<open>\<open>reads ns opts opts'\<close>: every name in \<open>opts\<close> is one of \<open>ns\<close> or still in \<open>opts'\<close>.\<close>

definition reads :: "string list \<Rightarrow> options \<Rightarrow> options \<Rightarrow> bool" where
  "reads ns opts opts' \<longleftrightarrow> option_names opts \<subseteq> set (map bytes_of ns) \<union> option_names opts'"

lemma reads_trans: "reads ms opts opts1 \<Longrightarrow> reads ns opts1 opts2 \<Longrightarrow> reads (ms @ ns) opts opts2"
  by (auto simp: reads_def)

lemma reads_all: "reads ns opts opts' \<Longrightarrow> options_finish opts' = Ok () \<Longrightarrow> option_names opts \<subseteq> set (map bytes_of ns)"
  by (simp add: reads_def options_finish_Ok)

lemma options_remove_reads: "reads [name] opts (snd (options_remove name opts))"
  using option_names_delete [of opts "bytes_of name"] by (simp add: reads_def options_remove_def)

lemma optional_path_reads: "reads [name] opts (snd (optional_path name opts))"
  using options_remove_reads by (simp add: optional_path_def case_prod_beta)

lemma path_or_reads: "reads [name] opts (snd (path_or name fallback opts))"
  using optional_path_reads by (simp add: path_or_def case_prod_beta)

lemma required_path_reads: "required_path name opts = Ok (p, opts') \<Longrightarrow> reads [name] opts opts'"
  using optional_path_reads by (auto simp: required_path_def case_prod_beta outcome_simps)

lemma optional_string_reads: "optional_string name opts = Ok (v, opts') \<Longrightarrow> reads [name] opts opts'"
  using options_remove_reads [of name opts]
  by (auto simp: optional_string_def split: prod.splits option.splits if_splits)

lemma optional_u64_reads: "optional_u64 name opts = Ok (n, opts') \<Longrightarrow> reads [name] opts opts'"
  by (auto simp: optional_u64_def outcome_simps intro: optional_string_reads split: option.splits)

lemma optional_usize_reads: "optional_usize name opts = Ok (n, opts') \<Longrightarrow> reads [name] opts opts'"
  by (auto simp: optional_usize_def outcome_simps intro: optional_string_reads split: option.splits)

lemma options_scenario_reads: "options_scenario opts = Ok (scn, opts') \<Longrightarrow> reads [''--scenario''] opts opts'"
  by (auto simp: options_scenario_def outcome_simps intro: optional_string_reads split: option.splits)

lemma override_string_reads: "override_string name old opts = Ok (v, opts') \<Longrightarrow> reads [name] opts opts'"
  by (auto simp: override_string_def outcome_simps intro: optional_string_reads)

lemma override_features_reads: "override_features name old opts = Ok (v, opts') \<Longrightarrow> reads [name] opts opts'"
  by (auto simp: override_features_def Let_def outcome_simps intro: optional_string_reads split: option.splits)

lemma boot_request_of_reads:
  assumes "boot_request_of opts = Ok (rq, opts')"
  shows "reads [''--timeout-secs'', ''--image'', ''--scenario'', ''--qemu'', ''--ovmf-cache''] opts opts'"
proof -
  obtain t o1 scn o2 where r: "optional_u64 ''--timeout-secs'' opts = Ok (t, o1)"
    "options_scenario (snd (path_or ''--image'' DEFAULT_IMAGE o1)) = Ok (scn, o2)"
    "opts' = snd (path_or ''--ovmf-cache'' DEFAULT_OVMF_CACHE (snd (optional_path ''--qemu'' o2)))"
    using assms by (auto simp: boot_request_of_def Let_def case_prod_beta outcome_simps)
  show ?thesis
    using reads_trans [OF optional_u64_reads [OF r(1)] reads_trans [OF path_or_reads
        reads_trans [OF options_scenario_reads [OF r(2)] reads_trans [OF optional_path_reads path_or_reads]]]]
    by (simp add: r(3))
qed

lemma override_artifact_reads:
  assumes "override_artifact kind spec opts = Ok (spec', opts')"
  shows "reads [''--'' @ kind @ ''-package'', ''--'' @ kind @ ''-bin'', ''--'' @ kind @ ''-target'', ''--'' @ kind @ ''-artifact'']
    opts opts'"
proof -
  obtain a o1 b o2 c o3 where r: "override_string (''--'' @ kind @ ''-package'') (as_package spec) opts = Ok (a, o1)"
    "override_string (''--'' @ kind @ ''-bin'') (as_binary spec) o1 = Ok (b, o2)"
    "override_string (''--'' @ kind @ ''-target'') (as_target spec) o2 = Ok (c, o3)"
    "opts' = snd (optional_path (''--'' @ kind @ ''-artifact'') o3)"
    using assms by (auto simp: override_artifact_def Let_def case_prod_beta outcome_simps)
  show ?thesis
    using reads_trans [OF override_string_reads [OF r(1)] reads_trans [OF override_string_reads [OF r(2)]
        reads_trans [OF override_string_reads [OF r(3)] optional_path_reads]]]
    by (simp add: r(4))
qed

lemma inspection_request_of_reads:
  assumes "inspection_request_of opts = Ok rq"
  shows "option_names opts \<subseteq> set (map bytes_of [''--kernel'', ''--map''])"
proof -
  obtain k o1 m o2 where r: "required_path ''--kernel'' opts = Ok (k, o1)" "required_path ''--map'' o1 = Ok (m, o2)"
    "options_finish o2 = Ok ()"
    using assms by (auto simp: inspection_request_of_def outcome_simps)
  show ?thesis
    using reads_all [OF reads_trans [OF required_path_reads [OF r(1)] required_path_reads [OF r(2)]] r(3)] by simp
qed

lemma image_request_of_reads:
  assumes "image_request_of opts = Ok rq"
  shows "option_names opts \<subseteq> set (map bytes_of [''--loader'', ''--kernel'', ''--output'', ''--scenario''])"
proof -
  obtain l o1 k o2 scn o3 where r: "required_path ''--loader'' opts = Ok (l, o1)"
    "required_path ''--kernel'' o1 = Ok (k, o2)"
    "options_scenario (snd (path_or ''--output'' DEFAULT_IMAGE o2)) = Ok (scn, o3)" "options_finish o3 = Ok ()"
    using assms by (auto simp: image_request_of_def Let_def case_prod_beta outcome_simps)
  show ?thesis
    using reads_all [OF reads_trans [OF required_path_reads [OF r(1)] reads_trans [OF required_path_reads [OF r(2)]
          reads_trans [OF path_or_reads options_scenario_reads [OF r(3)]]]] r(4)] by simp
qed

lemma baseline_request_of_reads:
  assumes "baseline_request_of opts = Ok rq"
  shows "option_names opts \<subseteq> set (map bytes_of
    [''--timeout-secs'', ''--image'', ''--scenario'', ''--qemu'', ''--ovmf-cache'', ''--runs'', ''--output''])"
proof -
  obtain b o1 n o2 where r: "boot_request_of opts = Ok (b, o1)" "optional_usize ''--runs'' o1 = Ok (n, o2)"
    "options_finish (snd (path_or ''--output'' DEFAULT_BASELINE o2)) = Ok ()"
    using assms by (auto simp: baseline_request_of_def Let_def case_prod_beta outcome_simps)
  show ?thesis
    using reads_all [OF reads_trans [OF boot_request_of_reads [OF r(1)]
          reads_trans [OF optional_usize_reads [OF r(2)] path_or_reads]] r(3)] by simp
qed

lemma repro_request_of_reads:
  assumes "repro_request_of opts = Ok rq"
  shows "option_names opts \<subseteq> set (map bytes_of
    [''--workspace'', ''--output'', ''--cargo'', ''--scenario'', ''--verified-loader-output'', ''--verified-kernel-output'',
     ''--verified-kernel-map-output'', ''--loader-package'', ''--loader-bin'', ''--loader-target'', ''--loader-artifact'',
     ''--loader-features'', ''--kernel-package'', ''--kernel-bin'', ''--kernel-target'', ''--kernel-artifact'',
     ''--kernel-map-artifact'', ''--kernel-features''])"
proof -
  let ?o0 = "snd (optional_path ''--cargo'' (snd (path_or ''--output'' DEFAULT_IMAGE
    (snd (path_or ''--workspace'' (bytes_of ''.'') opts)))))"
  obtain scn o1 l o2 lf o3 k o4 kf o5 where r: "options_scenario ?o0 = Ok (scn, o1)"
    "override_artifact ''loader'' (rq_loader (polytope_defaults
        (fst (path_or ''--workspace'' (bytes_of ''.'') opts))
        (fst (path_or ''--output'' DEFAULT_IMAGE (snd (path_or ''--workspace'' (bytes_of ''.'') opts))))))
      (snd (optional_path ''--verified-kernel-map-output'' (snd (optional_path ''--verified-kernel-output''
        (snd (optional_path ''--verified-loader-output'' o1)))))) = Ok (l, o2)"
    "override_features ''--loader-features'' (as_features l) o2 = Ok (lf, o3)"
    "override_artifact ''kernel'' (rq_kernel (polytope_defaults
        (fst (path_or ''--workspace'' (bytes_of ''.'') opts))
        (fst (path_or ''--output'' DEFAULT_IMAGE (snd (path_or ''--workspace'' (bytes_of ''.'') opts)))))) o3 = Ok (k, o4)"
    "override_features ''--kernel-features'' (as_features k) (snd (optional_path ''--kernel-map-artifact'' o4)) = Ok (kf, o5)"
    "options_finish o5 = Ok ()"
    using assms by (auto simp: repro_request_of_def Let_def case_prod_beta outcome_simps)
  have "reads ([''--workspace''] @ [''--output''] @ [''--cargo''] @ [''--scenario'']) opts o1"
    by (rule reads_trans [OF path_or_reads reads_trans [OF path_or_reads
          reads_trans [OF optional_path_reads options_scenario_reads [OF r(1)]]]])
  moreover have "reads ([''--verified-loader-output''] @ [''--verified-kernel-output''] @
      [''--verified-kernel-map-output''] @ [''--loader-package'', ''--loader-bin'', ''--loader-target'',
        ''--loader-artifact''] @ [''--loader-features'']) o1 o3"
    using reads_trans [OF override_artifact_reads [OF r(2)] override_features_reads [OF r(3)]]
    by (intro reads_trans [OF optional_path_reads]) simp
  moreover have "reads ([''--kernel-package'', ''--kernel-bin'', ''--kernel-target'', ''--kernel-artifact''] @
      [''--kernel-map-artifact''] @ [''--kernel-features'']) o3 o5"
    using reads_trans [OF override_artifact_reads [OF r(4)]
        reads_trans [OF optional_path_reads override_features_reads [OF r(5)]]]
    by simp
  ultimately show ?thesis
    using reads_all [OF reads_trans [OF _ reads_trans [of _ o1 o3 _ o5]] r(6)] by fastforce
qed

lemma boot_request_of_not_Panic: "boot_request_of opts \<noteq> Panic"
  by (auto simp: boot_request_of_def optional_u64_def optional_string_def options_scenario_def
      scenario_from_str_def Let_def case_prod_beta outcome_simps map_err_def ok_or_def ensure_def
      and_then_def split: option.splits outcome.splits)

lemma boot_commands_refuse:
  "option_names opts \<subseteq> set (map bytes_of
      [''--timeout-secs'', ''--image'', ''--scenario'', ''--qemu'', ''--ovmf-cache'']) \<or>
    (\<exists>e e'. command_boot_test xe opts = Some (Err e, []) \<and> command_timeout_probe xe opts = Some (Err e', []))"
proof (cases "boot_request_of opts")
  case (Ok r)
  obtain rq opts' where r: "boot_request_of opts = Ok (rq, opts')" using Ok by (cases r) simp
  show ?thesis
  proof (cases "options_finish opts'")
    case (Ok u)
    then show ?thesis using reads_all [OF boot_request_of_reads [OF r]] by simp
  next
    case (Err e)
    then show ?thesis
      by (cases "br_scenario rq = ImgNormal")
        (auto simp: command_boot_test_def command_timeout_probe_def r ensure_def)
  qed (simp add: options_finish_def split: list.splits)
qed (simp_all add: boot_request_of_not_Panic command_boot_test_def command_timeout_probe_def)

lemma case_OkI: "(\<And>x. r = Ok x \<Longrightarrow> P x) \<Longrightarrow> case r of Ok x \<Rightarrow> P x | _ \<Rightarrow> True"
  by (simp split: outcome.split)

text \<open>
  C40: exactly the well-formed option lists are accepted, and no option is ignored.  Parsing never
  panics; it succeeds exactly when the arguments are name and value pairs whose names are valid UTF-8,
  start with two dashes, are not the help flag and are distinct, and it then yields these pairs.  For
  each of the six commands, a request is accepted only when the command knows every option that was
  given; the boot test and the timeout probe end with an error and without output when it does not.
\<close>

theorem options_exact:
  "options_parse args \<noteq> Panic \<and>
   (options_parse args = Ok opts \<longleftrightarrow>
      args = spelled opts \<and> list_all (\<lambda>p. option_name (fst p)) opts \<and> distinct (map fst opts)) \<and>
   (case inspection_request_of opts of
      Ok _ \<Rightarrow> option_names opts \<subseteq> set (map bytes_of [''--kernel'', ''--map'']) | _ \<Rightarrow> True) \<and>
   (case image_request_of opts of
      Ok _ \<Rightarrow> option_names opts \<subseteq> set (map bytes_of [''--loader'', ''--kernel'', ''--output'', ''--scenario''])
    | _ \<Rightarrow> True) \<and>
   (case repro_request_of opts of
      Ok _ \<Rightarrow> option_names opts \<subseteq> set (map bytes_of
        [''--workspace'', ''--output'', ''--cargo'', ''--scenario'', ''--verified-loader-output'',
         ''--verified-kernel-output'', ''--verified-kernel-map-output'', ''--loader-package'', ''--loader-bin'',
         ''--loader-target'', ''--loader-artifact'', ''--loader-features'', ''--kernel-package'', ''--kernel-bin'',
         ''--kernel-target'', ''--kernel-artifact'', ''--kernel-map-artifact'', ''--kernel-features''])
    | _ \<Rightarrow> True) \<and>
   (case baseline_request_of opts of
      Ok _ \<Rightarrow> option_names opts \<subseteq> set (map bytes_of
        [''--timeout-secs'', ''--image'', ''--scenario'', ''--qemu'', ''--ovmf-cache'', ''--runs'', ''--output''])
    | _ \<Rightarrow> True) \<and>
   (option_names opts \<subseteq> set (map bytes_of
        [''--timeout-secs'', ''--image'', ''--scenario'', ''--qemu'', ''--ovmf-cache'']) \<or>
      (\<exists>e e'. command_boot_test xe opts = Some (Err e, []) \<and>
         command_timeout_probe xe opts = Some (Err e', [])))"
proof (intro conjI)
  show "options_parse args \<noteq> Panic" by (simp add: options_parse_def options_loop_not_Panic)
  show "options_parse args = Ok opts \<longleftrightarrow>
      args = spelled opts \<and> list_all (\<lambda>p. option_name (fst p)) opts \<and> distinct (map fst opts)"
    by (rule options_parse_Ok)
  show "option_names opts \<subseteq> set (map bytes_of
        [''--timeout-secs'', ''--image'', ''--scenario'', ''--qemu'', ''--ovmf-cache'']) \<or>
      (\<exists>e e'. command_boot_test xe opts = Some (Err e, []) \<and>
         command_timeout_probe xe opts = Some (Err e', []))"
    by (rule boot_commands_refuse)
qed (rule case_OkI, (erule inspection_request_of_reads | erule image_request_of_reads |
      erule repro_request_of_reads | erule baseline_request_of_reads))+

section \<open>The boot test\<close>

text \<open>
  C38: the boot test keeps the evidence of every completed observation, and passes only on the
  evidence of its scenario.  With known options only, and once the observation has completed, its JSON
  report is printed whatever the verdict is, and the verdict is taken from that report; a report that
  cannot be serialised and an observation that fails end the command with an error and no output, and
  so does a refused option list.  The verdict is success only if the image was validated and carries
  the requested scenario, and the emulator ended by itself with the exit status and with exactly the
  diagnostic records of that scenario.
\<close>

theorem boot_test_evidence:
  "case boot_request_of opts of
     Ok (rq, []) \<Rightarrow>
       (case observe_boot (xe_crates xe) (xe_host xe 0) (xe_fuel xe) (xe_qemu xe 0) rq Scenario of
          None \<Rightarrow> command_boot_test xe opts = None
        | Some (Ok run) \<Rightarrow>
            (case xe_json_run xe run of
               Some json \<Rightarrow>
                 command_boot_test xe opts = Some (validate_boot_outcome run, json @ [0x0A]) \<and>
                 (case validate_boot_outcome run of
                    Ok _ \<Rightarrow> scenario_evidence (xe_crates xe) (xe_host xe 0) (xe_fuel xe) (xe_qemu xe 0) rq run
                  | _ \<Rightarrow> True)
             | None \<Rightarrow> \<exists>e. command_boot_test xe opts = Some (Err e, []))
        | Some (Err e) \<Rightarrow> command_boot_test xe opts = Some (Err e, [])
        | Some Panic \<Rightarrow> command_boot_test xe opts = Some (Panic, []))
   | _ \<Rightarrow> \<exists>e. command_boot_test xe opts = Some (Err e, [])"
proof (cases "\<exists>rq. boot_request_of opts = Ok (rq, [])")
  case True
  then obtain rq where rq: "boot_request_of opts = Ok (rq, [])" by blast
  have cmd: "command_boot_test xe opts = observed_command xe Scenario validate_boot_outcome rq"
    by (simp add: command_boot_test_def rq options_finish_def)
  note evidence = validated_boot_evidence [of "xe_crates xe" "xe_host xe 0" "xe_fuel xe" "xe_qemu xe 0" rq]
  show ?thesis
    by (auto simp: rq cmd observed_command_def print_json_def evidence split: outcome.splits option.splits)
next
  case False
  then have "\<exists>e. command_boot_test xe opts = Some (Err e, [])"
    using boot_request_of_not_Panic [of opts]
    by (cases "boot_request_of opts")
      (auto simp: command_boot_test_def options_finish_def split: list.splits prod.splits)
  then show ?thesis using False by (auto split: outcome.splits prod.splits list.splits)
qed

end
