(* ===== verification/Polyctl.thy ===== *)
theory Polyctl
  imports Reproducibility
begin

text \<open>
  The developer control tool (\<^verbatim>\<open>crates/polyctl/src/main.rs\<close>): its two commands, the workspace check and
  the exit status.  The working directory, the manifest and the tools are the record \<open>polyctl_host\<close>.
\<close>

definition USAGE :: "u8 list" where "USAGE = bytes_of ''Usage: polyctl <doctor|help>''"

datatype cli_command = CliDoctor | CliHelp

datatype doctor_error = ManifestError | NotWorkspace | ToolStart string | ToolFailed string | ToolOutput string

definition parse_command :: "u8 list list \<Rightarrow> (u8 list, cli_command) outcome" where
  "parse_command arguments =
     (case arguments of
        [] \<Rightarrow> Ok CliHelp
      | [command] \<Rightarrow>
          if command = bytes_of ''help'' then Ok CliHelp
          else if command = bytes_of ''doctor'' then Ok CliDoctor
          else Err (bytes_of ''unknown command '' @ [0x27] @ command @ [0x27])
      | _ \<Rightarrow> Err (bytes_of ''expected exactly one command''))"

record polyctl_host =
  ph_current_dir :: "path option"
  ph_read :: "path \<Rightarrow> u8 list option"
  ph_output :: "string \<Rightarrow> (bool \<times> u8 list) option"

definition doctor_tool_version :: "polyctl_host \<Rightarrow> string \<Rightarrow> (doctor_error, u8 list) outcome" where
  "doctor_tool_version host tool =
     and_then (ok_or (ph_output host tool) (ToolStart tool)) (\<lambda>(success, stdout).
     and_then (ensure success (ToolFailed tool)) (\<lambda>_.
     and_then (ensure (utf8_valid stdout) (ToolOutput tool)) (\<lambda>_.
     Ok (trim_text stdout))))"

definition read_to_string :: "polyctl_host \<Rightarrow> path \<Rightarrow> u8 list option" where
  "read_to_string host p =
     Option.bind (ph_read host p) (\<lambda>bytes. if utf8_valid bytes then Some bytes else None)"

text \<open>The lines printed on success.\<close>

definition doctor :: "polyctl_host \<Rightarrow> path \<Rightarrow> (doctor_error, u8 list list) outcome" where
  "doctor host workspace =
     and_then (ok_or (read_to_string host (path_join workspace (bytes_of ''Cargo.toml''))) ManifestError) (\<lambda>manifest.
     if first_subslice manifest (bytes_of ''[workspace]'') = None \<or> first_subslice manifest (bytes_of ''polyctl'') = None
     then Err NotWorkspace
     else
       and_then (doctor_tool_version host ''rustc'') (\<lambda>rustc.
       and_then (doctor_tool_version host ''cargo'') (\<lambda>cargo.
       Ok [bytes_of ''[ok] PolytopeOS workspace manifest'', bytes_of ''[ok] '' @ rustc, bytes_of ''[ok] '' @ cargo,
           bytes_of ''Foundation checks passed; boot tooling is introduced in Sprint 2.''])))"

text \<open>
  The exit status and the lines on standard output.  \<^verbatim>\<open>env::args\<close> panics on an argument that is not
  valid Unicode.
\<close>

definition polyctl_main :: "polyctl_host \<Rightarrow> u8 list list \<Rightarrow> (unit, nat \<times> u8 list list) outcome" where
  "polyctl_main host all_arguments =
     (if \<not> list_all utf8_valid all_arguments then Panic
      else
        (case parse_command (drop 1 all_arguments) of
           Ok CliHelp \<Rightarrow> Ok (0, [USAGE])
         | Ok CliDoctor \<Rightarrow>
             (case and_then (ok_or (ph_current_dir host) ManifestError) (doctor host) of
                Ok out \<Rightarrow> Ok (0, out)
              | Err _ \<Rightarrow> Ok (1, [])
              | Panic \<Rightarrow> Panic)
         | Err _ \<Rightarrow> Ok (2, [])
         | Panic \<Rightarrow> Panic))"

section \<open>Exit status\<close>

definition tool_answers :: "polyctl_host \<Rightarrow> string \<Rightarrow> bool" where
  "tool_answers host tool \<longleftrightarrow> (\<exists>stdout. ph_output host tool = Some (True, stdout) \<and> utf8_valid stdout)"

definition polytope_manifest :: "u8 list \<Rightarrow> bool" where
  "polytope_manifest bytes \<longleftrightarrow> utf8_valid bytes \<and> occurs (bytes_of ''[workspace]'') bytes \<and> occurs (bytes_of ''polyctl'') bytes"

lemma doctor_tool_version_Ok:
  "(\<exists>v. doctor_tool_version host tool = Ok v) \<longleftrightarrow> tool_answers host tool"
  "doctor_tool_version host tool \<noteq> Panic"
  by (auto simp: doctor_tool_version_def tool_answers_def outcome_simps ok_or_def ensure_def
      split: option.splits if_splits)

lemma manifest_accepted:
  "(\<exists>bytes. read_to_string host p = Some bytes \<and>
      first_subslice bytes (bytes_of ''[workspace]'') \<noteq> None \<and> first_subslice bytes (bytes_of ''polyctl'') \<noteq> None) \<longleftrightarrow>
    (\<exists>bytes. ph_read host p = Some bytes \<and> polytope_manifest bytes)"
  by (auto simp: read_to_string_def polytope_manifest_def first_subslice_None bytes_of_def
      split: Option.bind_splits if_splits)

lemma doctor_Ok:
  "(\<exists>out. doctor host workspace = Ok out) \<longleftrightarrow>
    (\<exists>bytes. ph_read host (path_join workspace (bytes_of ''Cargo.toml'')) = Some bytes \<and> polytope_manifest bytes) \<and>
    tool_answers host ''rustc'' \<and> tool_answers host ''cargo''"
  unfolding manifest_accepted [symmetric] doctor_tool_version_Ok(1) [symmetric]
  by (auto simp: doctor_def outcome_simps split: if_splits)

lemma doctor_not_Panic: "doctor host workspace \<noteq> Panic"
  by (auto simp: doctor_def outcome_simps doctor_tool_version_Ok(2))

text \<open>
  The exit status is 0 for help and for a workspace in order, 1 for a failed check, 2 for a command
  line that names no command; only an argument that is not valid Unicode makes the program panic.
\<close>

definition workspace_in_order :: "polyctl_host \<Rightarrow> bool" where
  "workspace_in_order host \<longleftrightarrow>
     (\<exists>dir bytes. ph_current_dir host = Some dir \<and>
        ph_read host (path_join dir (bytes_of ''Cargo.toml'')) = Some bytes \<and> polytope_manifest bytes) \<and>
     tool_answers host ''rustc'' \<and> tool_answers host ''cargo''"

lemma polyctl_exit_status:
  assumes "list_all utf8_valid (program # arguments)"
  shows "\<exists>out. polyctl_main host (program # arguments) =
    Ok (if arguments = [] \<or> arguments = [bytes_of ''help''] then 0
        else if arguments = [bytes_of ''doctor''] then (if workspace_in_order host then 0 else 1)
        else 2, out)"
proof (cases "arguments = [bytes_of ''doctor'']")
  case True
  have ne: "bytes_of ''doctor'' \<noteq> bytes_of ''help''" by (simp add: bytes_of_def)
  then have cmd: "parse_command [bytes_of ''doctor''] = Ok CliDoctor" by (simp add: parse_command_def)
  show ?thesis
  proof (cases "ph_current_dir host")
    case None
    then show ?thesis
      using assms by (simp add: True polyctl_main_def cmd workspace_in_order_def ne None)
  next
    case (Some dir)
    have "workspace_in_order host \<longleftrightarrow> (\<exists>out. doctor host dir = Ok out)"
      unfolding doctor_Ok by (auto simp: workspace_in_order_def Some)
    then show ?thesis
      using assms doctor_not_Panic [of host dir]
      by (cases "doctor host dir")
        (simp_all add: True polyctl_main_def cmd Some ne)
  qed
next
  case False
  then show ?thesis
    using assms by (auto simp: polyctl_main_def parse_command_def split: list.splits)
qed

end
