(* ===== verification/Spec2Isabelle.thy ===== *)
theory Spec2Isabelle
  imports Kernel Loader_Handoff Boot_System Compiler_Lexer Fuzz_Targets Xtask_Cli Polyctl
begin

text \<open>
  Polytope OS: a model of the boot path, of the tools that build, inspect and test it, and of the
  bootstrap lexer, with the theorems that make them correct.

  \<^bold>\<open>The program.\<close>  A UEFI loader (\<^verbatim>\<open>crates/uefi-loader\<close>) reads the kernel and a one-token scenario file
  from the boot volume, validates the ELF file (\<^verbatim>\<open>crates/boot-elf\<close>), loads its segments, encodes a
  versioned contract with the memory map (\<^verbatim>\<open>crates/boot-contract\<close>) and jumps to the kernel
  (\<^verbatim>\<open>crates/kernel\<close>).  The kernel decodes the contract and reports its verdict as one diagnostic record
  on the debug console and one exit code on the emulator's exit port (\<^verbatim>\<open>crates/arch-x86_64\<close>).  The host
  tools (\<^verbatim>\<open>crates/xtask\<close>) build and validate disk images, inspect the linked kernel, compare two clean
  builds, run the emulator under a hard timeout, and classify a boot from its log and exit status.
  \<^verbatim>\<open>crates/compiler\<close> holds a lexer, \<^verbatim>\<open>crates/polyctl\<close> a workspace check, \<^verbatim>\<open>fuzz\<close> two fuzz targets.

  \<^bold>\<open>Conventions.\<close>  A call that may fail is an \<open>outcome\<close>: \<open>Ok\<close>, \<open>Err\<close> or \<open>Panic\<close>; every \<^verbatim>\<open>?\<close>, early return,
  \<^verbatim>\<open>expect\<close>, slice index and overflow check of the source is a branch.  Fixed-width integers are words;
  \<^verbatim>\<open>usize\<close> is \<open>nat\<close> with its 64-bit bound where arithmetic can reach it.  Strings are bytes.  The
  messages of \<^verbatim>\<open>anyhow\<close> errors are fixed texts without the interpolated values.  Code outside the
  repository is an argument: the firmware, the UART, the emulator process and its clock, the host's
  files, tools and environment, and the crates gpt, fatfs, uuid, sha2, ovmf-prebuilt and serde_json.
  What a theorem needs of them is a hypothesis of its own; most theorems need nothing.

  \<^bold>\<open>The theories\<close>, each with the source it follows:

  \<^item> \<open>Prelude\<close>: outcomes, checked arithmetic, slices; the collections of rewrite rules.
    \<open>Byte_Codec\<close>: little-endian fields, the reader and writer of \<^verbatim>\<open>boot-contract\<close>, and the locales
    \<open>field_codec\<close> and \<open>array_codec\<close>, interpreted on every field and record of the contract.
    \<open>Chunked_Read\<close>: the locale of bounded read loops, interpreted on the loader's and on the image
    tool's loop.
  \<^item> \<open>Boot_Contract\<close> (\<^verbatim>\<open>boot-contract/src/lib.rs\<close>): encoding and decoding are inverse; decoding accepts
    exactly the valid contracts, rejects every other length and order, and yields a sorted, disjoint
    memory map; the builder keeps the contract valid.
  \<^item> \<open>Boot_Elf\<close> (\<^verbatim>\<open>boot-elf/src/lib.rs\<close>): parsing never panics and accepts exactly the declarative load
    policy; segments are never writable and executable, stay in the load window and do not share
    pages; the entry point lies in exactly one executable segment.
  \<^item> \<open>Arch_Console\<close> (\<^verbatim>\<open>arch-x86_64/src/lib.rs\<close>): a record reaches the debug console whatever the UART
    does, within a bounded number of port accesses.  \<open>Boot_Scenario\<close> (\<^verbatim>\<open>uefi-loader/src/lib.rs\<close> and the
    scenario type of \<^verbatim>\<open>xtask/src/image.rs\<close>): loader and image tool read the same files the same way.
  \<^item> \<open>Kernel\<close> (\<^verbatim>\<open>kernel/src/lib.rs\<close>, \<^verbatim>\<open>diagnostics.rs\<close>, \<^verbatim>\<open>bin/x86_64.rs\<close>): boot phases in order; one record
    and one exit code for every memory, pointer and length, and which record the contract decides.
  \<^item> \<open>Uefi_Loader\<close>, \<open>Loader_Handoff\<close> (\<^verbatim>\<open>uefi-loader/src/main.rs\<close>): files are read exactly or refused, the
    loaded memory is what the ELF file describes, the contract the kernel sees is the one the scenario
    asks for, and every firmware behaviour ends in a handoff, one failure report, or the cold reset of
    the firmware library after the first two records.
  \<^item> \<open>Xtask_Protocol\<close>, \<open>Xtask_Observer\<close>, \<open>Xtask_Execution\<close>, \<open>Xtask_Harness\<close> (\<^verbatim>\<open>xtask/src/qemu.rs\<close>): the
    record grammar, the trace automaton and the classification accept exactly the legal boots; the
    marker is seen at the first poll that shows it; children are always reaped and the timeout is
    enforced; a baseline report is what its runs were.
  \<^item> \<open>Image_Layout\<close>, \<open>Image_Tool\<close> (\<^verbatim>\<open>xtask/src/image.rs\<close>): the partition table and allocation table checks
    accept exactly the canonical disks; an image that validates is one the loader can boot, and a
    built image validates.  \<open>Kernel_Inspection\<close> (\<^verbatim>\<open>xtask/src/inspect.rs\<close>): the layout of an accepted kernel.
  \<^item> \<open>Host_Files\<close> (the file operations of \<^verbatim>\<open>image.rs\<close>, \<^verbatim>\<open>inspect.rs\<close>, \<^verbatim>\<open>repro.rs\<close>): output files are replaced
    completely or not at all whichever system calls fail; the locale \<open>replacing_writer\<close> is interpreted on
    the three writers of the tools.  \<open>Reproducibility\<close> (\<^verbatim>\<open>repro.rs\<close>, \<^verbatim>\<open>temporary.rs\<close>, \<^verbatim>\<open>lib.rs\<close>): only
    artifacts that builds in two directories agree on, and that hold none of the four host paths, are
    published.
  \<^item> \<open>Xtask_Cli\<close> (\<^verbatim>\<open>xtask/src/main.rs\<close>): exactly the well-formed option lists are accepted, with no
    unknown option for any of the six commands; the boot test prints what it observed and passes only on
    the evidence of its scenario.  \<open>Polyctl\<close> (\<^verbatim>\<open>polyctl/src/main.rs\<close>): its exit status.
  \<^item> \<open>Compiler_Lexer\<close> (\<^verbatim>\<open>compiler/src/lib.rs\<close>): every token is the longest one, with its span.
    \<open>Fuzz_Targets\<close>: no input makes an assertion of the fuzz targets fail.
  \<^item> \<open>Boot_System\<close>: loader, kernel, console and harness composed.  For every firmware and memory map the
    class the harness gives to a boot is the one its scenario and the firmware's answers determine; a
    boot that the firmware library resets is an unexpected exit or a timeout.

  \<^bold>\<open>Bounds and fuel.\<close>  Loops over lists, chunks and headers are recursive functions with termination
  proofs.  Three loops depend on their environment.  Reading a file and listing a directory end because
  the code bounds what it accepts, which is proved for environments that never stop answering.  The
  polling loop around the emulator is ended by the clock alone, so it has fuel and \<open>None\<close> stands for
  not having ended: \<open>Xtask_Execution\<close> proves that timeout / 5 ms + 2 rounds suffice whenever a round
  takes at least the 5 ms it sleeps.  Collecting the lexer's tokens takes one call more than the source
  has characters.  The limits of the source (record length, file sizes, 128 regions, four segments,
  128 attempts for a temporary directory, 4 MiB of log) are kept as they are.

  \<^bold>\<open>Simplifications.\<close>  A path is the list of its components, so spellings that differ in repeated
  separators or inner dots are one path.  The host's answers to the reproducibility check and to one
  boot do not change while it runs.  The exit status of the emulator for a guest exit code is that of
  the isa-debug-exit device.  Leaving the boot services is one step of the firmware library, whose two
  attempts are not visible: it returns the final map, cold-resets the machine, or panics.  After a reset
  the emulator, started with \<^verbatim>\<open>-no-reboot\<close>, has a status that is none of the exit device's, or is stopped
  at the deadline.  The assembly entry is taken to reach the Rust entry function, so its own failing
  exit before that is not a boot of the model.  The floating-point fields of the statistics are computed by
  uninterpreted operations; minimum, maximum and percentile are exact.  Memory is a map from addresses
  to bytes; pointers are their addresses.

  \<^bold>\<open>Not modelled.\<close>  The assembly entry, the linker script and the kernel's build script
  (\<^verbatim>\<open>arch/x86_64\<close>, \<^verbatim>\<open>kernel/build.rs\<close>), which have no Rust semantics; the shell scripts; the removal of
  temporary directories on drop; the text of error messages and of JSON; compile-time layout
  assertions, which are the width laws of the codecs.
\<close>

end
